theory Spec2Isabelle
  imports Main "HOL-Library.Word"
begin

chapter \<open>The program: agent-transfer (src/agent-transfer/main.c)\<close>

section \<open>C strings and byte buffers\<close>

text \<open>
  Bytes are \<^typ>\<open>char\<close> values, as in the C source, where key material, protocol
  messages and text all travel through \<^verbatim>\<open>char *\<close> buffers. A C string is the
  content of a buffer up to its first NUL byte; a list with no NUL in it is read to
  its end.
\<close>

definition NUL :: char where
  "NUL = CHR 0x00"

definition cstr :: "char list \<Rightarrow> string" where
  "cstr mem = takeWhile (\<lambda>c. c \<noteq> NUL) mem"

definition strlen :: "char list \<Rightarrow> nat" where
  "strlen mem = length (cstr mem)"

text \<open>
  A bounds-checked write of the bytes \<open>cs\<close> at offset \<open>p\<close> of a buffer: \<open>None\<close> when a
  byte would land outside the allocation, which in C is undefined behaviour.
\<close>

definition store :: "char list \<Rightarrow> nat \<Rightarrow> char list \<Rightarrow> char list option" where
  "store buf p cs =
     (if p + length cs \<le> length buf
      then Some (take p buf @ cs @ drop (p + length cs) buf)
      else None)"

text \<open>
  \<^verbatim>\<open>malloc\<close> is a parameter of the model: it answers a request for \<open>n\<close> bytes with
  \<open>None\<close> (NULL) or with a block of arbitrary content. Its contract is that the block
  has the requested size.
\<close>

definition malloc_contract :: "(nat \<Rightarrow> char list option) \<Rightarrow> bool" where
  "malloc_contract malloc \<longleftrightarrow> (\<forall>n b. malloc n = Some b \<longrightarrow> length b = n)"

section \<open>percent_plus_escape (main.c, lines 206-243)\<close>

text \<open>The two digits printed by the format \<^verbatim>\<open>%02X\<close> for an unsigned char.\<close>

definition hexdigit :: "nat \<Rightarrow> char" where
  "hexdigit n = ''0123456789ABCDEF'' ! n"

definition percent_02X :: "char \<Rightarrow> string" where
  "percent_02X c =
     [CHR ''%'', hexdigit ((of_char c :: nat) div 16), hexdigit ((of_char c :: nat) mod 16)]"

text \<open>The test shared by both loops: \<^verbatim>\<open>*s == '+' || *s == '\"' || *s == '%' || *(unsigned char *)s < 0x20\<close>.\<close>

definition needs_percent :: "char \<Rightarrow> bool" where
  "needs_percent c \<longleftrightarrow>
     c = CHR ''+'' \<or> c = CHR 0x22 \<or> c = CHR ''%'' \<or> (of_char c :: nat) < 0x20"

text \<open>First loop: \<^verbatim>\<open>for (length=1, s=string; *s; s++)\<close>, called with \<open>len = 1\<close>.\<close>

fun ppe_count :: "char list \<Rightarrow> nat \<Rightarrow> nat" where
  "ppe_count [] len = len"
| "ppe_count (c # s) len =
     (if c = NUL then len
      else if needs_percent c then ppe_count s (len + 3)
      else ppe_count s (len + 1))"

text \<open>
  Second loop: \<^verbatim>\<open>for (s=string; *s; s++)\<close>, writing through the pointer \<open>p\<close> (an offset
  into \<open>buffer\<close>). \<^verbatim>\<open>snprintf (p, 4, "%%%02X", ...)\<close> writes four bytes, the three
  characters and a NUL, and \<open>p\<close> advances by three.
\<close>

fun ppe_fill :: "char list \<Rightarrow> char list \<Rightarrow> nat \<Rightarrow> (char list \<times> nat) option" where
  "ppe_fill [] buf p = Some (buf, p)"
| "ppe_fill (c # s) buf p =
     (if c = NUL then Some (buf, p)
      else if needs_percent c then
        (case store buf p (percent_02X c @ [NUL]) of
           None \<Rightarrow> None
         | Some buf' \<Rightarrow> ppe_fill s buf' (p + 3))
      else if c = CHR '' '' then
        (case store buf p [CHR ''+''] of
           None \<Rightarrow> None
         | Some buf' \<Rightarrow> ppe_fill s buf' (p + 1))
      else
        (case store buf p [c] of
           None \<Rightarrow> None
         | Some buf' \<Rightarrow> ppe_fill s buf' (p + 1)))"

datatype 'a c_result = Returned_NULL | Out_of_bounds | Returned 'a

definition percent_plus_escape ::
  "(nat \<Rightarrow> char list option) \<Rightarrow> char list \<Rightarrow> char list c_result" where
  "percent_plus_escape malloc string =
     (let len = ppe_count string 1 in
      case malloc len of
        None \<Rightarrow> Returned_NULL
      | Some buffer \<Rightarrow>
          (case ppe_fill string buffer 0 of
             None \<Rightarrow> Out_of_bounds
           | Some (buf, p) \<Rightarrow>
               (case store buf p [NUL] of
                  None \<Rightarrow> Out_of_bounds
                | Some buf' \<Rightarrow> Returned buf')))"

text \<open>
  The escaping as the specification words it, for comparison with the code: a space
  becomes a plus sign; a plus sign, a double quote, a percent sign and every byte
  below 0x20 become a three-character \<open>%XX\<close> escape; every other byte is unchanged.
\<close>

definition escape_char :: "char \<Rightarrow> string" where
  "escape_char c =
     (if c = CHR '' '' then [CHR ''+'']
      else if c = CHR ''+'' \<or> c = CHR 0x22 \<or> c = CHR ''%'' \<or> (of_char c :: nat) < 0x20
      then percent_02X c
      else [c])"

definition escape_spec :: "string \<Rightarrow> string" where
  "escape_spec s = concat (map escape_char s)"

text \<open>A decoder for the escaped text; it is not part of the program and serves the proof of injectivity.\<close>

definition unhex :: "char \<Rightarrow> nat" where
  "unhex c =
     (if (of_char c :: nat) \<le> of_char CHR ''9'' then of_char c - of_char CHR ''0''
      else of_char c - of_char CHR ''A'' + 10)"

fun unescape :: "string \<Rightarrow> string" where
  "unescape [] = []"
| "unescape (c # r) =
     (if c = CHR ''%'' then
        (case r of
           a # b # r' \<Rightarrow> char_of (16 * unhex a + unhex b) # unescape r'
         | _ \<Rightarrow> [])
      else if c = CHR ''+'' then CHR '' '' # unescape r
      else c # unescape r)"

section \<open>Error values (libgpg-error)\<close>

text \<open>
  \<^verbatim>\<open>gpg_error_t\<close> is an unsigned integer: an error source in bits 24 to 30 and an
  error code in the low 16 bits; zero is success. The header that names the codes
  belongs to the library libgpg-error, outside the repository; the numbers below are
  that library's.
\<close>

type_synonym gpg_error_t = nat

definition GPG_ERR_NO_ERROR :: gpg_error_t where "GPG_ERR_NO_ERROR = 0"
definition GPG_ERR_GENERAL :: gpg_error_t where "GPG_ERR_GENERAL = 1"
definition GPG_ERR_CHECKSUM :: gpg_error_t where "GPG_ERR_CHECKSUM = 10"
definition GPG_ERR_NOT_FOUND :: gpg_error_t where "GPG_ERR_NOT_FOUND = 27"
definition GPG_ERR_INV_KEYLEN :: gpg_error_t where "GPG_ERR_INV_KEYLEN = 44"
definition GPG_ERR_TOO_SHORT :: gpg_error_t where "GPG_ERR_TOO_SHORT = 66"
definition GPG_ERR_TOO_LARGE :: gpg_error_t where "GPG_ERR_TOO_LARGE = 67"
definition GPG_ERR_NO_OBJ :: gpg_error_t where "GPG_ERR_NO_OBJ = 68"
definition GPG_ERR_INV_CURVE :: gpg_error_t where "GPG_ERR_INV_CURVE = 187"
definition GPG_ERR_UNKNOWN_CURVE :: gpg_error_t where "GPG_ERR_UNKNOWN_CURVE = 188"
definition GPG_ERR_ASS_CONNECT_FAILED :: gpg_error_t where "GPG_ERR_ASS_CONNECT_FAILED = 259"
definition GPG_ERR_ASS_INV_RESPONSE :: gpg_error_t where "GPG_ERR_ASS_INV_RESPONSE = 260"
definition GPG_ERR_ASS_INV_VALUE :: gpg_error_t where "GPG_ERR_ASS_INV_VALUE = 261"
definition GPG_ERR_UNKNOWN_FLAG :: gpg_error_t where "GPG_ERR_UNKNOWN_FLAG = 309"
definition GPG_ERR_EBADF :: gpg_error_t where "GPG_ERR_EBADF = 32768 + 11"
definition GPG_ERR_ENAMETOOLONG :: gpg_error_t where "GPG_ERR_ENAMETOOLONG = 32768 + 69"
definition GPG_ERR_ENOMEM :: gpg_error_t where "GPG_ERR_ENOMEM = 32768 + 86"

text \<open>The two error sources that libassuan puts into the errors it makes itself.\<close>

definition GPG_ERR_SOURCE_ASSUAN :: nat where "GPG_ERR_SOURCE_ASSUAN = 15"
definition GPG_ERR_SOURCE_USER_1 :: nat where "GPG_ERR_SOURCE_USER_1 = 32"

text \<open>\<^verbatim>\<open>gpg_err_code (err)\<close> is \<^verbatim>\<open>err & GPG_ERR_CODE_MASK\<close>, the low 16 bits.\<close>

definition gpg_err_code :: "gpg_error_t \<Rightarrow> nat" where
  "gpg_err_code err = err mod 65536"

text \<open>
  \<^verbatim>\<open>gpg_error (code)\<close> is \<^verbatim>\<open>gpg_err_make (GPG_ERR_SOURCE_DEFAULT, code)\<close>; main.c does
  not define the default source, which is then \<^verbatim>\<open>GPG_ERR_SOURCE_UNKNOWN\<close>, zero.
\<close>

definition gpg_err_make :: "nat \<Rightarrow> nat \<Rightarrow> gpg_error_t" where
  "gpg_err_make source code =
     (if code = GPG_ERR_NO_ERROR then GPG_ERR_NO_ERROR
      else (source mod 128) * 2 ^ 24 + code mod 65536)"

definition gpg_error :: "nat \<Rightarrow> gpg_error_t" where
  "gpg_error code = gpg_err_make 0 code"

section \<open>The exporter (main.c, lines 169-191)\<close>

datatype key_type = kt_unknown | kt_rsa | kt_ed25519

text \<open>
  A \<^verbatim>\<open>gcry_mpi_t\<close> is a pointer (NULL is \<open>None\<close> in the fields below) to either an
  unsigned integer or an opaque byte string. For an opaque value made from a byte
  string, \<^verbatim>\<open>gcry_mpi_get_opaque\<close> gives the bytes and eight times their count as the
  number of bits; \<open>Mpi_opaque None\<close> is an opaque value with no data.
\<close>

datatype gcry_mpi = Mpi_num nat | Mpi_opaque "char list option"

text \<open>A cipher handle, with the key once \<^verbatim>\<open>gcry_cipher_setkey\<close> has set one.\<close>

datatype gcry_cipher_hd = Cipher_hd "char list option"

text \<open>A parsed S-expression: a tree of byte-string atoms.\<close>

datatype gcry_sexp = Atom "char list" | SList "gcry_sexp list"

text \<open>
  The assuan context with the state of its I/O engine. \<^verbatim>\<open>assuan_new\<close> makes a context
  without an engine. \<^verbatim>\<open>assuan_socket_connect\<close> installs the engine once the socket
  is connected and then reads the greeting of the server: when it fails before that
  point the context still has no engine, and when the greeting fails the engine stays
  with its descriptors closed.
\<close>

datatype assuan_engine = No_engine | Engine_closed | Connected

datatype assuan_context = Assuan_context assuan_engine

text \<open>
  The fields \<^verbatim>\<open>n e d p q\<close> of the C struct are \<open>key_n key_e key_d key_p key_q\<close> here.
  The two lengths are \<^verbatim>\<open>size_t\<close>, 64 bits wide.
\<close>

record exporter =
  ctx :: "assuan_context option"
  wrap_cipher :: "gcry_cipher_hd option"
  wrapped_key :: "char list option"
  wrapped_len :: "64 word"
  unwrapped_key :: "char list option"
  unwrapped_len :: "64 word"
  ktype :: key_type
  sexp :: "gcry_sexp option"
  key_n :: "gcry_mpi option"
  key_e :: "gcry_mpi option"
  key_d :: "gcry_mpi option"
  key_p :: "gcry_mpi option"
  key_q :: "gcry_mpi option"
  iqmp :: "gcry_mpi option"
  curve :: "gcry_mpi option"
  flags :: "gcry_mpi option"

text \<open>The exporter of \<^verbatim>\<open>main\<close>: \<^verbatim>\<open>struct exporter e = { .wrapped_key = NULL }\<close>, all zero.\<close>

definition exporter0 :: exporter where
  "exporter0 = \<lparr> ctx = None, wrap_cipher = None, wrapped_key = None, wrapped_len = 0,
     unwrapped_key = None, unwrapped_len = 0, ktype = kt_unknown, sexp = None,
     key_n = None, key_e = None, key_d = None, key_p = None, key_q = None,
     iqmp = None, curve = None, flags = None \<rparr>"

section \<open>The libraries and the two agents, as parameters\<close>

text \<open>
  Everything the program asks of the C library, libgcrypt, libassuan and the two
  agent processes is a field of the record \<open>world\<close>; the program's functions take it
  as their first argument. A call that returns an error code and fills an output
  argument is a pair of the code and the output; the output counts only when the code
  is zero.
\<close>

record world =
  libc_malloc :: "nat \<Rightarrow> char list option"
  realloc_ok :: "nat \<Rightarrow> bool"
  asprintf_ok :: "string \<Rightarrow> bool"
  getenv :: "string \<Rightarrow> string option"
  ttyname0 :: "string option"
  launch_status :: int
  gcry_version_ok :: bool
  cipher_open :: gpg_error_t
  cipher_setkey :: "char list \<Rightarrow> gpg_error_t"
  cipher_decrypt :: "gcry_cipher_hd \<Rightarrow> nat \<Rightarrow> char list \<Rightarrow> nat \<Rightarrow> gpg_error_t \<times> char list"
  sexp_new :: "char list \<Rightarrow> nat \<Rightarrow> gpg_error_t \<times> gcry_sexp"
  extract_rsa :: "gcry_sexp \<Rightarrow> (gpg_error_t \<times> (nat \<times> nat \<times> nat \<times> nat \<times> nat)) option"
  extract_ecc :: "gcry_sexp \<Rightarrow> (gpg_error_t \<times> (char list \<times> char list \<times> char list \<times> char list)) option"
  assuan_new :: gpg_error_t
  agent_sockname :: "string option"
  socket_connect :: "nat \<Rightarrow> gpg_error_t"
  connect_sets_engine :: "nat \<Rightarrow> bool"
  agent_reply :: "string \<Rightarrow> char list list \<times> gpg_error_t"
  ssh_socket :: "string \<Rightarrow> int"
  ssh_write :: "char list \<Rightarrow> int"
  ssh_read_len :: "int \<times> nat"
  ssh_read_resp :: "int \<times> nat"

section \<open>extend_wrapped_key and data_cb (main.c, lines 247-256 and 368-389)\<close>

text \<open>
  The new size is \<^verbatim>\<open>e->wrapped_len + data_sz\<close> in \<^verbatim>\<open>size_t\<close> arithmetic. \<^verbatim>\<open>realloc\<close> keeps
  the old content, and \<^verbatim>\<open>memcpy\<close> puts the chunk at offset \<^verbatim>\<open>e->wrapped_len\<close> of the new
  block, which is behind the old content: the block of \<open>wrapped_key\<close> has
  \<open>wrapped_len\<close> bytes in every state that the program reaches from \<open>exporter0\<close>.
  The result is \<open>None\<close>, undefined, in two cases. The first is \<^verbatim>\<open>realloc (ptr, 0)\<close> on a
  block: C23 leaves the call undefined, and glibc frees the block and returns NULL, so
  that the function returns \<^verbatim>\<open>GPG_ERR_ENOMEM\<close> with \<^verbatim>\<open>e->wrapped_key\<close> pointing to freed
  memory. The second is a sum that wraps around, where \<^verbatim>\<open>memcpy\<close> writes beyond the
  new block. \<^verbatim>\<open>realloc (NULL, n)\<close> is \<^verbatim>\<open>malloc (n)\<close>, also for \<open>n = 0\<close>.
\<close>

definition extend_wrapped_key ::
  "world \<Rightarrow> exporter \<Rightarrow> char list \<Rightarrow> (gpg_error_t \<times> exporter) option" where
  "extend_wrapped_key w e data =
     (let newsz = wrapped_len e + of_nat (length data) in
      if wrapped_key e \<noteq> None \<and> newsz = 0 then None
      else if \<not> realloc_ok w (unat newsz) then Some (GPG_ERR_ENOMEM, e)
      else if unat (wrapped_len e) + length data \<noteq> unat newsz then None
      else Some (GPG_ERR_NO_ERROR,
                 e\<lparr>wrapped_key := Some ((case wrapped_key e of None \<Rightarrow> [] | Some old \<Rightarrow> old) @ data),
                   wrapped_len := newsz\<rparr>))"

text \<open>\<^verbatim>\<open>gcry_cipher_get_algo_keylen (GCRY_CIPHER_AES128)\<close>: the key of AES-128 has 16 bytes.\<close>

definition cipher_keylen :: nat where
  "cipher_keylen = 16"

text \<open>
  \<open>data_cb\<close>; \<open>None\<close> is the undefined behaviour of \<open>extend_wrapped_key\<close>. A cipher
  handle that \<^verbatim>\<open>gcry_cipher_open\<close> has made stays in the exporter when
  \<^verbatim>\<open>gcry_cipher_setkey\<close> fails.
\<close>

definition data_cb :: "world \<Rightarrow> exporter \<Rightarrow> char list \<Rightarrow> (gpg_error_t \<times> exporter) option" where
  "data_cb w e data =
     (if wrap_cipher e = None then
        (if length data \<noteq> cipher_keylen then Some (GPG_ERR_INV_KEYLEN, e)
         else if cipher_open w \<noteq> 0 then Some (cipher_open w, e)
         else
           (let e1 = e\<lparr>wrap_cipher := Some (Cipher_hd None)\<rparr> in
            if cipher_setkey w data \<noteq> 0 then Some (cipher_setkey w data, e1)
            else Some (0, e\<lparr>wrap_cipher := Some (Cipher_hd (Some data))\<rparr>)))
      else extend_wrapped_key w e data)"

text \<open>
  The data callbacks of one session, in order of arrival. libassuan stops a
  transaction at the first callback that returns an error, and the chunks that
  follow it are never delivered.
\<close>

fun data_cbs :: "world \<Rightarrow> exporter \<Rightarrow> char list list \<Rightarrow> (gpg_error_t \<times> exporter) option" where
  "data_cbs w e [] = Some (0, e)"
| "data_cbs w e (chunk # chunks) =
     (case data_cb w e chunk of
        None \<Rightarrow> None
      | Some (ret, e') \<Rightarrow> if ret \<noteq> 0 then Some (ret, e') else data_cbs w e' chunks)"

text \<open>
  The content of a buffer that may be NULL, for statements about \<open>wrapped_key\<close>, and
  the agreement of \<open>wrapped_len\<close> with the size of the block.
\<close>

definition buffer_bytes :: "char list option \<Rightarrow> char list" where
  "buffer_bytes b = (case b of None \<Rightarrow> [] | Some bytes \<Rightarrow> bytes)"

definition block_sized :: "exporter \<Rightarrow> bool" where
  "block_sized e \<longleftrightarrow> length (buffer_bytes (wrapped_key e)) = unat (wrapped_len e)"

section \<open>unwrap_rsa_key (main.c, lines 259-271)\<close>

text \<open>
  \<^verbatim>\<open>gcry_mpi_invm (x, a, m)\<close> of libgcrypt: "Set x to the multiplicative inverse of a mod
  m. Return true if the inverse exists." The inverse is found here by search through
  the residues; when there is none, x is left at zero. The call does not return for
  every input: with the modulus zero and an odd \<open>a\<close> libgcrypt 1.10.3 ends the process
  with a segmentation fault (with the modulus zero and an even \<open>a\<close> it returns false).
  That case is \<open>None\<close>, as are a NULL pointer and an opaque value.
\<close>

definition is_inverse :: "nat \<Rightarrow> nat \<Rightarrow> nat \<Rightarrow> bool" where
  "is_inverse a m x \<longleftrightarrow> (x * a) mod m = 1"

definition invm :: "nat \<Rightarrow> nat \<Rightarrow> (bool \<times> nat) option" where
  "invm a m =
     (if m = 0 \<and> odd a then None
      else (case find (is_inverse a m) [0..<m] of
              None \<Rightarrow> Some (False, 0)
            | Some x \<Rightarrow> Some (True, x)))"

definition gcry_mpi_invm :: "gcry_mpi option \<Rightarrow> gcry_mpi option \<Rightarrow> (bool \<times> nat) option" where
  "gcry_mpi_invm a m =
     (case (a, m) of
        (Some (Mpi_num av), Some (Mpi_num mv)) \<Rightarrow> invm av mv
      | _ \<Rightarrow> None)"

definition unwrap_rsa_key :: "exporter \<Rightarrow> (gpg_error_t \<times> exporter) option" where
  "unwrap_rsa_key e =
     (case gcry_mpi_invm (key_q e) (key_p e) of
        None \<Rightarrow> None
      | Some (ret, x) \<Rightarrow>
          (let e1 = e\<lparr>iqmp := Some (Mpi_num x)\<rparr> in
           if \<not> ret then Some (GPG_ERR_GENERAL, e1)
           else Some (GPG_ERR_NO_ERROR, e1\<lparr>ktype := kt_rsa\<rparr>)))"

section \<open>unwrap_ed25519_key (main.c, lines 274-306)\<close>

text \<open>
  \<^verbatim>\<open>gcry_mpi_get_opaque (a, &sz)\<close> returns the data pointer and stores the number of
  bits. libgcrypt aborts the process when the value is not opaque, and a NULL
  argument is dereferenced: both are \<open>None\<close>.
\<close>

definition gcry_mpi_get_opaque :: "gcry_mpi option \<Rightarrow> (char list option \<times> nat) option" where
  "gcry_mpi_get_opaque a =
     (case a of
        Some (Mpi_opaque None) \<Rightarrow> Some (None, 0)
      | Some (Mpi_opaque (Some bytes)) \<Rightarrow> Some (Some bytes, 8 * length bytes)
      | _ \<Rightarrow> None)"

text \<open>
  The macro \<^verbatim>\<open>opaque_compare (val, str, err)\<close>: \<open>Some (Some r)\<close> when it returns \<open>r\<close> from
  the function, \<open>Some None\<close> when control goes on. \<^verbatim>\<open>memcmp\<close> compares the first
  \<^verbatim>\<open>strlen (str)\<close> bytes.
\<close>

definition opaque_compare :: "gcry_mpi option \<Rightarrow> string \<Rightarrow> nat \<Rightarrow> gpg_error_t option option" where
  "opaque_compare val str err =
     (case gcry_mpi_get_opaque val of
        None \<Rightarrow> None
      | Some (data, sz) \<Rightarrow>
          Some (case data of
                  None \<Rightarrow> Some (gpg_error err)
                | Some bytes \<Rightarrow>
                    if sz \<noteq> length str * 8 \<or> take (length str) bytes \<noteq> str
                    then Some (gpg_error err) else None))"

definition unwrap_ed25519_key :: "exporter \<Rightarrow> (gpg_error_t \<times> exporter) option" where
  "unwrap_ed25519_key e =
     (case opaque_compare (curve e) ''Ed25519'' GPG_ERR_UNKNOWN_CURVE of
        None \<Rightarrow> None
      | Some (Some r) \<Rightarrow> Some (r, e)
      | Some None \<Rightarrow>
     (case opaque_compare (flags e) ''eddsa'' GPG_ERR_UNKNOWN_FLAG of
        None \<Rightarrow> None
      | Some (Some r) \<Rightarrow> Some (r, e)
      | Some None \<Rightarrow>
     (case gcry_mpi_get_opaque (key_q e) of
        None \<Rightarrow> None
      | Some (qdata, qsz) \<Rightarrow>
          if qsz \<noteq> 33 * 8 \<or> (case qdata of None \<Rightarrow> True | Some [] \<Rightarrow> True
                                 | Some (t # _) \<Rightarrow> t \<noteq> CHR 0x40)
          then Some (gpg_error GPG_ERR_INV_CURVE, e)
          else
     (case gcry_mpi_get_opaque (key_d e) of
        None \<Rightarrow> None
      | Some (ddata, dsz) \<Rightarrow>
          if dsz < 32 * 8 then Some (gpg_error GPG_ERR_TOO_SHORT, e)
          else if dsz > 32 * 8 then Some (gpg_error GPG_ERR_TOO_LARGE, e)
          else if ddata = None then Some (gpg_error GPG_ERR_NO_OBJ, e)
          else Some (GPG_ERR_NO_ERROR, e\<lparr>ktype := kt_ed25519\<rparr>)))))"

section \<open>unwrap_key (main.c, lines 309-366)\<close>

text \<open>The calls into libgcrypt that \<open>unwrap_key\<close> makes itself, in order.\<close>

datatype lib_call = Call_decrypt | Call_sexp_new | Call_extract_param string

text \<open>
  The result is the returned error, the exporter as left behind and the library
  calls made; \<open>None\<close> is a run that does not return. A failed extraction leaves the
  fields of the exporter as they were. \<^verbatim>\<open>e->wrapped_len - sz_diff\<close> is \<^verbatim>\<open>size_t\<close>
  arithmetic. The two calls of \<^verbatim>\<open>gcry_sexp_extract_param\<close> are \<open>extract_rsa\<close> and
  \<open>extract_ecc\<close> of the world; they answer \<open>None\<close> when the call does not return, as
  happens in libgcrypt 1.10.3, which ends the process on S-expressions of more than
  about 65535 bytes.
\<close>

definition unwrap_key :: "world \<Rightarrow> exporter \<Rightarrow> (gpg_error_t \<times> exporter \<times> lib_call list) option" where
  "unwrap_key w e =
     (if ctx e = None \<or> wrap_cipher e = None \<or> wrapped_key e = None \<or> wrapped_len e < 1
      then Some (GPG_ERR_GENERAL, e, [])
      else if \<not> realloc_ok w (unat (wrapped_len e - 8)) then Some (GPG_ERR_ENOMEM, e, [])
      else
        (let e1 = e\<lparr>unwrapped_len := wrapped_len e - 8\<rparr>;
             (ret1, out) = cipher_decrypt w (the (wrap_cipher e1)) (unat (unwrapped_len e1))
                             (the (wrapped_key e1)) (unat (wrapped_len e1));
             e2 = e1\<lparr>unwrapped_key := Some out\<rparr>
         in if ret1 \<noteq> 0 then Some (ret1, e2, [Call_decrypt])
         else
        (let (ret2, sx) = sexp_new w out (unat (unwrapped_len e2)) in
         if ret2 \<noteq> 0 then Some (ret2, e2, [Call_decrypt, Call_sexp_new])
         else
        (let e3 = e2\<lparr>sexp := Some sx\<rparr>;
             calls3 = [Call_decrypt, Call_sexp_new, Call_extract_param ''private-key!rsa'']
         in case extract_rsa w sx of
              None \<Rightarrow> None
            | Some (ret3, (vn, ve, vd, vp, vq)) \<Rightarrow>
                if ret3 = 0 then
                  (case unwrap_rsa_key
                          (e3\<lparr>key_n := Some (Mpi_num vn), key_e := Some (Mpi_num ve),
                              key_d := Some (Mpi_num vd), key_p := Some (Mpi_num vp),
                              key_q := Some (Mpi_num vq)\<rparr>) of
                     None \<Rightarrow> None
                   | Some (r, e') \<Rightarrow> Some (r, e', calls3))
                else if gpg_err_code ret3 = GPG_ERR_NOT_FOUND then
                  (let calls4 = calls3 @ [Call_extract_param ''private-key!ecc'']
                   in case extract_ecc w sx of
                        None \<Rightarrow> None
                      | Some (ret4, (vcurve, vflags, vq', vd')) \<Rightarrow>
                          if ret4 = 0 then
                            (case unwrap_ed25519_key
                                    (e3\<lparr>curve := Some (Mpi_opaque (Some vcurve)),
                                        flags := Some (Mpi_opaque (Some vflags)),
                                        key_q := Some (Mpi_opaque (Some vq')),
                                        key_d := Some (Mpi_opaque (Some vd'))\<rparr>) of
                               None \<Rightarrow> None
                             | Some (r, e') \<Rightarrow> Some (r, e', calls4))
                          else Some (ret4, e3, calls4))
                else Some (ret3, e3, calls3)))))"

section \<open>send_to_ssh_agent (main.c, lines 426-552)\<close>

text \<open>
  Modelled from the spec: the header \<^verbatim>\<open>ssh-agent-proto.h\<close> of the repository is not
  among the sources. The specification names a plain and a constrained add-identity
  opcode, a confirm and a lifetime constraint tag and a success code; the numbers are
  those of the SSH agent protocol.
\<close>

definition SSH2_AGENTC_ADD_IDENTITY :: nat where "SSH2_AGENTC_ADD_IDENTITY = 17"
definition SSH2_AGENTC_ADD_ID_CONSTRAINED :: nat where "SSH2_AGENTC_ADD_ID_CONSTRAINED = 25"
definition SSH_AGENT_CONSTRAIN_LIFETIME :: nat where "SSH_AGENT_CONSTRAIN_LIFETIME = 1"
definition SSH_AGENT_CONSTRAIN_CONFIRM :: nat where "SSH_AGENT_CONSTRAIN_CONFIRM = 2"
definition SSH_AGENT_SUCCESS :: nat where "SSH_AGENT_SUCCESS = 6"

text \<open>
  \<^verbatim>\<open>tmp = htonl (a)\<close> converts its argument to \<^verbatim>\<open>uint32_t\<close>, which keeps the low 32
  bits, and the four bytes of \<open>tmp\<close> are then the big-endian digits of that number.
\<close>

definition be32 :: "nat \<Rightarrow> char list" where
  "be32 a =
     (let v = a mod 2 ^ 32
      in [char_of (v div 2 ^ 24), char_of (v div 2 ^ 16), char_of (v div 2 ^ 8), char_of v])"

text \<open>The number a receiver reads from four big-endian bytes.\<close>

definition be32_value :: "char list \<Rightarrow> nat" where
  "be32_value bytes =
     (case bytes of
        [b3, b2, b1, b0] \<Rightarrow> of_char b3 * 2 ^ 24 + of_char b2 * 2 ^ 16 + of_char b1 * 2 ^ 8 + of_char b0
      | _ \<Rightarrow> 0)"

text \<open>
  \<^verbatim>\<open>gcry_mpi_print (GCRYMPI_FMT_SSH, ...)\<close> of libgcrypt: a four-byte big-endian length,
  then the number in big-endian bytes without leading zeros, with one zero byte in
  front when the top bit of the first byte is set. It is undefined (\<open>None\<close>) here on a
  NULL pointer and on an opaque value. Called with a NULL buffer, as \<open>get_ssh_sz\<close> does,
  it only reports the size; called with a buffer of that size, as the macro \<^verbatim>\<open>wmpi\<close>
  does, it does not fail.
\<close>

fun be_bytes :: "nat \<Rightarrow> char list" where
  "be_bytes v = (if v = 0 then [] else be_bytes (v div 256) @ [char_of v])"

declare be_bytes.simps [simp del]

definition gcry_mpi_print_ssh :: "gcry_mpi option \<Rightarrow> char list option" where
  "gcry_mpi_print_ssh a =
     (case a of
        Some (Mpi_num v) \<Rightarrow>
          (let digits = be_bytes v;
               body = (case digits of [] \<Rightarrow> [] | b # _ \<Rightarrow>
                         if (of_char b :: nat) \<ge> 128 then CHR 0x00 # digits else digits)
           in Some (be32 (length body) @ body))
      | _ \<Rightarrow> None)"

definition get_ssh_sz :: "gcry_mpi option \<Rightarrow> nat option" where
  "get_ssh_sz mpi = map_option length (gcry_mpi_print_ssh mpi)"

text \<open>
  The message buffer with the write offset. Each of the macros \<^verbatim>\<open>w32\<close>, \<^verbatim>\<open>wstr\<close>,
  \<^verbatim>\<open>wbyte\<close>, \<^verbatim>\<open>wmpi\<close> and each \<^verbatim>\<open>memcpy\<close> puts a block of bytes at the offset and
  advances it; \<open>run_writes\<close> performs the blocks in order and is \<open>None\<close> as soon as
  one of them would leave the allocation.
\<close>

definition put :: "char list \<Rightarrow> char list \<times> nat \<Rightarrow> (char list \<times> nat) option" where
  "put bytes st =
     (case st of (buf, offset) \<Rightarrow>
        (case store buf offset bytes of
           None \<Rightarrow> None
         | Some buf' \<Rightarrow> Some (buf', offset + length bytes)))"

fun run_writes :: "char list list \<Rightarrow> char list \<times> nat \<Rightarrow> (char list \<times> nat) option" where
  "run_writes [] st = Some st"
| "run_writes (bytes # blocks) st =
     (case put bytes st of None \<Rightarrow> None | Some st' \<Rightarrow> run_writes blocks st')"

definition w32 :: "nat \<Rightarrow> char list list" where
  "w32 a = [be32 a]"

definition wstr :: "char list option \<Rightarrow> char list list" where
  "wstr a =
     (let slen = (case a of None \<Rightarrow> 0 | Some s \<Rightarrow> strlen s)
      in w32 slen @ (case a of None \<Rightarrow> [] | Some s \<Rightarrow> [take slen s]))"

definition wbyte :: "nat \<Rightarrow> char list list" where
  "wbyte x = [[char_of x]]"

text \<open>
  The blocks written for the key: six numbers in the order \<open>n e d iqmp p q\<close> for RSA;
  for Ed25519 the 32 bytes after the tag of \<open>q\<close>, then the 32 bytes of \<open>d\<close> followed by
  the same 32 bytes of \<open>q\<close>. \<open>None\<close> is undefined behaviour, \<open>Some None\<close> the return of
  -1 when the Ed25519 values do not have the expected sizes.
\<close>

definition rsa_fields :: "exporter \<Rightarrow> char list list option" where
  "rsa_fields e =
     (case (gcry_mpi_print_ssh (key_n e), gcry_mpi_print_ssh (key_e e), gcry_mpi_print_ssh (key_d e),
            gcry_mpi_print_ssh (iqmp e), gcry_mpi_print_ssh (key_p e), gcry_mpi_print_ssh (key_q e)) of
        (Some bn, Some be, Some bd, Some bi, Some bp, Some bq) \<Rightarrow> Some [bn, be, bd, bi, bp, bq]
      | _ \<Rightarrow> None)"

definition ed25519_fields :: "exporter \<Rightarrow> char list list option option" where
  "ed25519_fields e =
     (case (gcry_mpi_get_opaque (key_q e), gcry_mpi_get_opaque (key_d e)) of
        (Some (qdata, qsz), Some (ddata, dsz)) \<Rightarrow>
          (case (qdata, ddata) of
             (Some qbytes, Some dbytes) \<Rightarrow>
               if qsz \<noteq> 33 * 8 \<or> dsz \<noteq> 32 * 8 then Some None
               else Some (Some (w32 32 @ [take 32 (drop 1 qbytes)] @
                                w32 64 @ [take 32 dbytes] @ [take 32 (drop 1 qbytes)]))
           | _ \<Rightarrow> Some None)
      | _ \<Rightarrow> None)"

datatype 'a attempt = Undefined | Gave_up | Built 'a

text \<open>The request byte: \<^verbatim>\<open>seconds || confirm ? SSH2_AGENTC_ADD_ID_CONSTRAINED : SSH2_AGENTC_ADD_IDENTITY\<close>.\<close>

definition opcode :: "nat \<Rightarrow> int \<Rightarrow> nat" where
  "opcode seconds confirm =
     (if seconds \<noteq> 0 \<or> confirm \<noteq> 0 then SSH2_AGENTC_ADD_ID_CONSTRAINED
      else SSH2_AGENTC_ADD_IDENTITY)"

text \<open>
  The writes between \<^verbatim>\<open>offset = 0\<close> and the call of \<^verbatim>\<open>write\<close> (lines 481 to 519), in
  order, with the blocks of the key in their place.
\<close>

definition message_blocks ::
  "nat \<Rightarrow> string \<Rightarrow> char list list \<Rightarrow> nat \<Rightarrow> int \<Rightarrow> char list option \<Rightarrow> char list list" where
  "message_blocks len key_type key_blocks seconds confirm comment =
     w32 len @ wbyte (opcode seconds confirm) @ wstr (Some key_type) @ key_blocks @ wstr comment
     @ (if confirm \<noteq> 0 then wbyte SSH_AGENT_CONSTRAIN_CONFIRM else [])
     @ (if seconds \<noteq> 0 then wbyte SSH_AGENT_CONSTRAIN_LIFETIME @ w32 seconds else [])"

text \<open>
  The part of \<open>send_to_ssh_agent\<close> up to the call of \<^verbatim>\<open>write\<close>: the buffer handed to
  \<^verbatim>\<open>write\<close> and the length \<open>len\<close>; \<^verbatim>\<open>write\<close> is asked to send \<open>4 + len\<close> bytes of it.
  \<open>seconds\<close> is an \<^verbatim>\<open>unsigned int\<close> and \<open>confirm\<close> an \<^verbatim>\<open>int\<close>. For RSA, \<open>mpilen\<close> is the
  sum of \<open>get_ssh_sz\<close> over the six numbers, the sizes of the blocks that
  \<^verbatim>\<open>gcry_mpi_print\<close> writes later.
\<close>

definition ssh_message ::
  "world \<Rightarrow> exporter \<Rightarrow> nat \<Rightarrow> int \<Rightarrow> char list option \<Rightarrow> (char list \<times> nat) attempt" where
  "ssh_message w e seconds confirm comment =
     (if ktype e \<noteq> kt_rsa \<and> ktype e \<noteq> kt_ed25519 then Gave_up
      else
        (case (if ktype e = kt_rsa
               then map_option (\<lambda>bs. (''ssh-rsa'', sum_list (map length bs))) (rsa_fields e)
               else Some (''ssh-ed25519'', 4 + 32 + 4 + 64)) of
           None \<Rightarrow> Undefined
         | Some (key_type, mpilen) \<Rightarrow>
             (let len = 1 + 4 + strlen key_type + mpilen
                        + 4 + (case comment of None \<Rightarrow> 0 | Some s \<Rightarrow> strlen s)
                        + (if confirm \<noteq> 0 then 1 else 0)
                        + (if seconds \<noteq> 0 then 5 else 0)
              in case libc_malloc w (4 + len) of
                   None \<Rightarrow> Gave_up
                 | Some msgbuf \<Rightarrow>
                     (case (if ktype e = kt_rsa then map_option Some (rsa_fields e)
                            else ed25519_fields e) of
                        None \<Rightarrow> Undefined
                      | Some None \<Rightarrow> Gave_up
                      | Some (Some key_blocks) \<Rightarrow>
                          (case run_writes
                                  (message_blocks len key_type key_blocks seconds confirm comment)
                                  (msgbuf, 0) of
                             None \<Rightarrow> Undefined
                           | Some (buf, offset) \<Rightarrow> Built (buf, len))))))"

text \<open>
  The whole function: the status it returns and the messages it has written to the
  socket. \<^verbatim>\<open>read\<close> gives the number of bytes read and what they hold.
\<close>

definition send_to_ssh_agent ::
  "world \<Rightarrow> exporter \<Rightarrow> nat \<Rightarrow> int \<Rightarrow> char list option \<Rightarrow> (int \<times> char list list) option" where
  "send_to_ssh_agent w e seconds confirm comment =
     (case ssh_message w e seconds confirm comment of
        Undefined \<Rightarrow> None
      | Gave_up \<Rightarrow> Some (-1, [])
      | Built (msgbuf, len) \<Rightarrow>
          (let msg = take (4 + len) msgbuf in
           if ssh_write w msg \<noteq> int (4 + len) then Some (-1, [msg])
           else if fst (ssh_read_len w) \<noteq> 4 then Some (-1, [msg])
           else if snd (ssh_read_len w) \<noteq> 1 then Some (-1, [msg])
           else if fst (ssh_read_resp w) \<noteq> 1 then Some (-1, [msg])
           else if snd (ssh_read_resp w) \<noteq> SSH_AGENT_SUCCESS then Some (-1, [msg])
           else Some (0, [msg])))"

section \<open>parse_args (main.c, lines 620-692)\<close>

text \<open>
  The fields of \<^verbatim>\<open>struct args\<close> carry the prefix \<open>arg_\<close> here. \<^verbatim>\<open>argv\<close> is the list of
  the arguments, the program's name first.
\<close>

record args =
  arg_seconds :: int
  arg_confirm :: int
  arg_comment :: "string option"
  arg_keygrip :: "string option"
  arg_help :: int

text \<open>\<^verbatim>\<open>struct args args = { .keygrip = NULL }\<close>: all zero.\<close>

definition args0 :: args where
  "args0 = \<lparr> arg_seconds = 0, arg_confirm = 0, arg_comment = None, arg_keygrip = None, arg_help = 0 \<rparr>"

definition KEYGRIP_LENGTH :: nat where
  "KEYGRIP_LENGTH = 40"

text \<open>\<^verbatim>\<open>isxdigit\<close>, \<^verbatim>\<open>isdigit\<close> and \<^verbatim>\<open>isspace\<close> of the C locale.\<close>

definition isdigit :: "char \<Rightarrow> bool" where
  "isdigit c \<longleftrightarrow> (of_char CHR ''0'' :: nat) \<le> of_char c \<and> (of_char c :: nat) \<le> of_char CHR ''9''"

definition isxdigit :: "char \<Rightarrow> bool" where
  "isxdigit c \<longleftrightarrow>
     isdigit c
     \<or> (of_char CHR ''a'' :: nat) \<le> of_char c \<and> (of_char c :: nat) \<le> of_char CHR ''f''
     \<or> (of_char CHR ''A'' :: nat) \<le> of_char c \<and> (of_char c :: nat) \<le> of_char CHR ''F''"

definition isspace :: "char \<Rightarrow> bool" where
  "isspace c \<longleftrightarrow> c = CHR '' '' \<or> (9 :: nat) \<le> of_char c \<and> (of_char c :: nat) \<le> 13"

text \<open>
  \<^verbatim>\<open>atoi\<close> of glibc is \<^verbatim>\<open>(int) strtol (nptr, NULL, 10)\<close>: leading white space, an
  optional sign, then decimal digits up to the first other character; \<^verbatim>\<open>strtol\<close>
  returns \<^verbatim>\<open>LONG_MAX\<close> or \<^verbatim>\<open>LONG_MIN\<close> for a value outside the 64 bits of \<^verbatim>\<open>long\<close>, and
  the conversion to \<^verbatim>\<open>int\<close> keeps the low 32 bits.
\<close>

fun atoi_digits :: "string \<Rightarrow> int \<Rightarrow> int" where
  "atoi_digits [] acc = acc"
| "atoi_digits (c # s) acc =
     (if isdigit c then atoi_digits s (acc * 10 + (int (of_char c) - int (of_char CHR ''0''))) else acc)"

definition strtol :: "string \<Rightarrow> int" where
  "strtol s =
     (let v = (case dropWhile isspace s of
                 [] \<Rightarrow> 0
               | c # r \<Rightarrow>
                   if c = CHR ''-'' then - atoi_digits r 0
                   else if c = CHR ''+'' then atoi_digits r 0
                   else atoi_digits (c # r) 0)
      in max (- (2 ^ 63)) (min (2 ^ 63 - 1) v))"

definition atoi :: "string \<Rightarrow> int" where
  "atoi s = sint (word_of_int (strtol s) :: 32 word)"

text \<open>
  The inner loop over the letters of an argument that starts with a dash. The first
  component is 1 for \<^verbatim>\<open>return 1\<close> (flag not recognized) and 0 otherwise; the last is
  \<open>looking_for_seconds\<close>.
\<close>

fun parse_flags :: "string \<Rightarrow> args \<Rightarrow> bool \<Rightarrow> int \<times> args \<times> bool" where
  "parse_flags [] a looking_for_seconds = (0, a, looking_for_seconds)"
| "parse_flags (x # xs) a looking_for_seconds =
     (if x = CHR ''c'' then parse_flags xs (a\<lparr>arg_confirm := 1\<rparr>) looking_for_seconds
      else if x = CHR ''t'' then parse_flags xs a True
      else if x = CHR ''h'' then parse_flags xs (a\<lparr>arg_help := 1\<rparr>) looking_for_seconds
      else (1, a, looking_for_seconds))"

text \<open>
  The outer loop \<^verbatim>\<open>while (ptr < argc)\<close> over the arguments from \<open>argv[ptr]\<close> on. The
  first character of an empty argument is its NUL, which is not a dash.
\<close>

fun parse_loop :: "string list \<Rightarrow> args \<Rightarrow> int \<times> args" where
  "parse_loop [] a = (0, a)"
| "parse_loop (arg # rest) a =
     (if take 1 arg = ''-'' then
        (case parse_flags (drop 1 arg) a False of
           (r, a1, looking_for_seconds) \<Rightarrow>
             if r \<noteq> 0 then (1, a1)
             else if looking_for_seconds then
               (case rest of
                  [] \<Rightarrow> (1, a1)
                | value # rest' \<Rightarrow>
                    (let a2 = a1\<lparr>arg_seconds := atoi value\<rparr> in
                     if arg_seconds a2 \<le> 0 then (1, a2) else parse_loop rest' a2))
             else parse_loop rest a1)
      else if arg_keygrip a = None then
        (if length arg \<noteq> KEYGRIP_LENGTH then (1, a)
         else if \<not> list_all isxdigit (take KEYGRIP_LENGTH arg) then (1, a)
         else parse_loop rest (a\<lparr>arg_keygrip := Some arg\<rparr>))
      else if arg_comment a = None then parse_loop rest (a\<lparr>arg_comment := Some arg\<rparr>)
      else (1, a))"

definition parse_args :: "string list \<Rightarrow> args \<Rightarrow> int \<times> args" where
  "parse_args argv a = parse_loop (drop 1 argv) a"

section \<open>transact, sendenv and main (main.c, lines 399-424 and 694-847)\<close>

text \<open>What the program does to the outside, in order; messages on stderr other than the usage text are left out.\<close>

datatype event =
    Usage_stderr
  | Usage_stdout
  | Ssh_agent_connect
  | Assuan_new
  | Gpgconf_list_dirs
  | Assuan_socket_connect
  | Launch_gpg_agent
  | Transact string
  | Ssh_agent_write "char list"

datatype outcome = Exit int | Undefined_behaviour

text \<open>
  \<^verbatim>\<open>assuan_transact\<close> on a connected context sends the command and hands each data
  line of the answer to \<open>data_cb\<close>; a callback error ends the transaction with that
  error, otherwise the result is the agent's final OK or ERR. The inquiry and status
  callbacks only print. On a context whose engine is closed the command cannot be
  written, and libassuan 2.5.6 returns \<^verbatim>\<open>GPG_ERR_EBADF\<close>; on a context without an engine
  it calls through a NULL pointer and the process ends with a segmentation fault,
  which is \<open>None\<close>; on a NULL context it returns \<^verbatim>\<open>GPG_ERR_ASS_INV_VALUE\<close>.
  \<open>agent_reply w command\<close> is what the context reads in the transaction of this command:
  the decoded data lines, empty ones included, and the closing line.
\<close>

definition transact :: "world \<Rightarrow> exporter \<Rightarrow> string \<Rightarrow> (gpg_error_t \<times> exporter) option" where
  "transact w e command =
     (case ctx e of
        None \<Rightarrow> Some (gpg_err_make GPG_ERR_SOURCE_ASSUAN GPG_ERR_ASS_INV_VALUE, e)
      | Some (Assuan_context No_engine) \<Rightarrow> None
      | Some (Assuan_context Engine_closed) \<Rightarrow>
          Some (gpg_err_make GPG_ERR_SOURCE_USER_1 GPG_ERR_EBADF, e)
      | Some (Assuan_context Connected) \<Rightarrow>
          (case agent_reply w command of
             (chunks, final) \<Rightarrow>
               (case data_cbs w e chunks of
                  None \<Rightarrow> None
                | Some (ret, e') \<Rightarrow> if ret \<noteq> 0 then Some (ret, e') else Some (final, e'))))"

text \<open>
  \<open>sendenv\<close>: what it returns, \<open>None\<close> when the transaction does not return, and the
  transaction it has started.
\<close>

definition sendenv ::
  "world \<Rightarrow> exporter \<Rightarrow> string \<Rightarrow> string option \<Rightarrow> string option
     \<Rightarrow> (gpg_error_t \<times> exporter) option \<times> event list" where
  "sendenv w e env val option_name =
     (case (case val of None \<Rightarrow> getenv w env | Some v \<Rightarrow> Some v) of
        None \<Rightarrow> (Some (GPG_ERR_NO_ERROR, e), [])
      | Some v \<Rightarrow>
          (let str = (case option_name of
                        Some opt \<Rightarrow> ''OPTION '' @ opt @ ''='' @ v
                      | None \<Rightarrow> ''OPTION putenv='' @ env @ ''='' @ v)
           in if \<not> asprintf_ok w str then (Some (GPG_ERR_ENOMEM, e), [])
              else (transact w e str, [Transact str])))"

text \<open>The table \<open>vars\<close> of \<open>main\<close> and the loop over it; a failure is printed and otherwise ignored.\<close>

definition vars :: "world \<Rightarrow> (string \<times> string option \<times> string option) list" where
  "vars w =
     [(''GPG_TTY'', ttyname0 w, Some ''ttyname''),
      (''TERM'', None, Some ''ttytype''),
      (''DISPLAY'', None, Some ''display''),
      (''XAUTHORITY'', None, Some ''xauthority''),
      (''GTK_IM_MODULE'', None, None),
      (''DBUS_SESSION_BUS_ADDRESS'', None, None),
      (''LANG'', None, Some ''lc-ctype''),
      (''LANG'', None, Some ''lc-messages'')]"

fun sendenv_all ::
  "world \<Rightarrow> exporter \<Rightarrow> (string \<times> string option \<times> string option) list
     \<Rightarrow> exporter option \<times> event list" where
  "sendenv_all w e [] = (Some e, [])"
| "sendenv_all w e ((env, val, opt) # rest) =
     (case sendenv w e env val opt of
        (None, evs) \<Rightarrow> (None, evs)
      | (Some (err, e'), evs) \<Rightarrow>
          (case sendenv_all w e' rest of (r, evs') \<Rightarrow> (r, evs @ evs')))"

text \<open>
  \<open>get_ssh_auth_sock_fd\<close> (lines 589-618): \<^verbatim>\<open>sizeof (sockaddr.sun_path)\<close> is 108; the
  world answers \<^verbatim>\<open>socket\<close> and \<^verbatim>\<open>connect\<close> with a descriptor or -1.
\<close>

definition get_ssh_auth_sock_fd :: "world \<Rightarrow> int \<times> event list" where
  "get_ssh_auth_sock_fd w =
     (case getenv w ''SSH_AUTH_SOCK'' of
        None \<Rightarrow> (-1, [])
      | Some sock_name \<Rightarrow>
          if strlen sock_name + 1 > 108 then (-1, [])
          else (ssh_socket w sock_name, [Ssh_agent_connect]))"

text \<open>
  The call number \<open>k\<close> of \<^verbatim>\<open>assuan_socket_connect\<close> on the context of the exporter:
  \<open>socket_connect w k\<close> is the error it returns and \<open>connect_sets_engine w k\<close> tells
  whether a failing call got as far as installing the engine.
\<close>

definition assuan_socket_connect :: "world \<Rightarrow> nat \<Rightarrow> exporter \<Rightarrow> gpg_error_t \<times> exporter" where
  "assuan_socket_connect w k e =
     (if socket_connect w k = 0 then (0, e\<lparr>ctx := Some (Assuan_context Connected)\<rparr>)
      else if connect_sets_engine w k
      then (socket_connect w k, e\<lparr>ctx := Some (Assuan_context Engine_closed)\<rparr>)
      else (socket_connect w k, e))"

text \<open>
  Lines 762 to 784 of \<open>main\<close>, the connection to gpg-agent: \<open>Some 1\<close> is \<^verbatim>\<open>return 1\<close>,
  \<open>None\<close> is control reaching line 786.
\<close>

definition connect_agent :: "world \<Rightarrow> exporter \<Rightarrow> int option \<times> exporter \<times> event list" where
  "connect_agent w e =
     (case assuan_socket_connect w 0 e of
        (err, e1) \<Rightarrow>
          if err \<noteq> 0 then
            (if gpg_err_code err \<noteq> GPG_ERR_ASS_CONNECT_FAILED
             then (None, e1, [Assuan_socket_connect])
             else if launch_status w \<noteq> 0
             then (Some 1, e1, [Assuan_socket_connect, Launch_gpg_agent])
             else
               (case assuan_socket_connect w 1 e1 of
                  (err2, e2) \<Rightarrow>
                    if err2 \<noteq> 0
                    then (Some 1, e2, [Assuan_socket_connect, Launch_gpg_agent, Assuan_socket_connect])
                    else (None, e2, [Assuan_socket_connect, Launch_gpg_agent, Assuan_socket_connect])))
          else (None, e1, [Assuan_socket_connect]))"

text \<open>
  Lines 786 to 846 of \<open>main\<close>: the context options, the three transactions, the
  unwrapping and the transfer to ssh-agent. A transaction that does not return ends
  the run as undefined behaviour, after the event of its start.
\<close>

definition session ::
  "world \<Rightarrow> exporter \<Rightarrow> args \<Rightarrow> string \<Rightarrow> string \<Rightarrow> outcome \<times> event list" where
  "session w e a desc_prompt get_key =
     (case sendenv_all w e (vars w) of
        (None, evs1) \<Rightarrow> (Undefined_behaviour, evs1)
      | (Some e1, evs1) \<Rightarrow>
     (case transact w e1 ''keywrap_key --export'' of
        None \<Rightarrow> (Undefined_behaviour, evs1 @ [Transact ''keywrap_key --export''])
      | Some (err2, e2) \<Rightarrow>
          if err2 \<noteq> 0 then (Exit 1, evs1 @ [Transact ''keywrap_key --export''])
          else
     (case transact w e2 desc_prompt of
        None \<Rightarrow> (Undefined_behaviour, evs1 @ [Transact ''keywrap_key --export'', Transact desc_prompt])
      | Some (err3, e3) \<Rightarrow>
          if err3 \<noteq> 0
          then (Exit 1, evs1 @ [Transact ''keywrap_key --export'', Transact desc_prompt])
          else
     (case transact w e3 get_key of
        None \<Rightarrow> (Undefined_behaviour, evs1 @ [Transact ''keywrap_key --export'', Transact desc_prompt,
                                           Transact get_key])
      | Some (err4, e4) \<Rightarrow>
          (let evs4 = evs1 @ [Transact ''keywrap_key --export'', Transact desc_prompt,
                              Transact get_key]
           in if err4 \<noteq> 0 then (Exit 1, evs4)
              else
     (case unwrap_key w e4 of
        None \<Rightarrow> (Undefined_behaviour, evs4)
      | Some (err5, e5, calls) \<Rightarrow>
          if err5 \<noteq> 0 then (Exit 1, evs4)
          else
            (let alt_comment = (case arg_comment a of
                                  None \<Rightarrow> Some (''GnuPG keygrip '' @
                                     (case arg_keygrip a of None \<Rightarrow> ''(null)'' | Some k \<Rightarrow> k))
                                | Some c \<Rightarrow> None)
             in if arg_comment a = None \<and> \<not> asprintf_ok w (the alt_comment) then (Exit 1, evs4)
                else
     (case send_to_ssh_agent w e5 (nat (arg_seconds a)) (arg_confirm a)
             (case arg_comment a of Some c \<Rightarrow> Some c | None \<Rightarrow> alt_comment) of
        None \<Rightarrow> (Undefined_behaviour, evs4)
      | Some (err6, msgs) \<Rightarrow>
          if err6 \<noteq> 0 then (Exit 1, evs4 @ map Ssh_agent_write msgs)
          else (Exit 0, evs4 @ map Ssh_agent_write msgs)))))))))"

text \<open>
  Lines 728 to 739 of \<open>main\<close>: the description prompt, with the escaped comment when
  there is a comment and its escaping did not return NULL. \<open>None\<close> is undefined
  behaviour.
\<close>

definition desc_prompt_text :: "world \<Rightarrow> string option \<Rightarrow> string \<Rightarrow> string option" where
  "desc_prompt_text w comment keygrip_text =
     (case (case comment of
              None \<Rightarrow> Returned_NULL
            | Some c \<Rightarrow> percent_plus_escape (libc_malloc w) c) of
        Out_of_bounds \<Rightarrow> None
      | Returned escaped_comment \<Rightarrow>
          Some (''SETKEYDESC Sending+key+for+'' @ [CHR 0x27] @ cstr escaped_comment @ [CHR 0x27]
                @ ''+from+gpg-agent+to+ssh-agent...%0a(keygrip:+'' @ keygrip_text @ '')'')
      | Returned_NULL \<Rightarrow>
          Some (''SETKEYDESC Sending+key+from+gpg-agent+to+ssh-agent...%0a(keygrip:+''
                @ keygrip_text @ '')''))"

text \<open>Lines 746 to 846 of \<open>main\<close>: everything that talks to the two agents.\<close>

definition agents :: "world \<Rightarrow> args \<Rightarrow> string \<Rightarrow> string \<Rightarrow> outcome \<times> event list" where
  "agents w a desc_prompt get_key =
     (case get_ssh_auth_sock_fd w of
        (ssh_sock_fd, evs0) \<Rightarrow>
          if ssh_sock_fd = -1 then (Exit 1, evs0)
          else if assuan_new w \<noteq> 0 then (Exit 1, evs0 @ [Assuan_new])
          else if agent_sockname w = None then (Exit 1, evs0 @ [Assuan_new, Gpgconf_list_dirs])
          else
            (case connect_agent w (exporter0\<lparr>ctx := Some (Assuan_context No_engine)\<rparr>) of
               (Some status, e1, evs1) \<Rightarrow>
                 (Exit status, evs0 @ [Assuan_new, Gpgconf_list_dirs] @ evs1)
             | (None, e1, evs1) \<Rightarrow>
                 (case session w e1 a desc_prompt get_key of
                    (result, evs2) \<Rightarrow>
                      (result, evs0 @ [Assuan_new, Gpgconf_list_dirs] @ evs1 @ evs2))))"

text \<open>
  \<open>main\<close>. glibc prints a NULL string argument of \<^verbatim>\<open>%s\<close> as \<open>(null)\<close>; the C standard
  leaves it undefined.
\<close>

definition main :: "world \<Rightarrow> string list \<Rightarrow> outcome \<times> event list" where
  "main w argv =
     (if \<not> gcry_version_ok w then (Exit 1, [])
      else
        (case parse_args argv args0 of
           (r, a) \<Rightarrow>
             if r \<noteq> 0 then (Exit 1, [Usage_stderr])
             else if arg_help a \<noteq> 0 then (Exit 0, [Usage_stdout])
             else
               (let keygrip_text = (case arg_keygrip a of None \<Rightarrow> ''(null)'' | Some k \<Rightarrow> k);
                    get_key = ''EXPORT_KEY '' @ keygrip_text
                in if \<not> asprintf_ok w get_key then (Exit 1, [])
                   else
                     (case desc_prompt_text w (arg_comment a) keygrip_text of
                        None \<Rightarrow> (Undefined_behaviour, [])
                      | Some desc_prompt \<Rightarrow>
                          if \<not> asprintf_ok w desc_prompt then (Exit 1, [])
                          else agents w a desc_prompt get_key))))"

section \<open>Names for the stages of unwrap_key\<close>

text \<open>
  These definitions name what \<open>unwrap_key\<close> computes on its way, so that statements
  about it can be read: whether the exporter passes the state check, the answers of the
  library to the calls \<open>unwrap_key\<close> makes, and the exporter handed to
  \<open>unwrap_rsa_key\<close> or \<open>unwrap_ed25519_key\<close>.
\<close>

definition exporter_ready :: "exporter \<Rightarrow> bool" where
  "exporter_ready e \<longleftrightarrow>
     ctx e \<noteq> None \<and> wrap_cipher e \<noteq> None \<and> wrapped_key e \<noteq> None \<and> \<not> wrapped_len e < 1"

definition decrypted :: "world \<Rightarrow> exporter \<Rightarrow> gpg_error_t \<times> char list" where
  "decrypted w e =
     cipher_decrypt w (the (wrap_cipher e)) (unat (wrapped_len e - 8))
       (the (wrapped_key e)) (unat (wrapped_len e))"

definition parsed :: "world \<Rightarrow> exporter \<Rightarrow> gpg_error_t \<times> gcry_sexp" where
  "parsed w e = sexp_new w (snd (decrypted w e)) (unat (wrapped_len e - 8))"

definition parsed_exporter :: "world \<Rightarrow> exporter \<Rightarrow> exporter" where
  "parsed_exporter w e =
     e\<lparr>unwrapped_len := wrapped_len e - 8, unwrapped_key := Some (snd (decrypted w e)),
       sexp := Some (snd (parsed w e))\<rparr>"

definition rsa_extraction ::
  "world \<Rightarrow> exporter \<Rightarrow> (gpg_error_t \<times> (nat \<times> nat \<times> nat \<times> nat \<times> nat)) option" where
  "rsa_extraction w e = extract_rsa w (snd (parsed w e))"

definition ecc_extraction ::
  "world \<Rightarrow> exporter \<Rightarrow> (gpg_error_t \<times> (char list \<times> char list \<times> char list \<times> char list)) option" where
  "ecc_extraction w e = extract_ecc w (snd (parsed w e))"

definition rsa_loaded :: "world \<Rightarrow> exporter \<Rightarrow> exporter" where
  "rsa_loaded w e =
     (case rsa_extraction w e of
        None \<Rightarrow> parsed_exporter w e
      | Some (ret, (vn, ve, vd, vp, vq)) \<Rightarrow>
          (parsed_exporter w e)\<lparr>key_n := Some (Mpi_num vn), key_e := Some (Mpi_num ve),
             key_d := Some (Mpi_num vd), key_p := Some (Mpi_num vp), key_q := Some (Mpi_num vq)\<rparr>)"

definition ecc_loaded :: "world \<Rightarrow> exporter \<Rightarrow> exporter" where
  "ecc_loaded w e =
     (case ecc_extraction w e of
        None \<Rightarrow> parsed_exporter w e
      | Some (ret, (vcurve, vflags, vq, vd)) \<Rightarrow>
          (parsed_exporter w e)\<lparr>curve := Some (Mpi_opaque (Some vcurve)),
             flags := Some (Mpi_opaque (Some vflags)),
             key_q := Some (Mpi_opaque (Some vq)), key_d := Some (Mpi_opaque (Some vd))\<rparr>)"

text \<open>
  The contract of AES-WRAP decryption that the comment in \<open>unwrap_key\<close> quotes from the
  libgcrypt manual: "the input length must be at least 128 bits and the length must be
  a multiple of 64 bits". A world honours it when decryption of any other input fails.
\<close>

definition aeswrap_contract :: "world \<Rightarrow> bool" where
  "aeswrap_contract w \<longleftrightarrow>
     (\<forall>h outsize inbuf inlen. inlen < 16 \<or> inlen mod 8 \<noteq> 0 \<longrightarrow>
        fst (cipher_decrypt w h outsize inbuf inlen) \<noteq> 0)"

section \<open>The inputs of send_to_ssh_agent\<close>

text \<open>
  \<open>main\<close> is the only caller of \<open>send_to_ssh_agent\<close>. The comment it passes is an
  argument of the program or the text \<open>GnuPG keygrip\<close> with the keygrip, and no system
  hands an argument of 2 GiB to a program: Linux refuses one of more than 131071 bytes
  (2097151 with pages of 64 KiB). The numbers of the key come out of
  \<^verbatim>\<open>gcry_sexp_extract_param\<close>, which returns no value of more than 65535 bytes, and
  \<open>iqmp\<close> is smaller than \<open>p\<close>. \<open>mpi_nbytes\<close> is the number of bytes of a value.
\<close>

definition mpi_nbytes :: "gcry_mpi option \<Rightarrow> nat" where
  "mpi_nbytes a =
     (case a of
        Some (Mpi_num v) \<Rightarrow> length (be_bytes v)
      | Some (Mpi_opaque (Some bytes)) \<Rightarrow> length bytes
      | _ \<Rightarrow> 0)"

definition caller_bounds :: "exporter \<Rightarrow> char list option \<Rightarrow> bool" where
  "caller_bounds e comment \<longleftrightarrow>
     (case comment of None \<Rightarrow> True | Some s \<Rightarrow> strlen s < 2 ^ 31)
     \<and> list_all (\<lambda>a. mpi_nbytes a \<le> 65535) [key_n e, key_e e, key_d e, iqmp e, key_p e, key_q e]"

text \<open>
  What makes the bounds hold in \<open>main\<close>: the exporter starts without a key, and the
  numbers that the library extracts have at most 65535 bytes.
\<close>

definition no_key :: "exporter \<Rightarrow> bool" where
  "no_key e \<longleftrightarrow>
     key_n e = None \<and> key_e e = None \<and> key_d e = None \<and> key_p e = None \<and> key_q e = None
     \<and> iqmp e = None"

definition extraction_bounded :: "world \<Rightarrow> bool" where
  "extraction_bounded w \<longleftrightarrow>
     (\<forall>sx ret vn ve vd vp vq.
        extract_rsa w sx = Some (ret, (vn, ve, vd, vp, vq)) \<longrightarrow>
        list_all (\<lambda>v. length (be_bytes v) \<le> 65535) [vn, ve, vd, vp, vq])"

text \<open>
  The key as \<open>unwrap_key\<close> leaves it on success: six numbers and the type RSA, or an
  opaque \<open>q\<close> of 33 bytes, an opaque \<open>d\<close> of 32 bytes and the type Ed25519.
\<close>

definition is_num :: "gcry_mpi option \<Rightarrow> bool" where
  "is_num a = (case a of Some (Mpi_num v) \<Rightarrow> True | _ \<Rightarrow> False)"

definition is_opaque :: "gcry_mpi option \<Rightarrow> nat \<Rightarrow> bool" where
  "is_opaque a n = (case a of Some (Mpi_opaque (Some bytes)) \<Rightarrow> length bytes = n | _ \<Rightarrow> False)"

definition key_complete :: "exporter \<Rightarrow> bool" where
  "key_complete e \<longleftrightarrow>
     ktype e = kt_rsa \<and> list_all is_num [key_n e, key_e e, key_d e, iqmp e, key_p e, key_q e]
     \<or> ktype e = kt_ed25519 \<and> is_opaque (key_q e) 33 \<and> is_opaque (key_d e) 32"

section \<open>Sample inputs\<close>

text \<open>
  Concrete exporters and concrete worlds, on which the theorems below are
  instantiated. In \<open>sample_world\<close> every call into a library succeeds, both agents
  are running, and gpg-agent knows the key \<open>sample_keygrip\<close> and no other; its cipher
  is a stand-in that accepts the inputs of at least 16 bytes that start with
  \<open>wrapped-\<close> and strips these eight bytes.
\<close>

definition rsa_exporter :: "nat \<Rightarrow> nat \<Rightarrow> exporter" where
  "rsa_exporter vp vq = exporter0\<lparr>key_p := Some (Mpi_num vp), key_q := Some (Mpi_num vq)\<rparr>"

definition ed25519_exporter :: "char list \<Rightarrow> char list \<Rightarrow> char list \<Rightarrow> char list \<Rightarrow> exporter" where
  "ed25519_exporter vcurve vflags vq vd =
     exporter0\<lparr>curve := Some (Mpi_opaque (Some vcurve)), flags := Some (Mpi_opaque (Some vflags)),
               key_q := Some (Mpi_opaque (Some vq)), key_d := Some (Mpi_opaque (Some vd))\<rparr>"

definition sample_keygrip :: string where
  "sample_keygrip = ''0123456789ABCDEF0123456789abcdef01234567''"

definition sample_world :: world where
  "sample_world = \<lparr>
     libc_malloc = (\<lambda>n. Some (replicate n CHR ''?'')),
     realloc_ok = (\<lambda>n. True),
     asprintf_ok = (\<lambda>s. True),
     getenv = (\<lambda>v. if v = ''SSH_AUTH_SOCK'' then Some ''/tmp/ssh.sock''
                    else if v = ''TERM'' then Some ''xterm'' else None),
     ttyname0 = None,
     launch_status = 0,
     gcry_version_ok = True,
     cipher_open = 0,
     cipher_setkey = (\<lambda>k. 0),
     cipher_decrypt = (\<lambda>h outsize inbuf inlen.
        if 16 \<le> inlen \<and> inlen mod 8 = 0 \<and> take 8 inbuf = ''wrapped-''
        then (0, drop 8 inbuf) else (GPG_ERR_CHECKSUM, [])),
     sexp_new = (\<lambda>buf len. (0, Atom buf)),
     extract_rsa = (\<lambda>sx. Some (0, (33, 3, 7, 11, 3))),
     extract_ecc = (\<lambda>sx. Some (GPG_ERR_NOT_FOUND, ([], [], [], []))),
     assuan_new = 0,
     agent_sockname = Some ''/run/user/1000/gnupg/S.gpg-agent'',
     socket_connect = (\<lambda>k. 0),
     connect_sets_engine = (\<lambda>k. True),
     agent_reply = (\<lambda>cmd. if cmd = ''keywrap_key --export'' then ([''0123456789abcdef''], 0)
                          else if cmd = ''EXPORT_KEY '' @ sample_keygrip
                          then ([''wrapped-'', ''key-data''], 0)
                          else if take 10 cmd = ''EXPORT_KEY'' then ([], GPG_ERR_NOT_FOUND)
                          else ([], 0)),
     ssh_socket = (\<lambda>path. 3),
     ssh_write = (\<lambda>msg. int (length msg)),
     ssh_read_len = (4, 1),
     ssh_read_resp = (1, 6) \<rparr>"

text \<open>
  A world in which the first connection to gpg-agent fails for a reason other than
  "connect failed": the socket is there, and what listens on it answers with a line
  that is not an assuan greeting. \<^verbatim>\<open>assuan_socket_connect\<close> of libassuan 2.5.6 then
  returns \<^verbatim>\<open>GPG_ERR_ASS_INV_RESPONSE\<close> and leaves the engine closed.
\<close>

definition refused_world :: world where
  "refused_world =
     sample_world\<lparr>socket_connect := (\<lambda>k. gpg_err_make GPG_ERR_SOURCE_USER_1 GPG_ERR_ASS_INV_RESPONSE),
                  connect_sets_engine := (\<lambda>k. True)\<rparr>"

text \<open>
  A world in which the socket of gpg-agent lies in a directory with a long name, so
  that the name of the socket has more than the 107 bytes of a socket address:
  \<^verbatim>\<open>assuan_socket_connect\<close> of libassuan 2.5.6 returns \<^verbatim>\<open>GPG_ERR_ENAMETOOLONG\<close> before it
  installs the engine.
\<close>

definition long_name_world :: world where
  "long_name_world =
     sample_world\<lparr>agent_sockname := Some (''/home/user/'' @ replicate 120 CHR ''x'' @ ''/S.gpg-agent''),
                  socket_connect := (\<lambda>k. gpg_err_make GPG_ERR_SOURCE_USER_1 GPG_ERR_ENAMETOOLONG),
                  connect_sets_engine := (\<lambda>k. False)\<rparr>"

text \<open>A world in which gpg-agent is not running and is launched.\<close>

definition launching_world :: world where
  "launching_world =
     sample_world\<lparr>socket_connect := (\<lambda>k. if k = 0 then gpg_err_make GPG_ERR_SOURCE_USER_1 GPG_ERR_ASS_CONNECT_FAILED
                                         else 0),
                  connect_sets_engine := (\<lambda>k. False)\<rparr>"

definition ready_exporter :: "char list \<Rightarrow> exporter" where
  "ready_exporter wk = exporter0\<lparr>ctx := Some (Assuan_context Connected),
     wrap_cipher := Some (Cipher_hd (Some ''0123456789abcdef'')),
     wrapped_key := Some wk, wrapped_len := of_nat (length wk)\<rparr>"

text \<open>
  A world in which gpg-agent exports an RSA key expression with \<^verbatim>\<open>(p #00#)\<close>:
  \<^verbatim>\<open>gcry_sexp_extract_param\<close> of libgcrypt 1.10.3 returns success with \<open>p = 0\<close>.
\<close>

definition zero_p_world :: world where
  "zero_p_world = sample_world\<lparr>extract_rsa := (\<lambda>sx. Some (0, (33, 3, 7, 0, 3)))\<rparr>"

text \<open>A world in which the key expression holds neither an RSA nor an ECC private key.\<close>

definition no_schema_world :: world where
  "no_schema_world =
     sample_world\<lparr>extract_rsa := (\<lambda>sx. Some (GPG_ERR_NOT_FOUND, (0, 0, 0, 0, 0)))\<rparr>"

text \<open>Exporters as \<open>unwrap_key\<close> leaves them on success.\<close>

definition sample_ed25519_key :: exporter where
  "sample_ed25519_key =
     (ed25519_exporter ''Ed25519'' ''eddsa'' (CHR 0x40 # replicate 32 CHR ''q'') (replicate 32 CHR ''d''))
       \<lparr>ktype := kt_ed25519\<rparr>"

definition sample_rsa_key :: exporter where
  "sample_rsa_key =
     exporter0\<lparr>ktype := kt_rsa, key_n := Some (Mpi_num 33), key_e := Some (Mpi_num 3),
       key_d := Some (Mpi_num 7), key_p := Some (Mpi_num 11), key_q := Some (Mpi_num 3),
       iqmp := Some (Mpi_num 4)\<rparr>"

chapter \<open>Properties\<close>

section \<open>Properties of percent_plus_escape\<close>

lemma ppe_count_acc: "ppe_count s n = n + ppe_count s 0"
proof (induction s arbitrary: n)
  case Nil
  show ?case by simp
next
  case (Cons c s)
  show ?case
    using Cons.IH[of "n + 3"] Cons.IH[of "n + 1"] Cons.IH[of 3] Cons.IH[of 1]
    by simp
qed

lemma length_percent_02X [simp]: "length (percent_02X c) = 3"
  by (simp add: percent_02X_def)

lemma store_Some: "p + length cs \<le> length buf \<Longrightarrow> store buf p cs = Some (take p buf @ cs @ drop (p + length cs) buf)"
  by (simp add: store_def)

lemma space_not_needs: "\<not> needs_percent (CHR '' '')"
  by (simp add: needs_percent_def)

lemma escape_char_cases:
  "escape_char c = (if needs_percent c then percent_02X c else if c = CHR '' '' then [CHR ''+''] else [c])"
  by (auto simp: escape_char_def needs_percent_def)

lemma ppe_count_escape: "ppe_count s 0 = length (escape_spec (cstr s))"
proof (induction s)
  case Nil
  show ?case by (simp add: escape_spec_def cstr_def)
next
  case (Cons c s)
  show ?case
    using Cons.IH ppe_count_acc[of s 3] ppe_count_acc[of s 1]
    by (simp add: escape_spec_def cstr_def escape_char_cases)
qed

lemma ppe_fill_ok:
  "p + ppe_count s 0 + 1 \<le> length buf \<Longrightarrow>
   \<exists>buf'. ppe_fill s buf p = Some (buf', p + ppe_count s 0) \<and> length buf' = length buf \<and>
          take (p + ppe_count s 0) buf' = take p buf @ escape_spec (cstr s)"
proof (induction s arbitrary: buf p)
  case Nil
  then show ?case by (simp add: escape_spec_def cstr_def)
next
  case (Cons c s)
  show ?case
  proof (cases "c = NUL")
    case True
    then show ?thesis by (simp add: escape_spec_def cstr_def)
  next
    case nz: False
    show ?thesis
    proof (cases "needs_percent c")
      case True
      have cnt: "ppe_count (c # s) 0 = 3 + ppe_count s 0"
        using nz True ppe_count_acc[of s 3] by simp
      let ?b = "take p buf @ (percent_02X c @ [NUL]) @ drop (p + 4) buf"
      have st: "store buf p (percent_02X c @ [NUL]) = Some ?b"
        using Cons.prems cnt by (simp add: store_def)
      have len: "length ?b = length buf" using Cons.prems cnt by simp
      have "(p + 3) + ppe_count s 0 + 1 \<le> length ?b" using Cons.prems cnt len by simp
      from Cons.IH[OF this] obtain buf' where
        f: "ppe_fill s ?b (p + 3) = Some (buf', p + 3 + ppe_count s 0)" and
        l: "length buf' = length ?b" and
        t: "take (p + 3 + ppe_count s 0) buf' = take (p + 3) ?b @ escape_spec (cstr s)"
        by blast
      have tk: "take (p + 3) ?b = take p buf @ percent_02X c"
        using Cons.prems cnt by (simp add: min_def)
      show ?thesis using nz True st f l len t tk cnt
        by (simp add: escape_spec_def cstr_def escape_char_cases add.commute add.left_commute)
    next
      case False
      have cnt: "ppe_count (c # s) 0 = 1 + ppe_count s 0"
        using nz False ppe_count_acc[of s 1] by simp
      define x where "x = (if c = CHR '' '' then CHR ''+'' else c)"
      let ?b = "take p buf @ [x] @ drop (p + 1) buf"
      have st: "store buf p [x] = Some ?b"
        using Cons.prems cnt by (simp add: store_def)
      have len: "length ?b = length buf" using Cons.prems cnt by simp
      have "(p + 1) + ppe_count s 0 + 1 \<le> length ?b" using Cons.prems cnt len by simp
      from Cons.IH[OF this] obtain buf' where
        f: "ppe_fill s ?b (p + 1) = Some (buf', p + 1 + ppe_count s 0)" and
        l: "length buf' = length ?b" and
        t: "take (p + 1 + ppe_count s 0) buf' = take (p + 1) ?b @ escape_spec (cstr s)"
        by blast
      have tk: "take (p + 1) ?b = take p buf @ [x]"
        using Cons.prems cnt by (simp add: min_def)
      have ec: "escape_char c = [x]" using False by (simp add: escape_char_cases x_def)
      have fl: "ppe_fill (c # s) buf p = ppe_fill s ?b (p + 1)"
        using nz False st by (auto simp: x_def)
      show ?thesis using nz fl f l len t tk cnt ec
        by (simp add: escape_spec_def cstr_def add.commute add.left_commute)
    qed
  qed
qed

lemma hexdigit_cases:
  "n < 16 \<Longrightarrow> unhex (hexdigit n) = n \<and> hexdigit n \<notin> {CHR ''%'', CHR ''+'', CHR '' '', CHR 0x22, NUL}"
proof -
  have "\<forall>n \<in> set [0..<16]. unhex (hexdigit n) = n \<and> hexdigit n \<notin> {CHR ''%'', CHR ''+'', CHR '' '', CHR 0x22, NUL}"
    by (simp add: upt_rec hexdigit_def unhex_def NUL_def)
  moreover assume "n < 16"
  ultimately show ?thesis by simp
qed

lemma unescape_escape_char: "unescape (escape_char c @ r) = c # unescape r"
proof -
  have d: "(of_char c :: nat) div 16 < 16"
    using nat_of_char_less_256[of c] by (simp add: less_mult_imp_div_less)
  have m: "(of_char c :: nat) mod 16 < 16" by simp
  have "char_of (16 * ((of_char c :: nat) div 16) + of_char c mod 16) = c"
    by simp
  then show ?thesis
    using hexdigit_cases[OF d] hexdigit_cases[OF m]
    by (auto simp: escape_char_def percent_02X_def)
qed

lemma unescape_escape_spec: "unescape (escape_spec s) = s"
proof (induction s)
  case Nil
  show ?case by (simp add: escape_spec_def)
next
  case (Cons c s)
  then show ?case
    using unescape_escape_char[of c "escape_spec s"] by (simp add: escape_spec_def)
qed

lemma escape_spec_inj: "escape_spec s = escape_spec t \<Longrightarrow> s = t"
  by (metis unescape_escape_spec)

lemma percent_02X_clean:
  "CHR 0x22 \<notin> set (percent_02X c) \<and> CHR '' '' \<notin> set (percent_02X c) \<and> NUL \<notin> set (percent_02X c)"
proof -
  have d: "(of_char c :: nat) div 16 < 16"
    using nat_of_char_less_256[of c] by (simp add: less_mult_imp_div_less)
  have m: "(of_char c :: nat) mod 16 < 16" by simp
  define h where "h = hexdigit ((of_char c :: nat) div 16)"
  define l where "l = hexdigit ((of_char c :: nat) mod 16)"
  have "h \<notin> {CHR ''%'', CHR ''+'', CHR '' '', CHR 0x22, NUL}"
       "l \<notin> {CHR ''%'', CHR ''+'', CHR '' '', CHR 0x22, NUL}"
    using hexdigit_cases[OF d] hexdigit_cases[OF m] by (simp_all add: h_def l_def)
  then show ?thesis
    unfolding percent_02X_def h_def[symmetric] l_def[symmetric]
    by (auto simp: NUL_def)
qed

lemma escape_char_clean:
  "CHR 0x22 \<notin> set (escape_char c) \<and> CHR '' '' \<notin> set (escape_char c) \<and> NUL \<notin> set (escape_char c)"
proof (cases "needs_percent c")
  case True
  then show ?thesis using percent_02X_clean[of c] by (simp add: escape_char_cases)
next
  case False
  then show ?thesis
    by (auto simp: escape_char_cases needs_percent_def NUL_def)
qed

lemma escape_spec_clean:
  "CHR 0x22 \<notin> set (escape_spec s) \<and> CHR '' '' \<notin> set (escape_spec s) \<and> NUL \<notin> set (escape_spec s)"
  using escape_char_clean by (auto simp: escape_spec_def)

lemma cstr_no_NUL: "NUL \<notin> set (cstr m)"
  unfolding cstr_def by (metis (mono_tags, lifting) set_takeWhileD)

lemma cstr_append_NUL: "NUL \<notin> set s \<Longrightarrow> cstr (s @ NUL # r) = s"
  unfolding cstr_def by (induction s) auto

lemma percent_plus_escape_returns:
  assumes "malloc_contract malloc" "malloc (ppe_count s 1) = Some buffer"
  shows "\<exists>buf p. ppe_fill s buffer 0 = Some (buf, p) \<and> ppe_count s 1 = p + 1
           \<and> length buf = ppe_count s 1
           \<and> percent_plus_escape malloc s = Returned (escape_spec (cstr s) @ [NUL])"
proof -
  have len: "length buffer = ppe_count s 1"
    using assms by (simp add: malloc_contract_def)
  have c1: "ppe_count s 1 = ppe_count s 0 + 1"
    using ppe_count_acc[of s 1] by simp
  have "0 + ppe_count s 0 + 1 \<le> length buffer" using len c1 by simp
  from ppe_fill_ok[OF this] obtain buf where
    f: "ppe_fill s buffer 0 = Some (buf, ppe_count s 0)" and
    l: "length buf = length buffer" and
    t: "take (ppe_count s 0) buf = escape_spec (cstr s)"
    by auto
  have st: "store buf (ppe_count s 0) [NUL] = Some (escape_spec (cstr s) @ [NUL])"
    using l len c1 t by (simp add: store_def)
  show ?thesis
    using f l len c1 st assms(2) by (simp add: percent_plus_escape_def)
qed

text \<open>
  Claim C9. \<open>percent_plus_escape\<close> is total and injective on C strings: unless the
  allocation fails (it then returns NULL), it returns a buffer whose string is the
  input with each space turned into a plus sign, each plus sign, double quote, percent
  sign and byte below 0x20 turned into its \<open>%XX\<close> escape, and every other byte
  unchanged. The output holds no double quote and no space, and two inputs with the
  same output are the same string.
\<close>

theorem percent_plus_escape_spec:
  assumes "malloc_contract malloc" and "malloc_contract malloc'"
  shows "(malloc (ppe_count s 1) = None \<longrightarrow> percent_plus_escape malloc s = Returned_NULL)
    \<and> (malloc (ppe_count s 1) \<noteq> None \<longrightarrow>
          (\<exists>buf. percent_plus_escape malloc s = Returned buf \<and> cstr buf = escape_spec (cstr s)
             \<and> CHR 0x22 \<notin> set (cstr buf) \<and> CHR '' '' \<notin> set (cstr buf)))
    \<and> (\<forall>b b'. percent_plus_escape malloc s = Returned b \<and>
          percent_plus_escape malloc' t = Returned b' \<and> cstr b = cstr b' \<longrightarrow> cstr s = cstr t)"
proof -
  have ret: "\<exists>buffer. m (ppe_count u 1) = Some buffer \<and>
               percent_plus_escape m u = Returned (escape_spec (cstr u) @ [NUL])"
    if "malloc_contract m" "percent_plus_escape m u = Returned b" for m u b
  proof (cases "m (ppe_count u 1)")
    case None
    with that show ?thesis by (simp add: percent_plus_escape_def)
  next
    case (Some buffer)
    with percent_plus_escape_returns[OF that(1) Some] show ?thesis by blast
  qed
  have cs: "cstr (escape_spec (cstr u) @ [NUL]) = escape_spec (cstr u)" for u
    using cstr_append_NUL[of "escape_spec (cstr u)" "[]"] escape_spec_clean[of "cstr u"] by simp
  have 1: "malloc (ppe_count s 1) = None \<longrightarrow> percent_plus_escape malloc s = Returned_NULL"
    by (simp add: percent_plus_escape_def)
  have 2: "malloc (ppe_count s 1) \<noteq> None \<longrightarrow>
           (\<exists>buf. percent_plus_escape malloc s = Returned buf \<and> cstr buf = escape_spec (cstr s)
              \<and> CHR 0x22 \<notin> set (cstr buf) \<and> CHR '' '' \<notin> set (cstr buf))"
  proof
    assume "malloc (ppe_count s 1) \<noteq> None"
    then obtain buffer where "malloc (ppe_count s 1) = Some buffer" by blast
    from percent_plus_escape_returns[OF assms(1) this]
    have "percent_plus_escape malloc s = Returned (escape_spec (cstr s) @ [NUL])" by blast
    then show "\<exists>buf. percent_plus_escape malloc s = Returned buf \<and> cstr buf = escape_spec (cstr s)
              \<and> CHR 0x22 \<notin> set (cstr buf) \<and> CHR '' '' \<notin> set (cstr buf)"
      using cs[of s] escape_spec_clean[of "cstr s"] by simp
  qed
  have 3: "\<forall>b b'. percent_plus_escape malloc s = Returned b \<and>
            percent_plus_escape malloc' t = Returned b' \<and> cstr b = cstr b' \<longrightarrow> cstr s = cstr t"
  proof (intro allI impI)
    fix b b'
    assume h: "percent_plus_escape malloc s = Returned b \<and>
            percent_plus_escape malloc' t = Returned b' \<and> cstr b = cstr b'"
    from ret[OF assms(1), of s b] h have b1: "b = escape_spec (cstr s) @ [NUL]" by auto
    from ret[OF assms(2), of t b'] h have b2: "b' = escape_spec (cstr t) @ [NUL]" by auto
    from h b1 b2 cs[of s] cs[of t] have "escape_spec (cstr s) = escape_spec (cstr t)" by simp
    then show "cstr s = cstr t" by (rule escape_spec_inj)
  qed
  from 1 2 3 show ?thesis by blast
qed

theorem percent_plus_escape_spec_witness:
  "malloc_contract (\<lambda>n. Some (replicate n CHR ''?''))
   \<and> (\<exists>buf. percent_plus_escape (\<lambda>n. Some (replicate n CHR ''?'')) ''O'Brien's \"key\"'' = Returned buf
         \<and> cstr buf = ''O'Brien's+%22key%22''
         \<and> CHR 0x22 \<notin> set (cstr buf) \<and> CHR '' '' \<notin> set (cstr buf))"
proof -
  have c: "malloc_contract (\<lambda>n. Some (replicate n CHR ''?''))"
    by (simp add: malloc_contract_def)
  have e: "escape_spec (cstr ''O'Brien's \"key\"'') = ''O'Brien's+%22key%22''"
    by (simp add: escape_spec_def cstr_def NUL_def escape_char_def percent_02X_def hexdigit_def)
  show ?thesis
    using c e percent_plus_escape_spec[OF c c, of "''O'Brien's \"key\"''"]
    by simp
qed

text \<open>
  Claim C10. The length the first loop computes is the number of bytes the second loop
  writes plus one for the terminating NUL, so every write of the second loop, the
  four bytes of each \<^verbatim>\<open>snprintf\<close> and the final NUL included, lands inside the
  allocated buffer.
\<close>

theorem percent_plus_escape_in_bounds:
  assumes "malloc_contract malloc"
  shows "percent_plus_escape malloc s \<noteq> Out_of_bounds
    \<and> (\<forall>buffer. malloc (ppe_count s 1) = Some buffer \<longrightarrow>
          (\<exists>buf p. ppe_fill s buffer 0 = Some (buf, p) \<and> ppe_count s 1 = p + 1
              \<and> length buf = ppe_count s 1 \<and> store buf p [NUL] \<noteq> None))"
proof (cases "malloc (ppe_count s 1)")
  case None
  then show ?thesis by (simp add: percent_plus_escape_def)
next
  case (Some buffer)
  from percent_plus_escape_returns[OF assms Some] obtain buf p where
    f: "ppe_fill s buffer 0 = Some (buf, p)" and c: "ppe_count s 1 = p + 1" and
    l: "length buf = ppe_count s 1" and
    r: "percent_plus_escape malloc s = Returned (escape_spec (cstr s) @ [NUL])"
    by blast
  have "store buf p [NUL] \<noteq> None" using c l by (simp add: store_def)
  with Some f c l r show ?thesis by simp
qed

theorem percent_plus_escape_in_bounds_witness:
  "malloc_contract (\<lambda>n. Some (replicate n CHR ''?''))
   \<and> percent_plus_escape (\<lambda>n. Some (replicate n CHR ''?'')) ''a b+c'' \<noteq> Out_of_bounds
   \<and> (\<exists>buf p. ppe_fill ''a b+c'' (replicate 8 CHR ''?'') 0 = Some (buf, p) \<and> 8 = p + 1
         \<and> store buf p [NUL] \<noteq> None)"
proof -
  let ?m = "\<lambda>n. Some (replicate n CHR ''?'')"
  have c: "malloc_contract ?m"
    by (simp add: malloc_contract_def)
  have n: "ppe_count ''a b+c'' 1 = 8"
    by (simp add: NUL_def needs_percent_def)
  have a: "percent_plus_escape ?m ''a b+c'' \<noteq> Out_of_bounds"
    using percent_plus_escape_in_bounds[OF c, of "''a b+c''"] by blast
  have "?m (ppe_count ''a b+c'' 1) = Some (replicate 8 CHR ''?'')"
    by (simp only: n)
  with percent_plus_escape_in_bounds[OF c, of "''a b+c''"]
  obtain buf p where "ppe_fill ''a b+c'' (replicate 8 CHR ''?'') 0 = Some (buf, p)"
    "ppe_count ''a b+c'' 1 = p + 1" "store buf p [NUL] \<noteq> None"
    by blast
  then have "\<exists>buf p. ppe_fill ''a b+c'' (replicate 8 CHR ''?'') 0 = Some (buf, p) \<and> 8 = p + 1
         \<and> store buf p [NUL] \<noteq> None"
    unfolding n by blast
  with c a show ?thesis by blast
qed

section \<open>Properties of unwrap_rsa_key\<close>

lemmas gpg_err_defs =
  GPG_ERR_NO_ERROR_def GPG_ERR_GENERAL_def GPG_ERR_CHECKSUM_def GPG_ERR_NOT_FOUND_def
  GPG_ERR_INV_KEYLEN_def GPG_ERR_TOO_SHORT_def GPG_ERR_TOO_LARGE_def GPG_ERR_NO_OBJ_def
  GPG_ERR_INV_CURVE_def GPG_ERR_UNKNOWN_CURVE_def GPG_ERR_ASS_CONNECT_FAILED_def
  GPG_ERR_ASS_INV_RESPONSE_def GPG_ERR_ASS_INV_VALUE_def GPG_ERR_UNKNOWN_FLAG_def
  GPG_ERR_EBADF_def GPG_ERR_ENAMETOOLONG_def GPG_ERR_ENOMEM_def
  GPG_ERR_SOURCE_ASSUAN_def GPG_ERR_SOURCE_USER_1_def

lemma find_SomeD: "find P xs = Some x \<Longrightarrow> x \<in> set xs \<and> P x"
  by (induction xs) (auto split: if_splits)

lemma invm_defined: "m \<noteq> 0 \<or> even a \<Longrightarrow> \<exists>r x. invm a m = Some (r, x)"
  by (auto simp: invm_def split: option.splits)

lemma invm_undefined: "odd a \<Longrightarrow> invm a 0 = None"
  by (simp add: invm_def)

lemma invm_True: "invm a m = Some (True, x) \<Longrightarrow> x < m \<and> (x * a) mod m = 1"
  by (auto simp: invm_def is_inverse_def split: option.splits if_splits dest: find_SomeD)

lemma invm_False: "invm a m = Some (False, x) \<Longrightarrow> x = 0 \<and> \<not> (\<exists>y<m. (y * a) mod m = 1)"
proof (cases "find (is_inverse a m) [0..<m]")
  case None
  then have "\<not> (\<exists>y<m. is_inverse a m y)" by (auto simp: find_None_iff)
  moreover assume "invm a m = Some (False, x)"
  ultimately show ?thesis using None by (auto simp: invm_def is_inverse_def split: if_splits)
next
  case (Some z)
  moreover assume "invm a m = Some (False, x)"
  ultimately show ?thesis by (simp add: invm_def split: if_splits)
qed

lemma invm_cases:
  "m \<noteq> 0 \<Longrightarrow> (\<exists>y<m. (y * a) mod m = 1) \<Longrightarrow>
     \<exists>x. invm a m = Some (True, x) \<and> x < m \<and> (x * a) mod m = 1"
  "m \<noteq> 0 \<Longrightarrow> \<not> (\<exists>y<m. (y * a) mod m = 1) \<Longrightarrow> invm a m = Some (False, 0)"
proof -
  assume m: "m \<noteq> 0"
  then obtain r x where i: "invm a m = Some (r, x)" using invm_defined[of m a] by blast
  {
    assume ex: "\<exists>y<m. (y * a) mod m = 1"
    have "r" using invm_False[of a m x] i ex by (cases r) auto
    with i invm_True[of a m x]
    show "\<exists>x. invm a m = Some (True, x) \<and> x < m \<and> (x * a) mod m = 1" by auto
  }
  {
    assume nex: "\<not> (\<exists>y<m. (y * a) mod m = 1)"
    have "\<not> r" using invm_True[of a m x] i nex by (cases r) auto
    with i invm_False[of a m x] show "invm a m = Some (False, 0)" by auto
  }
qed

lemma unwrap_rsa_key_cases:
  assumes "key_q e = Some (Mpi_num qv)" and "key_p e = Some (Mpi_num pv)"
  shows "unwrap_rsa_key e =
     (case invm qv pv of
        None \<Rightarrow> None
      | Some (ret, x) \<Rightarrow>
          Some (if ret then (GPG_ERR_NO_ERROR, e\<lparr>iqmp := Some (Mpi_num x), ktype := kt_rsa\<rparr>)
                else (GPG_ERR_GENERAL, e\<lparr>iqmp := Some (Mpi_num x)\<rparr>)))"
  unfolding unwrap_rsa_key_def gcry_mpi_invm_def assms
  by (cases "invm qv pv") (auto simp: Let_def)

text \<open>
  For every modulus \<open>p\<close> other than zero, \<open>unwrap_rsa_key\<close> does what is asked of it.
  When the extracted \<open>q\<close> has an inverse modulo the extracted \<open>p\<close>, it succeeds, sets
  the key type to RSA and stores in \<open>iqmp\<close> the value that \<open>gcry_mpi_invm\<close> computes
  from \<open>q\<close> and \<open>p\<close> alone, which satisfies \<open>(iqmp * q) mod p = 1\<close>. When there is no
  inverse it fails with a non-zero error and leaves the key type as it was.
\<close>

lemma unwrap_rsa_key_iqmp:
  assumes "key_q e = Some (Mpi_num qv)" and "key_p e = Some (Mpi_num pv)" and "pv \<noteq> 0"
  shows "((\<exists>y<pv. (y * qv) mod pv = 1) \<longrightarrow>
            (\<exists>i. unwrap_rsa_key e = Some (GPG_ERR_NO_ERROR, e\<lparr>iqmp := Some (Mpi_num i), ktype := kt_rsa\<rparr>)
                \<and> invm qv pv = Some (True, i) \<and> i < pv \<and> (i * qv) mod pv = 1))
       \<and> (\<not> (\<exists>y<pv. (y * qv) mod pv = 1) \<longrightarrow>
            (\<exists>e'. unwrap_rsa_key e = Some (GPG_ERR_GENERAL, e') \<and> ktype e' = ktype e
                \<and> GPG_ERR_GENERAL \<noteq> GPG_ERR_NO_ERROR))"
proof (cases "\<exists>y<pv. (y * qv) mod pv = 1")
  case True
  from invm_cases(1)[OF assms(3) True] obtain x where
    x: "invm qv pv = Some (True, x)" "x < pv" "(x * qv) mod pv = 1" by blast
  have r: "unwrap_rsa_key e = Some (GPG_ERR_NO_ERROR, e\<lparr>iqmp := Some (Mpi_num x), ktype := kt_rsa\<rparr>)"
    unfolding unwrap_rsa_key_cases[OF assms(1,2)] by (simp add: x(1))
  from r x have
    "\<exists>i. unwrap_rsa_key e = Some (GPG_ERR_NO_ERROR, e\<lparr>iqmp := Some (Mpi_num i), ktype := kt_rsa\<rparr>)
        \<and> invm qv pv = Some (True, i) \<and> i < pv \<and> (i * qv) mod pv = 1"
    by blast
  with True show ?thesis by blast
next
  case False
  from invm_cases(2)[OF assms(3) False] have x: "invm qv pv = Some (False, 0)" .
  have r: "unwrap_rsa_key e = Some (GPG_ERR_GENERAL, e\<lparr>iqmp := Some (Mpi_num 0)\<rparr>)"
    unfolding unwrap_rsa_key_cases[OF assms(1,2)] by (simp add: x)
  have k: "ktype (e\<lparr>iqmp := Some (Mpi_num 0)\<rparr>) = ktype e" by simp
  have g: "GPG_ERR_GENERAL \<noteq> GPG_ERR_NO_ERROR" by (simp add: gpg_err_defs)
  from r k g have "\<exists>e'. unwrap_rsa_key e = Some (GPG_ERR_GENERAL, e') \<and> ktype e' = ktype e
                \<and> GPG_ERR_GENERAL \<noteq> GPG_ERR_NO_ERROR"
    by blast
  with False show ?thesis by blast
qed

lemma unwrap_rsa_key_examples:
  "unwrap_rsa_key (rsa_exporter 11 3) =
     Some (GPG_ERR_NO_ERROR, (rsa_exporter 11 3)\<lparr>iqmp := Some (Mpi_num 4), ktype := kt_rsa\<rparr>)"
  "unwrap_rsa_key (rsa_exporter 9 3) = Some (GPG_ERR_GENERAL, (rsa_exporter 9 3)\<lparr>iqmp := Some (Mpi_num 0)\<rparr>)"
  "unwrap_rsa_key (rsa_exporter 0 4) = Some (GPG_ERR_GENERAL, (rsa_exporter 0 4)\<lparr>iqmp := Some (Mpi_num 0)\<rparr>)"
  by (simp_all add: unwrap_rsa_key_def gcry_mpi_invm_def invm_def is_inverse_def upt_rec
        rsa_exporter_def Let_def)

text \<open>
  Claim C3. With the modulus \<open>p = 0\<close> and an odd \<open>q\<close>, here 3, there is no inverse of
  \<open>q\<close> modulo \<open>p\<close>, and the claim asks for an error. \<open>unwrap_rsa_key\<close> hands \<open>p\<close>
  unchecked to \<^verbatim>\<open>gcry_mpi_invm\<close>, which does not return for these arguments: the
  function returns no error, and \<open>unwrap_key\<close> and \<open>main\<close> do not return either when
  the key expression from gpg-agent holds \<^verbatim>\<open>(p #00#)\<close>.
\<close>

theorem unwrap_rsa_key_zero_modulus:
  "key_p (rsa_exporter 0 3) = Some (Mpi_num 0) \<and> key_q (rsa_exporter 0 3) = Some (Mpi_num 3)
   \<and> (\<nexists>i. is_inverse 3 0 i)
   \<and> unwrap_rsa_key (rsa_exporter 0 3) = None
   \<and> unwrap_key zero_p_world (ready_exporter ''wrapped-key-data'') = None
   \<and> fst (main zero_p_world [''agent-transfer'', sample_keygrip]) = Undefined_behaviour"
proof -
  have 1: "key_p (rsa_exporter 0 3) = Some (Mpi_num 0) \<and> key_q (rsa_exporter 0 3) = Some (Mpi_num 3)"
    by (simp add: rsa_exporter_def)
  have 2: "\<nexists>i. is_inverse 3 0 i"
    by (simp add: is_inverse_def)
  have 3: "unwrap_rsa_key (rsa_exporter 0 3) = None"
    by (simp add: unwrap_rsa_key_def gcry_mpi_invm_def invm_def rsa_exporter_def)
  have 4: "unwrap_key zero_p_world (ready_exporter ''wrapped-key-data'') = None"
    by (simp add: unwrap_key_def ready_exporter_def exporter0_def zero_p_world_def sample_world_def
          unwrap_rsa_key_def gcry_mpi_invm_def invm_def Let_def)
  have 5: "fst (main zero_p_world [''agent-transfer'', sample_keygrip]) = Undefined_behaviour"
    by (simp add: parse_args_def args0_def main_def desc_prompt_text_def agents_def
        get_ssh_auth_sock_fd_def connect_agent_def assuan_socket_connect_def session_def vars_def
        sendenv_def transact_def
        data_cb_def extend_wrapped_key_def cipher_keylen_def zero_p_world_def sample_world_def
        sample_keygrip_def KEYGRIP_LENGTH_def isxdigit_def isdigit_def
        unwrap_key_def unwrap_rsa_key_def gcry_mpi_invm_def invm_def
        exporter0_def strlen_def cstr_def NUL_def gpg_err_defs gpg_err_code_def Let_def)
  from 1 2 3 4 5 show ?thesis by blast
qed

section \<open>Properties of unwrap_ed25519_key\<close>

lemma opaque_compare_Some:
  "opaque_compare (Some (Mpi_opaque (Some bytes))) str err = Some (if bytes = str then None else Some (gpg_error err))"
proof -
  have "8 * length bytes = length str * 8 \<and> take (length str) bytes = str \<longleftrightarrow> bytes = str"
    by auto
  then show ?thesis
    by (auto simp: opaque_compare_def gcry_mpi_get_opaque_def)
qed

lemma unwrap_ed25519_key_cases:
  assumes "curve e = Some (Mpi_opaque (Some vcurve))" and "flags e = Some (Mpi_opaque (Some vflags))"
      and "key_q e = Some (Mpi_opaque (Some vq))" and "key_d e = Some (Mpi_opaque (Some vd))"
  shows "unwrap_ed25519_key e =
     Some (if vcurve \<noteq> ''Ed25519'' then (GPG_ERR_UNKNOWN_CURVE, e)
           else if vflags \<noteq> ''eddsa'' then (GPG_ERR_UNKNOWN_FLAG, e)
           else if length vq \<noteq> 33 \<or> take 1 vq \<noteq> [CHR 0x40] then (GPG_ERR_INV_CURVE, e)
           else if length vd < 32 then (GPG_ERR_TOO_SHORT, e)
           else if length vd > 32 then (GPG_ERR_TOO_LARGE, e)
           else (GPG_ERR_NO_ERROR, e\<lparr>ktype := kt_ed25519\<rparr>))"
proof -
  have g: "gpg_error GPG_ERR_UNKNOWN_CURVE = GPG_ERR_UNKNOWN_CURVE"
      "gpg_error GPG_ERR_UNKNOWN_FLAG = GPG_ERR_UNKNOWN_FLAG"
      "gpg_error GPG_ERR_INV_CURVE = GPG_ERR_INV_CURVE"
      "gpg_error GPG_ERR_TOO_SHORT = GPG_ERR_TOO_SHORT"
      "gpg_error GPG_ERR_TOO_LARGE = GPG_ERR_TOO_LARGE"
    by (simp_all add: gpg_error_def gpg_err_make_def gpg_err_defs)
  have q: "(case Some vq of None \<Rightarrow> True | Some [] \<Rightarrow> True | Some (t # _) \<Rightarrow> t \<noteq> CHR 0x40)
             \<longleftrightarrow> take 1 vq \<noteq> [CHR 0x40]"
    by (cases vq) auto
  show ?thesis
    unfolding unwrap_ed25519_key_def assms opaque_compare_Some g
    using q by (simp add: gcry_mpi_get_opaque_def g)
qed

text \<open>
  Claim C5, as amended. \<open>unwrap_ed25519_key\<close> checks the four values in order and
  rejects the first violation: a curve other than \<open>Ed25519\<close> with
  \<open>GPG_ERR_UNKNOWN_CURVE\<close>; flags other than \<open>eddsa\<close> with \<open>GPG_ERR_UNKNOWN_FLAG\<close>; a
  public point that is not 33 bytes long or does not start with the byte 0x40 with
  \<open>GPG_ERR_INV_CURVE\<close>, the same error for both defects; a private scalar shorter than
  32 bytes with \<open>GPG_ERR_TOO_SHORT\<close> and a longer one with \<open>GPG_ERR_TOO_LARGE\<close>. These
  five codes differ from one another and from success.
\<close>

theorem unwrap_ed25519_key_errors:
  assumes "curve e = Some (Mpi_opaque (Some vcurve))" and "flags e = Some (Mpi_opaque (Some vflags))"
      and "key_q e = Some (Mpi_opaque (Some vq))" and "key_d e = Some (Mpi_opaque (Some vd))"
  shows "unwrap_ed25519_key e =
     Some (if vcurve \<noteq> ''Ed25519'' then (GPG_ERR_UNKNOWN_CURVE, e)
           else if vflags \<noteq> ''eddsa'' then (GPG_ERR_UNKNOWN_FLAG, e)
           else if length vq \<noteq> 33 \<or> take 1 vq \<noteq> [CHR 0x40] then (GPG_ERR_INV_CURVE, e)
           else if length vd < 32 then (GPG_ERR_TOO_SHORT, e)
           else if length vd > 32 then (GPG_ERR_TOO_LARGE, e)
           else (GPG_ERR_NO_ERROR, e\<lparr>ktype := kt_ed25519\<rparr>))
     \<and> distinct [GPG_ERR_NO_ERROR, GPG_ERR_UNKNOWN_CURVE, GPG_ERR_UNKNOWN_FLAG, GPG_ERR_INV_CURVE,
                 GPG_ERR_TOO_SHORT, GPG_ERR_TOO_LARGE]"
proof -
  have "distinct [GPG_ERR_NO_ERROR, GPG_ERR_UNKNOWN_CURVE, GPG_ERR_UNKNOWN_FLAG, GPG_ERR_INV_CURVE,
                 GPG_ERR_TOO_SHORT, GPG_ERR_TOO_LARGE]"
    by (simp add: gpg_err_defs)
  with unwrap_ed25519_key_cases[OF assms] show ?thesis by blast
qed

theorem unwrap_ed25519_key_errors_witness:
  "unwrap_ed25519_key (ed25519_exporter ''NIST P-256'' ''eddsa'' (CHR 0x40 # replicate 32 CHR ''q'') (replicate 32 CHR ''d''))
     = Some (GPG_ERR_UNKNOWN_CURVE, ed25519_exporter ''NIST P-256'' ''eddsa'' (CHR 0x40 # replicate 32 CHR ''q'') (replicate 32 CHR ''d''))
   \<and> unwrap_ed25519_key (ed25519_exporter ''Ed25519'' ''eddsa'' (replicate 32 CHR ''q'') (replicate 32 CHR ''d''))
     = Some (GPG_ERR_INV_CURVE, ed25519_exporter ''Ed25519'' ''eddsa'' (replicate 32 CHR ''q'') (replicate 32 CHR ''d''))
   \<and> unwrap_ed25519_key (ed25519_exporter ''Ed25519'' ''eddsa'' (CHR 0x40 # replicate 32 CHR ''q'') (replicate 31 CHR ''d''))
     = Some (GPG_ERR_TOO_SHORT, ed25519_exporter ''Ed25519'' ''eddsa'' (CHR 0x40 # replicate 32 CHR ''q'') (replicate 31 CHR ''d''))
   \<and> unwrap_ed25519_key (ed25519_exporter ''Ed25519'' ''eddsa'' (CHR 0x40 # replicate 32 CHR ''q'') (replicate 33 CHR ''d''))
     = Some (GPG_ERR_TOO_LARGE, ed25519_exporter ''Ed25519'' ''eddsa'' (CHR 0x40 # replicate 32 CHR ''q'') (replicate 33 CHR ''d''))"
proof -
  have f: "curve (ed25519_exporter c f q d) = Some (Mpi_opaque (Some c))"
    "flags (ed25519_exporter c f q d) = Some (Mpi_opaque (Some f))"
    "key_q (ed25519_exporter c f q d) = Some (Mpi_opaque (Some q))"
    "key_d (ed25519_exporter c f q d) = Some (Mpi_opaque (Some d))" for c f q d
    by (simp_all add: ed25519_exporter_def)
  show ?thesis
    using unwrap_ed25519_key_errors[OF f, of "''NIST P-256''" "''eddsa''" "CHR 0x40 # replicate 32 CHR ''q''" "replicate 32 CHR ''d''"]
      unwrap_ed25519_key_errors[OF f, of "''Ed25519''" "''eddsa''" "replicate 32 CHR ''q''" "replicate 32 CHR ''d''"]
      unwrap_ed25519_key_errors[OF f, of "''Ed25519''" "''eddsa''" "CHR 0x40 # replicate 32 CHR ''q''" "replicate 31 CHR ''d''"]
      unwrap_ed25519_key_errors[OF f, of "''Ed25519''" "''eddsa''" "CHR 0x40 # replicate 32 CHR ''q''" "replicate 33 CHR ''d''"]
    by simp
qed

text \<open>
  The claim as the specification states it fails: a public point of the wrong length
  (32 bytes) and one with the wrong leading byte (0x41) are rejected with one and the
  same error.
\<close>

theorem unwrap_ed25519_key_point_counterexample:
  "unwrap_ed25519_key (ed25519_exporter ''Ed25519'' ''eddsa'' (replicate 32 CHR ''q'') (replicate 32 CHR ''d''))
     = Some (GPG_ERR_INV_CURVE,
             ed25519_exporter ''Ed25519'' ''eddsa'' (replicate 32 CHR ''q'') (replicate 32 CHR ''d''))
   \<and> unwrap_ed25519_key (ed25519_exporter ''Ed25519'' ''eddsa'' (CHR ''A'' # replicate 32 CHR ''q'') (replicate 32 CHR ''d''))
     = Some (GPG_ERR_INV_CURVE,
             ed25519_exporter ''Ed25519'' ''eddsa'' (CHR ''A'' # replicate 32 CHR ''q'') (replicate 32 CHR ''d''))"
proof -
  have f: "curve (ed25519_exporter c f q d) = Some (Mpi_opaque (Some c))"
    "flags (ed25519_exporter c f q d) = Some (Mpi_opaque (Some f))"
    "key_q (ed25519_exporter c f q d) = Some (Mpi_opaque (Some q))"
    "key_d (ed25519_exporter c f q d) = Some (Mpi_opaque (Some d))" for c f q d
    by (simp_all add: ed25519_exporter_def)
  show ?thesis
    using unwrap_ed25519_key_cases[OF f, of "''Ed25519''" "''eddsa''" "replicate 32 CHR ''q''" "replicate 32 CHR ''d''"]
      unwrap_ed25519_key_cases[OF f, of "''Ed25519''" "''eddsa''" "CHR ''A'' # replicate 32 CHR ''q''" "replicate 32 CHR ''d''"]
    by simp
qed

section \<open>Properties of data_cb\<close>

lemma data_cb_established:
  "wrap_cipher e = Some h \<Longrightarrow> data_cb w e c = extend_wrapped_key w e c"
  by (simp add: data_cb_def)

lemma extend_wrapped_key_Some:
  assumes "extend_wrapped_key w e c = Some (r, e')"
  shows "wrap_cipher e' = wrap_cipher e"
    and "r = 0 \<Longrightarrow> buffer_bytes (wrapped_key e') = buffer_bytes (wrapped_key e) @ c
                  \<and> wrapped_len e' = wrapped_len e + of_nat (length c)"
    and "r \<noteq> 0 \<Longrightarrow> r = GPG_ERR_ENOMEM \<and> e' = e"
  using assms
  by (auto simp: extend_wrapped_key_def Let_def buffer_bytes_def gpg_err_defs
           split: if_splits option.splits)

lemma unat_extend:
  assumes "unat (wl :: 64 word) + n < 2 ^ 64"
  shows "unat (wl + of_nat n) = unat wl + n"
proof -
  have n: "n < 2 ^ 64" using assms by simp
  then have u: "unat (of_nat n :: 64 word) = n" by (simp add: unat_of_nat)
  have "unat wl + unat (of_nat n :: 64 word) < 2 ^ LENGTH(64)" using assms u by simp
  then have "unat (wl + of_nat n) = unat wl + unat (of_nat n :: 64 word)"
    by (simp only: unat_add_lem)
  with u show ?thesis by simp
qed

lemma extend_wrapped_key_append:
  assumes "unat (wrapped_len e) + length c < 2 ^ 64"
      and "wrapped_key e = None \<or> wrapped_len e \<noteq> 0 \<or> c \<noteq> []"
      and "realloc_ok w (unat (wrapped_len e) + length c)"
  shows "extend_wrapped_key w e c =
           Some (0, e\<lparr>wrapped_key := Some (buffer_bytes (wrapped_key e) @ c),
                      wrapped_len := wrapped_len e + of_nat (length c)\<rparr>)"
proof -
  note u = unat_extend[OF assms(1)]
  have z: "wrapped_key e \<noteq> None \<Longrightarrow> wrapped_len e + of_nat (length c) \<noteq> 0"
  proof
    assume k: "wrapped_key e \<noteq> None" and "wrapped_len e + of_nat (length c) = 0"
    then have "unat (wrapped_len e + of_nat (length c)) = 0" by simp
    with u have "unat (wrapped_len e) = 0 \<and> length c = 0" by simp
    then have "wrapped_len e = 0 \<and> c = []" by (simp add: unat_eq_0)
    with k assms(2) show False by simp
  qed
  show ?thesis
  proof (cases "wrapped_key e")
    case None
    then show ?thesis
      using assms(3) u by (simp add: extend_wrapped_key_def Let_def buffer_bytes_def gpg_err_defs)
  next
    case (Some old)
    with z have "wrapped_len e + of_nat (length c) \<noteq> 0" by simp
    with Some show ?thesis
      using assms(3) u by (simp add: extend_wrapped_key_def Let_def buffer_bytes_def gpg_err_defs)
  qed
qed

lemma data_cbs_established:
  "wrap_cipher e = Some h \<Longrightarrow> data_cbs w e cs = Some (0, e') \<Longrightarrow>
     wrap_cipher e' = Some h \<and>
     buffer_bytes (wrapped_key e') = buffer_bytes (wrapped_key e) @ concat cs"
proof (induction cs arbitrary: e)
  case Nil
  then show ?case by simp
next
  case (Cons c cs)
  from Cons.prems obtain r e1 where s: "extend_wrapped_key w e c = Some (r, e1)"
    by (cases "extend_wrapped_key w e c") (auto simp: data_cb_established)
  with Cons.prems have r0: "r = 0" and rest: "data_cbs w e1 cs = Some (0, e')"
    by (auto simp: data_cb_established split: if_splits)
  from extend_wrapped_key_Some(1,2)[OF s] r0 Cons.prems(1)
  have e1: "wrap_cipher e1 = Some h" "buffer_bytes (wrapped_key e1) = buffer_bytes (wrapped_key e) @ c"
    by simp_all
  from Cons.IH[OF e1(1) rest] e1(2) show ?case by simp
qed

lemma data_cbs_append:
  assumes "wrap_cipher e = Some h" and "\<And>n. realloc_ok w n" and "[] \<notin> set cs"
      and "unat (wrapped_len e) + length (concat cs) < 2 ^ 64"
  shows "\<exists>e'. data_cbs w e cs = Some (0, e') \<and> wrap_cipher e' = Some h
           \<and> buffer_bytes (wrapped_key e') = buffer_bytes (wrapped_key e) @ concat cs
           \<and> wrapped_len e' = wrapped_len e + of_nat (length (concat cs))"
  using assms(1,3,4)
proof (induction cs arbitrary: e)
  case Nil
  then show ?case by simp
next
  case (Cons c cs)
  let ?e1 = "e\<lparr>wrapped_key := Some (buffer_bytes (wrapped_key e) @ c),
                wrapped_len := wrapped_len e + of_nat (length c)\<rparr>"
  have b: "unat (wrapped_len e) + length c < 2 ^ 64" using Cons.prems(3) by simp
  have ne: "c \<noteq> []" using Cons.prems(2) by auto
  have ro: "realloc_ok w (unat (wrapped_len e) + length c)" using assms(2) .
  have s: "data_cb w e c = Some (0, ?e1)"
    using extend_wrapped_key_append[OF b _ ro] ne Cons.prems(1)
    by (simp add: data_cb_established)
  have c1: "wrap_cipher ?e1 = Some h" using Cons.prems(1) by simp
  have n1: "[] \<notin> set cs" using Cons.prems(2) by auto
  have l1: "unat (wrapped_len ?e1) + length (concat cs) < 2 ^ 64"
    using Cons.prems(3) unat_extend[OF b] by simp
  from Cons.IH[OF c1 n1 l1] obtain e' where
    r: "data_cbs w ?e1 cs = Some (0, e')" and h: "wrap_cipher e' = Some h"
    and k: "buffer_bytes (wrapped_key e') = buffer_bytes (wrapped_key ?e1) @ concat cs"
    and l: "wrapped_len e' = wrapped_len ?e1 + of_nat (length (concat cs))"
    by blast
  have r': "data_cbs w e (c # cs) = Some (0, e')" using s r by simp
  have k': "buffer_bytes (wrapped_key e') = buffer_bytes (wrapped_key e) @ concat (c # cs)"
    using k by (simp add: buffer_bytes_def)
  have l': "wrapped_len e' = wrapped_len e + of_nat (length (concat (c # cs)))"
    using l by simp
  from r' h k' l' show ?case by blast
qed

text \<open>
  \<open>wrapped_len\<close> is the size of the block of \<open>wrapped_key\<close> at the start of \<open>main\<close>, and
  the callbacks keep it so.
\<close>

lemma block_sized_exporter0: "block_sized exporter0"
  by (simp add: block_sized_def exporter0_def buffer_bytes_def)

lemma data_cb_block_sized:
  assumes "block_sized e" and "data_cb w e k = Some (r, e')"
  shows "block_sized e'"
proof (cases "wrap_cipher e")
  case None
  with assms show ?thesis
    by (auto simp: data_cb_def block_sized_def Let_def split: if_splits)
next
  case (Some h)
  with assms(2) have x: "extend_wrapped_key w e k = Some (r, e')"
    by (simp add: data_cb_established)
  show ?thesis
  proof (cases "r = 0")
    case True
    with x have "unat (wrapped_len e) + length k = unat (wrapped_len e + of_nat (length k))"
      by (auto simp: extend_wrapped_key_def Let_def gpg_err_defs split: if_splits)
    with extend_wrapped_key_Some(2)[OF x True] assms(1) show ?thesis
      by (simp add: block_sized_def)
  next
    case False
    with extend_wrapped_key_Some(3)[OF x] assms(1) show ?thesis by simp
  qed
qed

lemma data_cbs_block_sized:
  "block_sized e \<Longrightarrow> data_cbs w e cs = Some (r, e') \<Longrightarrow> block_sized e'"
proof (induction cs arbitrary: e)
  case Nil
  then show ?case by simp
next
  case (Cons c cs)
  from Cons.prems(2) obtain r1 e1 where s: "data_cb w e c = Some (r1, e1)"
    by (cases "data_cb w e c") auto
  note b1 = data_cb_block_sized[OF Cons.prems(1) s]
  show ?case
  proof (cases "r1 = 0")
    case True
    with Cons.prems(2) s have "data_cbs w e1 cs = Some (r, e')" by simp
    from Cons.IH[OF b1 this] show ?thesis .
  next
    case False
    with Cons.prems(2) s have "e' = e1" by simp
    with b1 show ?thesis by simp
  qed
qed

lemma data_cb_first:
  assumes "wrap_cipher e = None"
  shows "length k \<noteq> cipher_keylen \<Longrightarrow> data_cb w e k = Some (GPG_ERR_INV_KEYLEN, e)"
    and "length k = cipher_keylen \<Longrightarrow> cipher_open w = 0 \<Longrightarrow> cipher_setkey w k = 0 \<Longrightarrow>
           data_cb w e k = Some (0, e\<lparr>wrap_cipher := Some (Cipher_hd (Some k))\<rparr>)"
    and "data_cb w e k = Some (0, e') \<Longrightarrow>
           length k = cipher_keylen \<and> e' = e\<lparr>wrap_cipher := Some (Cipher_hd (Some k))\<rparr>"
    and "data_cb w e k = Some (r, e') \<Longrightarrow>
           wrapped_key e' = wrapped_key e \<and> wrapped_len e' = wrapped_len e"
    and "data_cb w e k \<noteq> None"
  using assms by (auto simp: data_cb_def Let_def gpg_err_defs split: if_splits)

text \<open>
  Claim C7, as amended. A callback that finds no cipher rejects a chunk that is not
  exactly 16 bytes long, empty or not, with \<open>GPG_ERR_INV_KEYLEN\<close> and changes
  nothing; given a chunk of 16 bytes it establishes the cipher with the chunk as the
  key, provided libgcrypt opens the cipher and accepts the key; in no case does it touch
  the wrapped-key buffer. A callback that finds a cipher never replaces it, and it
  appends the chunk to the wrapped-key buffer whenever \<^verbatim>\<open>realloc\<close> provides the memory
  (the new size fitting \<^verbatim>\<open>size_t\<close> and not being zero for a block already there).
  Hence a sequence of callbacks from an exporter with no cipher, with a first chunk of
  16 bytes and then chunks that are not empty, sets the key once from the first chunk
  and appends the others in their order of arrival; and every sequence of callbacks
  that all succeed has this form.
\<close>

theorem data_cb_cipher_before_key:
  "(wrap_cipher e = None \<and> length k \<noteq> cipher_keylen \<longrightarrow> data_cb w e k = Some (GPG_ERR_INV_KEYLEN, e))
   \<and> (wrap_cipher e = None \<and> length k = cipher_keylen \<and> cipher_open w = 0 \<and> cipher_setkey w k = 0 \<longrightarrow>
         data_cb w e k = Some (0, e\<lparr>wrap_cipher := Some (Cipher_hd (Some k))\<rparr>))
   \<and> (wrap_cipher e = None \<and> data_cb w e k = Some (r, e1) \<longrightarrow>
         wrapped_key e1 = wrapped_key e \<and> wrapped_len e1 = wrapped_len e)
   \<and> (wrap_cipher e \<noteq> None \<and> data_cb w e k = Some (r, e1) \<longrightarrow> wrap_cipher e1 = wrap_cipher e)
   \<and> (wrap_cipher e \<noteq> None \<and> unat (wrapped_len e) + length k < 2 ^ 64
         \<and> (wrapped_key e = None \<or> wrapped_len e \<noteq> 0 \<or> k \<noteq> [])
         \<and> realloc_ok w (unat (wrapped_len e) + length k) \<longrightarrow>
         data_cb w e k = Some (0, e\<lparr>wrapped_key := Some (buffer_bytes (wrapped_key e) @ k),
                                    wrapped_len := wrapped_len e + of_nat (length k)\<rparr>))
   \<and> (wrap_cipher e = None \<and> length k = cipher_keylen \<and> cipher_open w = 0 \<and> cipher_setkey w k = 0
         \<and> (\<forall>n. realloc_ok w n) \<and> [] \<notin> set rest \<and> unat (wrapped_len e) + length (concat rest) < 2 ^ 64 \<longrightarrow>
         (\<exists>e'. data_cbs w e (k # rest) = Some (0, e')
             \<and> wrap_cipher e' = Some (Cipher_hd (Some k))
             \<and> buffer_bytes (wrapped_key e') = buffer_bytes (wrapped_key e) @ concat rest
             \<and> wrapped_len e' = wrapped_len e + of_nat (length (concat rest))))
   \<and> (wrap_cipher e = None \<and> data_cbs w e chunks = Some (0, e2) \<longrightarrow>
         chunks = [] \<and> e2 = e \<or>
         (\<exists>key others. chunks = key # others \<and> length key = cipher_keylen
             \<and> wrap_cipher e2 = Some (Cipher_hd (Some key))
             \<and> buffer_bytes (wrapped_key e2) = buffer_bytes (wrapped_key e) @ concat others))"
proof -
  have 1: "wrap_cipher e = None \<and> length k \<noteq> cipher_keylen \<longrightarrow> data_cb w e k = Some (GPG_ERR_INV_KEYLEN, e)"
    using data_cb_first(1) by blast
  have 2: "wrap_cipher e = None \<and> length k = cipher_keylen \<and> cipher_open w = 0 \<and> cipher_setkey w k = 0 \<longrightarrow>
         data_cb w e k = Some (0, e\<lparr>wrap_cipher := Some (Cipher_hd (Some k))\<rparr>)"
    using data_cb_first(2) by blast
  have 3: "wrap_cipher e = None \<and> data_cb w e k = Some (r, e1) \<longrightarrow>
         wrapped_key e1 = wrapped_key e \<and> wrapped_len e1 = wrapped_len e"
    using data_cb_first(4) by blast
  have 4: "wrap_cipher e \<noteq> None \<and> data_cb w e k = Some (r, e1) \<longrightarrow> wrap_cipher e1 = wrap_cipher e"
    using extend_wrapped_key_Some(1)[of w e k r e1] by (auto simp: data_cb_established)
  have 5: "wrap_cipher e \<noteq> None \<and> unat (wrapped_len e) + length k < 2 ^ 64
         \<and> (wrapped_key e = None \<or> wrapped_len e \<noteq> 0 \<or> k \<noteq> [])
         \<and> realloc_ok w (unat (wrapped_len e) + length k) \<longrightarrow>
         data_cb w e k = Some (0, e\<lparr>wrapped_key := Some (buffer_bytes (wrapped_key e) @ k),
                                    wrapped_len := wrapped_len e + of_nat (length k)\<rparr>)"
    using extend_wrapped_key_append[of e k w] by (auto simp: data_cb_established)
  have 6: "wrap_cipher e = None \<and> length k = cipher_keylen \<and> cipher_open w = 0 \<and> cipher_setkey w k = 0
         \<and> (\<forall>n. realloc_ok w n) \<and> [] \<notin> set rest \<and> unat (wrapped_len e) + length (concat rest) < 2 ^ 64 \<longrightarrow>
         (\<exists>e'. data_cbs w e (k # rest) = Some (0, e')
             \<and> wrap_cipher e' = Some (Cipher_hd (Some k))
             \<and> buffer_bytes (wrapped_key e') = buffer_bytes (wrapped_key e) @ concat rest
             \<and> wrapped_len e' = wrapped_len e + of_nat (length (concat rest)))"
  proof (intro impI, elim conjE)
    assume n: "wrap_cipher e = None" and l: "length k = cipher_keylen" and o: "cipher_open w = 0"
      and sk: "cipher_setkey w k = 0" and ra: "\<forall>n. realloc_ok w n" and ne: "[] \<notin> set rest"
      and b: "unat (wrapped_len e) + length (concat rest) < 2 ^ 64"
    let ?e1 = "e\<lparr>wrap_cipher := Some (Cipher_hd (Some k))\<rparr>"
    have f: "data_cb w e k = Some (0, ?e1)" using data_cb_first(2)[OF n l o sk] .
    have c1: "wrap_cipher ?e1 = Some (Cipher_hd (Some k))" by simp
    have b1: "unat (wrapped_len ?e1) + length (concat rest) < 2 ^ 64" using b by simp
    from data_cbs_append[where w=w, OF c1 _ ne b1] ra obtain e' where
      r: "data_cbs w ?e1 rest = Some (0, e')" and h: "wrap_cipher e' = Some (Cipher_hd (Some k))"
      and kk: "buffer_bytes (wrapped_key e') = buffer_bytes (wrapped_key ?e1) @ concat rest"
      and ll: "wrapped_len e' = wrapped_len ?e1 + of_nat (length (concat rest))"
      by blast
    have r': "data_cbs w e (k # rest) = Some (0, e')" using f r by simp
    from r' h kk ll show "\<exists>e'. data_cbs w e (k # rest) = Some (0, e')
             \<and> wrap_cipher e' = Some (Cipher_hd (Some k))
             \<and> buffer_bytes (wrapped_key e') = buffer_bytes (wrapped_key e) @ concat rest
             \<and> wrapped_len e' = wrapped_len e + of_nat (length (concat rest))"
      by (intro exI[of _ e']) simp
  qed
  have 7: "wrap_cipher e = None \<and> data_cbs w e chunks = Some (0, e2) \<longrightarrow>
         chunks = [] \<and> e2 = e \<or>
         (\<exists>key others. chunks = key # others \<and> length key = cipher_keylen
             \<and> wrap_cipher e2 = Some (Cipher_hd (Some key))
             \<and> buffer_bytes (wrapped_key e2) = buffer_bytes (wrapped_key e) @ concat others)"
  proof (intro impI, elim conjE)
    assume n: "wrap_cipher e = None" and run: "data_cbs w e chunks = Some (0, e2)"
    show "chunks = [] \<and> e2 = e \<or>
         (\<exists>key others. chunks = key # others \<and> length key = cipher_keylen
             \<and> wrap_cipher e2 = Some (Cipher_hd (Some key))
             \<and> buffer_bytes (wrapped_key e2) = buffer_bytes (wrapped_key e) @ concat others)"
    proof (cases chunks)
      case Nil
      with run show ?thesis by simp
    next
      case (Cons key others)
      from data_cb_first(5)[OF n, of w key] obtain r0 e0 where s: "data_cb w e key = Some (r0, e0)"
        by (cases "data_cb w e key") auto
      with run Cons have r0: "r0 = 0" and rest: "data_cbs w e0 others = Some (0, e2)"
        by (auto split: if_splits)
      from data_cb_first(3)[OF n s[unfolded r0]]
      have l: "length key = cipher_keylen" and e0: "e0 = e\<lparr>wrap_cipher := Some (Cipher_hd (Some key))\<rparr>"
        by simp_all
      have c0: "wrap_cipher e0 = Some (Cipher_hd (Some key))" and k0: "wrapped_key e0 = wrapped_key e"
        by (simp_all add: e0)
      from data_cbs_established[OF c0 rest] k0
      have "wrap_cipher e2 = Some (Cipher_hd (Some key)) \<and>
            buffer_bytes (wrapped_key e2) = buffer_bytes (wrapped_key e) @ concat others"
        by simp
      with Cons l show ?thesis by blast
    qed
  qed
  from 1 2 3 4 5 6 7 show ?thesis by blast
qed

theorem data_cb_cipher_before_key_witness:
  "wrap_cipher exporter0 = None
   \<and> data_cb sample_world exporter0 ''short'' = Some (GPG_ERR_INV_KEYLEN, exporter0)
   \<and> data_cb sample_world exporter0 ''0123456789abcdef''
       = Some (0, exporter0\<lparr>wrap_cipher := Some (Cipher_hd (Some ''0123456789abcdef''))\<rparr>)
   \<and> data_cb sample_world (exporter0\<lparr>wrap_cipher := Some (Cipher_hd (Some ''0123456789abcdef''))\<rparr>) ''wrapped-''
       = Some (0, exporter0\<lparr>wrap_cipher := Some (Cipher_hd (Some ''0123456789abcdef'')),
                            wrapped_key := Some ''wrapped-'', wrapped_len := 8\<rparr>)
   \<and> (\<exists>e'. data_cbs sample_world exporter0 [''0123456789abcdef'', ''wrapped-'', ''key-data''] = Some (0, e')
         \<and> wrap_cipher e' = Some (Cipher_hd (Some ''0123456789abcdef''))
         \<and> buffer_bytes (wrapped_key e') = ''wrapped-key-data'' \<and> wrapped_len e' = 16)"
proof -
  let ?k = "''0123456789abcdef''"
  let ?e1 = "exporter0\<lparr>wrap_cipher := Some (Cipher_hd (Some ?k))\<rparr>"
  have n: "wrap_cipher exporter0 = None" "wrapped_key exporter0 = None" "wrapped_len exporter0 = 0"
    "wrap_cipher ?e1 \<noteq> None" "wrapped_key ?e1 = None" "wrapped_len ?e1 = 0"
    by (simp_all add: exporter0_def)
  have b: "buffer_bytes None = []" by (simp add: buffer_bytes_def)
  have l: "length ''short'' \<noteq> cipher_keylen" "length ?k = cipher_keylen"
    by (simp_all add: cipher_keylen_def)
  have lib: "cipher_open sample_world = 0" "cipher_setkey sample_world ?k = 0"
    "\<forall>n. realloc_ok sample_world n"
    by (simp_all add: sample_world_def)
  from data_cb_cipher_before_key[where e=exporter0 and k="''short''" and w=sample_world] n(1) l(1)
  have 1: "data_cb sample_world exporter0 ''short'' = Some (GPG_ERR_INV_KEYLEN, exporter0)"
    by blast
  from data_cb_cipher_before_key[where e=exporter0 and k="?k" and w=sample_world] n(1) l(2) lib(1,2)
  have 2: "data_cb sample_world exporter0 ?k = Some (0, ?e1)"
    by blast
  have h3: "wrap_cipher ?e1 \<noteq> None \<and> unat (wrapped_len ?e1) + length ''wrapped-'' < 2 ^ 64
         \<and> (wrapped_key ?e1 = None \<or> wrapped_len ?e1 \<noteq> 0 \<or> ''wrapped-'' \<noteq> [])
         \<and> realloc_ok sample_world (unat (wrapped_len ?e1) + length ''wrapped-'')"
    using lib(3) by (simp add: n)
  note c5 = data_cb_cipher_before_key[where e="?e1" and k="''wrapped-''" and w=sample_world,
      THEN conjunct2, THEN conjunct2, THEN conjunct2, THEN conjunct2, THEN conjunct1]
  from c5 h3
  have "data_cb sample_world ?e1 ''wrapped-''
       = Some (0, ?e1\<lparr>wrapped_key := Some (buffer_bytes (wrapped_key ?e1) @ ''wrapped-''),
                      wrapped_len := wrapped_len ?e1 + of_nat (length ''wrapped-'')\<rparr>)"
    by (rule mp)
  then have 3: "data_cb sample_world ?e1 ''wrapped-''
       = Some (0, exporter0\<lparr>wrap_cipher := Some (Cipher_hd (Some ?k)),
                            wrapped_key := Some ''wrapped-'', wrapped_len := 8\<rparr>)"
    by (simp add: n b)
  have h6: "wrap_cipher exporter0 = None \<and> length ?k = cipher_keylen
         \<and> cipher_open sample_world = 0 \<and> cipher_setkey sample_world ?k = 0
         \<and> (\<forall>n. realloc_ok sample_world n) \<and> [] \<notin> set [''wrapped-'', ''key-data'']
         \<and> unat (wrapped_len exporter0) + length (concat [''wrapped-'', ''key-data'']) < 2 ^ 64"
    using l(2) lib by (simp add: n)
  note c6 = data_cb_cipher_before_key[where e=exporter0 and k="?k" and w=sample_world
      and rest="[''wrapped-'', ''key-data'']",
      THEN conjunct2, THEN conjunct2, THEN conjunct2, THEN conjunct2, THEN conjunct2, THEN conjunct1]
  from c6 h6
  have "\<exists>e'. data_cbs sample_world exporter0 (?k # [''wrapped-'', ''key-data'']) = Some (0, e')
             \<and> wrap_cipher e' = Some (Cipher_hd (Some ?k))
             \<and> buffer_bytes (wrapped_key e') = buffer_bytes (wrapped_key exporter0) @ concat [''wrapped-'', ''key-data'']
             \<and> wrapped_len e' = wrapped_len exporter0 + of_nat (length (concat [''wrapped-'', ''key-data'']))"
    by (rule mp)
  then obtain e' where e': "data_cbs sample_world exporter0 [?k, ''wrapped-'', ''key-data''] = Some (0, e')"
    "wrap_cipher e' = Some (Cipher_hd (Some ?k))"
    "buffer_bytes (wrapped_key e') = buffer_bytes (wrapped_key exporter0) @ concat [''wrapped-'', ''key-data'']"
    "wrapped_len e' = wrapped_len exporter0 + of_nat (length (concat [''wrapped-'', ''key-data'']))"
    by blast
  have "buffer_bytes (wrapped_key e') = ''wrapped-key-data''" "wrapped_len e' = 16"
    using e'(3,4) by (simp_all add: n b)
  with e'(1,2) have 4: "\<exists>e'. data_cbs sample_world exporter0 [?k, ''wrapped-'', ''key-data''] = Some (0, e')
         \<and> wrap_cipher e' = Some (Cipher_hd (Some ?k))
         \<and> buffer_bytes (wrapped_key e') = ''wrapped-key-data'' \<and> wrapped_len e' = 16"
    by blast
  from n(1) 1 2 3 4 show ?thesis by blast
qed

text \<open>
  The claim as the specification states it fails: the first chunk of this sequence
  is not empty, yet no cipher is established from it; the callback returns an error,
  which ends the transaction.
\<close>

theorem data_cb_first_chunk_counterexample:
  "data_cbs sample_world exporter0 [''hello'', ''0123456789abcdef'', ''data'']
     = Some (GPG_ERR_INV_KEYLEN, exporter0)
   \<and> wrap_cipher exporter0 = None \<and> GPG_ERR_INV_KEYLEN \<noteq> 0"
  by (simp add: data_cb_def cipher_keylen_def exporter0_def gpg_err_defs)

section \<open>Properties of unwrap_key\<close>

lemma unwrap_key_not_ready:
  "\<not> exporter_ready e \<Longrightarrow> unwrap_key w e = Some (GPG_ERR_GENERAL, e, [])"
  by (auto simp: unwrap_key_def exporter_ready_def)

lemma unwrap_key_enomem:
  "exporter_ready e \<Longrightarrow> \<not> realloc_ok w (unat (wrapped_len e - 8)) \<Longrightarrow>
     unwrap_key w e = Some (GPG_ERR_ENOMEM, e, [])"
  by (auto simp: unwrap_key_def exporter_ready_def)

lemma ready_obtain:
  assumes "exporter_ready e"
  obtains c h k where "ctx e = Some c" "wrap_cipher e = Some h" "wrapped_key e = Some k"
    "wrapped_len e \<noteq> 0"
  using assms by (auto simp: exporter_ready_def)

lemma unwrap_key_decrypt_error:
  assumes "exporter_ready e" "realloc_ok w (unat (wrapped_len e - 8))" "fst (decrypted w e) \<noteq> 0"
  shows "unwrap_key w e =
           Some (fst (decrypted w e),
                 e\<lparr>unwrapped_len := wrapped_len e - 8, unwrapped_key := Some (snd (decrypted w e))\<rparr>,
                 [Call_decrypt])"
proof -
  from assms(1) obtain c h k where r: "ctx e = Some c" "wrap_cipher e = Some h"
    "wrapped_key e = Some k" "wrapped_len e \<noteq> 0"
    by (rule ready_obtain)
  obtain ret1 out where d: "cipher_decrypt w h (unat (wrapped_len e - 8)) k (unat (wrapped_len e)) = (ret1, out)"
    by (cases "cipher_decrypt w h (unat (wrapped_len e - 8)) k (unat (wrapped_len e))")
  show ?thesis
    using assms(2,3)
    by (simp add: unwrap_key_def decrypted_def Let_def r d)
qed

lemma unwrap_key_parse_error:
  assumes "exporter_ready e" "realloc_ok w (unat (wrapped_len e - 8))" "fst (decrypted w e) = 0"
    "fst (parsed w e) \<noteq> 0"
  shows "unwrap_key w e =
           Some (fst (parsed w e),
                 e\<lparr>unwrapped_len := wrapped_len e - 8, unwrapped_key := Some (snd (decrypted w e))\<rparr>,
                 [Call_decrypt, Call_sexp_new])"
proof -
  from assms(1) obtain c h k where r: "ctx e = Some c" "wrap_cipher e = Some h"
    "wrapped_key e = Some k" "wrapped_len e \<noteq> 0"
    by (rule ready_obtain)
  obtain ret1 out where d: "cipher_decrypt w h (unat (wrapped_len e - 8)) k (unat (wrapped_len e)) = (ret1, out)"
    by (cases "cipher_decrypt w h (unat (wrapped_len e - 8)) k (unat (wrapped_len e))")
  obtain ret2 sx where p: "sexp_new w out (unat (wrapped_len e - 8)) = (ret2, sx)"
    by (cases "sexp_new w out (unat (wrapped_len e - 8))")
  show ?thesis
    using assms(2,3,4)
    by (simp add: unwrap_key_def decrypted_def parsed_def Let_def r d p)
qed

lemma unwrap_key_parsed:
  assumes "exporter_ready e" "realloc_ok w (unat (wrapped_len e - 8))" "fst (decrypted w e) = 0"
    "fst (parsed w e) = 0"
  shows "unwrap_key w e =
     (case rsa_extraction w e of
        None \<Rightarrow> None
      | Some (ret3, vals) \<Rightarrow>
          if ret3 = 0 then
            (case unwrap_rsa_key (rsa_loaded w e) of
               None \<Rightarrow> None
             | Some (r, e') \<Rightarrow>
                 Some (r, e', [Call_decrypt, Call_sexp_new, Call_extract_param ''private-key!rsa'']))
          else if gpg_err_code ret3 = GPG_ERR_NOT_FOUND then
            (case ecc_extraction w e of
               None \<Rightarrow> None
             | Some (ret4, points) \<Rightarrow>
                 if ret4 = 0 then
                   (case unwrap_ed25519_key (ecc_loaded w e) of
                      None \<Rightarrow> None
                    | Some (r, e') \<Rightarrow>
                        Some (r, e', [Call_decrypt, Call_sexp_new, Call_extract_param ''private-key!rsa'',
                                      Call_extract_param ''private-key!ecc'']))
                 else Some (ret4, parsed_exporter w e,
                            [Call_decrypt, Call_sexp_new, Call_extract_param ''private-key!rsa'',
                             Call_extract_param ''private-key!ecc'']))
          else Some (ret3, parsed_exporter w e,
                     [Call_decrypt, Call_sexp_new, Call_extract_param ''private-key!rsa'']))"
proof -
  from assms(1) obtain c h k where r: "ctx e = Some c" "wrap_cipher e = Some h"
    "wrapped_key e = Some k" "wrapped_len e \<noteq> 0"
    by (rule ready_obtain)
  obtain ret1 out where d: "cipher_decrypt w h (unat (wrapped_len e - 8)) k (unat (wrapped_len e)) = (ret1, out)"
    by (cases "cipher_decrypt w h (unat (wrapped_len e - 8)) k (unat (wrapped_len e))")
  obtain ret2 sx where p: "sexp_new w out (unat (wrapped_len e - 8)) = (ret2, sx)"
    by (cases "sexp_new w out (unat (wrapped_len e - 8))")
  show ?thesis
  proof (cases "extract_rsa w sx")
    case None
    then show ?thesis
      using assms(2,3,4)
      by (simp add: unwrap_key_def decrypted_def parsed_def rsa_extraction_def Let_def r d p)
  next
    case (Some x)
    obtain ret3 vn ve vd vp vq where x: "x = (ret3, vn, ve, vd, vp, vq)"
      by (cases x) auto
    show ?thesis
    proof (cases "extract_ecc w sx")
      case None
      then show ?thesis
        using assms(2,3,4) Some
        by (simp add: unwrap_key_def decrypted_def parsed_def rsa_extraction_def ecc_extraction_def
            rsa_loaded_def parsed_exporter_def Let_def r d p x)
    next
      case ecc: (Some y)
      obtain ret4 vc vf vq' vd' where y: "y = (ret4, vc, vf, vq', vd')"
        by (cases y) auto
      show ?thesis
        using assms(2,3,4) Some ecc
        by (simp add: unwrap_key_def decrypted_def parsed_def rsa_extraction_def ecc_extraction_def
            rsa_loaded_def ecc_loaded_def parsed_exporter_def Let_def r d p x y)
    qed
  qed
qed

lemma unwrap_rsa_key_loaded:
  assumes "rsa_extraction w e = Some (ret, vals)"
      and "unwrap_rsa_key (rsa_loaded w e) = Some (r, e')"
  shows "unwrapped_len e' = wrapped_len e - 8 \<and> wrapped_len e' = wrapped_len e
      \<and> (r \<noteq> 0 \<longrightarrow> ktype e' = ktype e)"
proof -
  obtain vn ve vd vp vq where x: "vals = (vn, ve, vd, vp, vq)"
    by (cases vals) auto
  have q: "key_q (rsa_loaded w e) = Some (Mpi_num vq)" and p: "key_p (rsa_loaded w e) = Some (Mpi_num vp)"
    by (simp_all add: rsa_loaded_def assms(1) x)
  have f: "unwrapped_len (rsa_loaded w e) = wrapped_len e - 8" "wrapped_len (rsa_loaded w e) = wrapped_len e"
    "ktype (rsa_loaded w e) = ktype e"
    by (simp_all add: rsa_loaded_def assms(1) x parsed_exporter_def)
  from assms(2) obtain b i where i: "invm vq vp = Some (b, i)"
    unfolding unwrap_rsa_key_cases[OF q p] by (cases "invm vq vp") auto
  show ?thesis
  proof (cases b)
    case True
    with assms(2) i have "r = GPG_ERR_NO_ERROR"
      "e' = (rsa_loaded w e)\<lparr>iqmp := Some (Mpi_num i), ktype := kt_rsa\<rparr>"
      unfolding unwrap_rsa_key_cases[OF q p] by simp_all
    with f show ?thesis by (simp add: gpg_err_defs)
  next
    case False
    with assms(2) i have "e' = (rsa_loaded w e)\<lparr>iqmp := Some (Mpi_num i)\<rparr>"
      unfolding unwrap_rsa_key_cases[OF q p] by simp
    with f show ?thesis by simp
  qed
qed

lemma unwrap_ed25519_key_loaded:
  assumes "ecc_extraction w e = Some (ret, points)"
  shows "\<exists>r e'. unwrap_ed25519_key (ecc_loaded w e) = Some (r, e')
      \<and> unwrapped_len e' = wrapped_len e - 8 \<and> wrapped_len e' = wrapped_len e
      \<and> (r \<noteq> 0 \<longrightarrow> ktype e' = ktype e)"
proof -
  obtain vc vf vq vd where x: "points = (vc, vf, vq, vd)"
    by (cases points) auto
  have l: "curve (ecc_loaded w e) = Some (Mpi_opaque (Some vc))"
    "flags (ecc_loaded w e) = Some (Mpi_opaque (Some vf))"
    "key_q (ecc_loaded w e) = Some (Mpi_opaque (Some vq))"
    "key_d (ecc_loaded w e) = Some (Mpi_opaque (Some vd))"
    by (simp_all add: ecc_loaded_def assms x)
  have f: "unwrapped_len (ecc_loaded w e) = wrapped_len e - 8" "wrapped_len (ecc_loaded w e) = wrapped_len e"
    "ktype (ecc_loaded w e) = ktype e"
    by (simp_all add: ecc_loaded_def assms x parsed_exporter_def)
  obtain r e' where re: "unwrap_ed25519_key (ecc_loaded w e) = Some (r, e')"
    using unwrap_ed25519_key_cases[OF l] by (metis surj_pair)
  have "unwrapped_len e' = wrapped_len e - 8 \<and> wrapped_len e' = wrapped_len e
      \<and> (r \<noteq> 0 \<longrightarrow> ktype e' = ktype e)"
    using re f unfolding unwrap_ed25519_key_cases[OF l]
    by (auto simp: gpg_err_defs split: if_splits)
  with re show ?thesis by blast
qed

text \<open>A key that \<open>unwrap_key\<close> has unwrapped with success is complete.\<close>

lemma unwrap_key_complete:
  assumes "unwrap_key w e = Some (0, e', calls)"
  shows "key_complete e'"
proof -
  have g: "GPG_ERR_GENERAL \<noteq> 0" "GPG_ERR_ENOMEM \<noteq> 0" by (simp_all add: gpg_err_defs)
  have rdy: "exporter_ready e"
    using assms unwrap_key_not_ready[of e w] g by (cases "exporter_ready e") auto
  have al: "realloc_ok w (unat (wrapped_len e - 8))"
    using assms unwrap_key_enomem[OF rdy, of w] g
    by (cases "realloc_ok w (unat (wrapped_len e - 8))") auto
  have dec: "fst (decrypted w e) = 0"
    using assms unwrap_key_decrypt_error[OF rdy al]
    by (cases "fst (decrypted w e) = 0") auto
  have par: "fst (parsed w e) = 0"
    using assms unwrap_key_parse_error[OF rdy al dec]
    by (cases "fst (parsed w e) = 0") auto
  note u = unwrap_key_parsed[OF rdy al dec par]
  from assms obtain ret3 vals where x: "rsa_extraction w e = Some (ret3, vals)"
    unfolding u by (cases "rsa_extraction w e") auto
  obtain vn ve vd vp vq where v: "vals = (vn, ve, vd, vp, vq)" by (cases vals) auto
  show ?thesis
  proof (cases "ret3 = 0")
    case True
    from assms have k: "unwrap_rsa_key (rsa_loaded w e) = Some (0, e')"
      unfolding u using x True by (cases "unwrap_rsa_key (rsa_loaded w e)") auto
    have f: "key_n (rsa_loaded w e) = Some (Mpi_num vn)" "key_e (rsa_loaded w e) = Some (Mpi_num ve)"
      "key_d (rsa_loaded w e) = Some (Mpi_num vd)" "key_p (rsa_loaded w e) = Some (Mpi_num vp)"
      "key_q (rsa_loaded w e) = Some (Mpi_num vq)"
      by (simp_all add: rsa_loaded_def x v)
    from k obtain b i where i: "invm vq vp = Some (b, i)"
      unfolding unwrap_rsa_key_cases[OF f(5,4)] by (cases "invm vq vp") auto
    from k i have "b" and e': "e' = (rsa_loaded w e)\<lparr>iqmp := Some (Mpi_num i), ktype := kt_rsa\<rparr>"
      unfolding unwrap_rsa_key_cases[OF f(5,4)] by (auto simp: gpg_err_defs split: if_splits)
    show ?thesis
      by (simp add: key_complete_def is_num_def e' f)
  next
    case False
    from assms False x have nf: "gpg_err_code ret3 = GPG_ERR_NOT_FOUND"
      unfolding u by (auto split: if_splits)
    from assms obtain ret4 points where y: "ecc_extraction w e = Some (ret4, points)"
      unfolding u using x False nf by (cases "ecc_extraction w e") auto
    from assms have r4: "ret4 = 0"
      unfolding u using x False nf y by (auto split: if_splits)
    obtain vc vf vq' vd' where pt: "points = (vc, vf, vq', vd')" by (cases points) auto
    have l: "curve (ecc_loaded w e) = Some (Mpi_opaque (Some vc))"
      "flags (ecc_loaded w e) = Some (Mpi_opaque (Some vf))"
      "key_q (ecc_loaded w e) = Some (Mpi_opaque (Some vq'))"
      "key_d (ecc_loaded w e) = Some (Mpi_opaque (Some vd'))"
      by (simp_all add: ecc_loaded_def y pt)
    from assms have k: "unwrap_ed25519_key (ecc_loaded w e) = Some (0, e')"
      unfolding u using x False nf y r4 by (cases "unwrap_ed25519_key (ecc_loaded w e)") auto
    then have "length vq' = 33 \<and> length vd' = 32 \<and> e' = (ecc_loaded w e)\<lparr>ktype := kt_ed25519\<rparr>"
      unfolding unwrap_ed25519_key_cases[OF l]
      by (auto simp: gpg_err_defs split: if_splits)
    then show ?thesis
      by (simp add: key_complete_def is_opaque_def l)
  qed
qed

lemma parsed_exporter_fields:
  "unwrapped_len (parsed_exporter w e) = wrapped_len e - 8"
  "wrapped_len (parsed_exporter w e) = wrapped_len e"
  "ktype (parsed_exporter w e) = ktype e"
  by (simp_all add: parsed_exporter_def)

lemma sample_ready:
  "exporter_ready (ready_exporter ''wrapped-key-data'')"
  "wrapped_len (ready_exporter ''wrapped-key-data'') = 16"
  "ktype (ready_exporter ''wrapped-key-data'') = kt_unknown"
  by (simp_all add: exporter_ready_def ready_exporter_def exporter0_def)

lemma sample_rsa_loaded:
  "\<exists>e'. unwrap_rsa_key (rsa_loaded sample_world (ready_exporter ''wrapped-key-data''))
          = Some (GPG_ERR_NO_ERROR, e')"
  by (simp add: unwrap_rsa_key_def gcry_mpi_invm_def invm_def is_inverse_def upt_rec Let_def
        rsa_loaded_def rsa_extraction_def parsed_def decrypted_def parsed_exporter_def
        sample_world_def ready_exporter_def exporter0_def)

lemma sample_stages:
  "realloc_ok sample_world n"
  "aeswrap_contract sample_world"
  "decrypted sample_world (ready_exporter ''wrapped-key-data'') = (0, ''key-data'')"
  "parsed sample_world (ready_exporter ''wrapped-key-data'') = (0, Atom ''key-data'')"
  "rsa_extraction sample_world (ready_exporter ''wrapped-key-data'') = Some (0, (33, 3, 7, 11, 3))"
  by (simp_all add: sample_world_def aeswrap_contract_def decrypted_def parsed_def
        rsa_extraction_def ready_exporter_def exporter0_def gpg_err_defs)

lemma no_schema_stages:
  "realloc_ok no_schema_world n"
  "decrypted no_schema_world (ready_exporter ''wrapped-key-data'') = (0, ''key-data'')"
  "parsed no_schema_world (ready_exporter ''wrapped-key-data'') = (0, Atom ''key-data'')"
  "rsa_extraction no_schema_world (ready_exporter ''wrapped-key-data'')
     = Some (GPG_ERR_NOT_FOUND, (0, 0, 0, 0, 0))"
  "ecc_extraction no_schema_world (ready_exporter ''wrapped-key-data'')
     = Some (GPG_ERR_NOT_FOUND, ([], [], [], []))"
  by (simp_all add: no_schema_world_def sample_world_def decrypted_def parsed_def
        rsa_extraction_def ecc_extraction_def ready_exporter_def exporter0_def gpg_err_defs)

text \<open>
  Claim C2. \<open>unwrap_key\<close> returns the state error \<open>GPG_ERR_GENERAL\<close> without calling
  the library whenever the cipher is not established or the wrapped-key buffer is
  NULL or empty (or the context is NULL). Whenever it gets past decryption, that is,
  calls \<^verbatim>\<open>gcry_sexp_new\<close>, the unwrapped length is the wrapped length minus 8 in
  \<^verbatim>\<open>size_t\<close> arithmetic; with a cipher that honours the documented minimum input of 16
  bytes the subtraction does not wrap, and the unwrapped length is the wrapped length
  minus 8 as a number. When decryption fails, the cipher's error is what
  \<open>unwrap_key\<close> returns, and the parser is not called.
\<close>

theorem unwrap_key_state_and_length:
  "(ctx e = None \<or> wrap_cipher e = None \<or> wrapped_key e = None \<or> wrapped_len e = 0
      \<longrightarrow> unwrap_key w e = Some (GPG_ERR_GENERAL, e, []) \<and> GPG_ERR_GENERAL \<noteq> 0)
   \<and> (unwrap_key w e = Some (r, e', calls) \<and> Call_sexp_new \<in> set calls \<longrightarrow>
         fst (decrypted w e) = 0 \<and> unwrapped_len e' = wrapped_len e - 8 \<and> wrapped_len e' = wrapped_len e
         \<and> (aeswrap_contract w \<longrightarrow>
               16 \<le> unat (wrapped_len e) \<and> unat (unwrapped_len e') = unat (wrapped_len e) - 8))
   \<and> (exporter_ready e \<and> realloc_ok w (unat (wrapped_len e - 8)) \<and> fst (decrypted w e) \<noteq> 0 \<longrightarrow>
         (\<exists>e1. unwrap_key w e = Some (fst (decrypted w e), e1, [Call_decrypt])))"
proof -
  have 1: "ctx e = None \<or> wrap_cipher e = None \<or> wrapped_key e = None \<or> wrapped_len e = 0
      \<longrightarrow> unwrap_key w e = Some (GPG_ERR_GENERAL, e, []) \<and> GPG_ERR_GENERAL \<noteq> 0"
    using unwrap_key_not_ready[of e w] by (auto simp: exporter_ready_def gpg_err_defs)
  have 3: "exporter_ready e \<and> realloc_ok w (unat (wrapped_len e - 8)) \<and> fst (decrypted w e) \<noteq> 0 \<longrightarrow>
         (\<exists>e1. unwrap_key w e = Some (fst (decrypted w e), e1, [Call_decrypt]))"
    using unwrap_key_decrypt_error[of e w] by blast
  have 2: "unwrap_key w e = Some (r, e', calls) \<and> Call_sexp_new \<in> set calls \<longrightarrow>
         fst (decrypted w e) = 0 \<and> unwrapped_len e' = wrapped_len e - 8 \<and> wrapped_len e' = wrapped_len e
         \<and> (aeswrap_contract w \<longrightarrow>
               16 \<le> unat (wrapped_len e) \<and> unat (unwrapped_len e') = unat (wrapped_len e) - 8)"
  proof (intro impI, elim conjE)
    assume run: "unwrap_key w e = Some (r, e', calls)" and past: "Call_sexp_new \<in> set calls"
    have rdy: "exporter_ready e"
      using run past unwrap_key_not_ready[of e w] by (cases "exporter_ready e") auto
    have al: "realloc_ok w (unat (wrapped_len e - 8))"
      using run past unwrap_key_enomem[OF rdy, of w]
      by (cases "realloc_ok w (unat (wrapped_len e - 8))") auto
    have dec: "fst (decrypted w e) = 0"
      using run past unwrap_key_decrypt_error[OF rdy al]
      by (cases "fst (decrypted w e) = 0") auto
    have len: "unwrapped_len e' = wrapped_len e - 8 \<and> wrapped_len e' = wrapped_len e"
    proof (cases "fst (parsed w e) = 0")
      case False
      with run unwrap_key_parse_error[OF rdy al dec] show ?thesis by auto
    next
      case True
      note u = unwrap_key_parsed[OF rdy al dec True]
      from run obtain ret3 vals where x: "rsa_extraction w e = Some (ret3, vals)"
        unfolding u by (cases "rsa_extraction w e") auto
      show ?thesis
      proof (cases "ret3 = 0")
        case rsa: True
        from run obtain r1 e1 where k1: "unwrap_rsa_key (rsa_loaded w e) = Some (r1, e1)"
          unfolding u using x rsa by (cases "unwrap_rsa_key (rsa_loaded w e)") auto
        from run have "e' = e1" unfolding u using x rsa k1 by simp
        with unwrap_rsa_key_loaded[OF x k1] show ?thesis by simp
      next
        case nrsa: False
        show ?thesis
        proof (cases "gpg_err_code ret3 = GPG_ERR_NOT_FOUND")
          case False
          from run show ?thesis
            unfolding u using x nrsa False by (auto simp: parsed_exporter_fields)
        next
          case nf: True
          from run obtain ret4 points where y: "ecc_extraction w e = Some (ret4, points)"
            unfolding u using x nrsa nf by (cases "ecc_extraction w e") auto
          from unwrap_ed25519_key_loaded[OF y] obtain r2 e2 where
            k2: "unwrap_ed25519_key (ecc_loaded w e) = Some (r2, e2)"
            "unwrapped_len e2 = wrapped_len e - 8" "wrapped_len e2 = wrapped_len e" by blast
          from run show ?thesis
            unfolding u using x y nrsa nf k2
            by (auto simp: parsed_exporter_fields split: if_splits)
        qed
      qed
    qed
    have con: "16 \<le> unat (wrapped_len e) \<and> unat (unwrapped_len e') = unat (wrapped_len e) - 8"
      if c: "aeswrap_contract w"
    proof -
      have "\<not> (unat (wrapped_len e) < 16 \<or> unat (wrapped_len e) mod 8 \<noteq> 0)"
        using c dec unfolding aeswrap_contract_def decrypted_def by blast
      then have b: "16 \<le> unat (wrapped_len e)" by simp
      then have "(8 :: 64 word) \<le> wrapped_len e"
        by (simp add: word_le_nat_alt)
      then have "unat (wrapped_len e - 8) = unat (wrapped_len e) - 8"
        by (simp add: unat_sub)
      with b len show ?thesis by simp
    qed
    from dec len con show "fst (decrypted w e) = 0 \<and> unwrapped_len e' = wrapped_len e - 8 \<and> wrapped_len e' = wrapped_len e
         \<and> (aeswrap_contract w \<longrightarrow>
               16 \<le> unat (wrapped_len e) \<and> unat (unwrapped_len e') = unat (wrapped_len e) - 8)"
      by blast
  qed
  from 1 2 3 show ?thesis by blast
qed

theorem unwrap_key_state_and_length_witness:
  "unwrap_key sample_world exporter0 = Some (GPG_ERR_GENERAL, exporter0, [])
   \<and> (\<exists>r e' calls. unwrap_key sample_world (ready_exporter ''wrapped-key-data'') = Some (r, e', calls)
         \<and> Call_sexp_new \<in> set calls \<and> aeswrap_contract sample_world
         \<and> unat (wrapped_len (ready_exporter ''wrapped-key-data'')) = 16 \<and> unat (unwrapped_len e') = 8)
   \<and> (\<exists>e1. unwrap_key sample_world (ready_exporter ''tampered-key-data'')
              = Some (GPG_ERR_CHECKSUM, e1, [Call_decrypt]))"
proof -
  let ?e = "ready_exporter ''wrapped-key-data''"
  let ?t = "ready_exporter ''tampered-key-data''"
  have 1: "unwrap_key sample_world exporter0 = Some (GPG_ERR_GENERAL, exporter0, [])"
    using unwrap_key_state_and_length[of exporter0 sample_world]
    by (simp add: exporter0_def)
  have nf: "gpg_err_code 0 \<noteq> GPG_ERR_NOT_FOUND"
    by (simp add: gpg_err_code_def gpg_err_defs)
  from sample_rsa_loaded obtain r e' where
    k: "unwrap_rsa_key (rsa_loaded sample_world ?e) = Some (r, e')" by blast
  have run: "unwrap_key sample_world ?e =
      Some (r, e', [Call_decrypt, Call_sexp_new, Call_extract_param ''private-key!rsa''])"
    using unwrap_key_parsed[of ?e sample_world] sample_ready sample_stages k by simp
  have past: "Call_sexp_new \<in> set [Call_decrypt, Call_sexp_new, Call_extract_param ''private-key!rsa'']"
    by simp
  from unwrap_key_state_and_length[of ?e sample_world r e'
          "[Call_decrypt, Call_sexp_new, Call_extract_param ''private-key!rsa'']"]
       run past sample_stages(2)
  have "unat (unwrapped_len e') = unat (wrapped_len ?e) - 8" by blast
  then have 2: "unat (wrapped_len ?e) = 16 \<and> unat (unwrapped_len e') = 8"
    by (simp add: sample_ready)
  have t: "exporter_ready ?t" "realloc_ok sample_world (unat (wrapped_len ?t - 8))"
    "decrypted sample_world ?t = (GPG_ERR_CHECKSUM, [])"
    by (simp_all add: exporter_ready_def ready_exporter_def exporter0_def sample_world_def
          decrypted_def)
  have "fst (decrypted sample_world ?t) \<noteq> 0" by (simp add: t gpg_err_defs)
  with unwrap_key_state_and_length[of ?t sample_world] t(1,2)
  have "\<exists>e1. unwrap_key sample_world ?t = Some (fst (decrypted sample_world ?t), e1, [Call_decrypt])"
    by blast
  then have 3: "\<exists>e1. unwrap_key sample_world ?t = Some (GPG_ERR_CHECKSUM, e1, [Call_decrypt])"
    by (simp add: t)
  from 1 run past 2 3 sample_stages(2) show ?thesis by blast
qed

text \<open>
  Claim C4. Once the key expression is parsed, \<open>unwrap_key\<close> first asks for the RSA
  schema. When that extraction succeeds, \<open>unwrap_key\<close> does what \<open>unwrap_rsa_key\<close>
  does on the extracted numbers, whether that returns or not, and makes no further
  call of the library itself. When it fails with an error whose code is not
  \<open>GPG_ERR_NOT_FOUND\<close>, that error is returned at once. Only when the code is
  \<open>GPG_ERR_NOT_FOUND\<close> does \<open>unwrap_key\<close> ask for the ECC schema: on success the result
  is that of \<open>unwrap_ed25519_key\<close>, which returns, and when the ECC extraction fails
  too, \<open>unwrap_key\<close> fails with that error. In both cases of failure no key type is
  set. An extraction that does not return leaves \<open>unwrap_key\<close> without a result.
\<close>

theorem unwrap_key_schema_precedence:
  assumes "exporter_ready e" and "realloc_ok w (unat (wrapped_len e - 8))"
      and "fst (decrypted w e) = 0" and "fst (parsed w e) = 0"
  shows "(rsa_extraction w e = None \<longrightarrow> unwrap_key w e = None)
     \<and> (rsa_extraction w e = Some (0, vals) \<longrightarrow>
          unwrap_key w e =
            (case unwrap_rsa_key (rsa_loaded w e) of
               None \<Rightarrow> None
             | Some (r, e') \<Rightarrow>
                 Some (r, e', [Call_decrypt, Call_sexp_new, Call_extract_param ''private-key!rsa''])))
     \<and> (rsa_extraction w e = Some (err, vals) \<and> err \<noteq> 0 \<and> gpg_err_code err \<noteq> GPG_ERR_NOT_FOUND \<longrightarrow>
          unwrap_key w e =
            Some (err, parsed_exporter w e,
                  [Call_decrypt, Call_sexp_new, Call_extract_param ''private-key!rsa''])
          \<and> ktype (parsed_exporter w e) = ktype e)
     \<and> (rsa_extraction w e = Some (err, vals) \<and> gpg_err_code err = GPG_ERR_NOT_FOUND \<longrightarrow>
          (ecc_extraction w e = None \<longrightarrow> unwrap_key w e = None)
        \<and> (ecc_extraction w e = Some (0, points) \<longrightarrow>
             (\<exists>r e'. unwrap_ed25519_key (ecc_loaded w e) = Some (r, e')
                \<and> unwrap_key w e =
                    Some (r, e', [Call_decrypt, Call_sexp_new, Call_extract_param ''private-key!rsa'',
                                  Call_extract_param ''private-key!ecc''])))
        \<and> (ecc_extraction w e = Some (err2, points) \<and> err2 \<noteq> 0 \<longrightarrow>
             unwrap_key w e =
               Some (err2, parsed_exporter w e,
                     [Call_decrypt, Call_sexp_new, Call_extract_param ''private-key!rsa'',
                      Call_extract_param ''private-key!ecc''])
             \<and> ktype (parsed_exporter w e) = ktype e))"
proof -
  note u = unwrap_key_parsed[OF assms]
  have nf: "gpg_err_code 0 \<noteq> GPG_ERR_NOT_FOUND"
    by (simp add: gpg_err_code_def gpg_err_defs)
  have 1: "rsa_extraction w e = None \<longrightarrow> unwrap_key w e = None"
    by (simp add: u)
  have 2: "rsa_extraction w e = Some (0, vals) \<longrightarrow>
          unwrap_key w e =
            (case unwrap_rsa_key (rsa_loaded w e) of
               None \<Rightarrow> None
             | Some (r, e') \<Rightarrow>
                 Some (r, e', [Call_decrypt, Call_sexp_new, Call_extract_param ''private-key!rsa'']))"
    by (simp add: u)
  have 3: "rsa_extraction w e = Some (err, vals) \<and> err \<noteq> 0 \<and> gpg_err_code err \<noteq> GPG_ERR_NOT_FOUND \<longrightarrow>
          unwrap_key w e =
            Some (err, parsed_exporter w e,
                  [Call_decrypt, Call_sexp_new, Call_extract_param ''private-key!rsa''])
          \<and> ktype (parsed_exporter w e) = ktype e"
    by (simp add: u parsed_exporter_fields)
  have 4: "(ecc_extraction w e = None \<longrightarrow> unwrap_key w e = None)
        \<and> (ecc_extraction w e = Some (0, points) \<longrightarrow>
             (\<exists>r e'. unwrap_ed25519_key (ecc_loaded w e) = Some (r, e')
                \<and> unwrap_key w e =
                    Some (r, e', [Call_decrypt, Call_sexp_new, Call_extract_param ''private-key!rsa'',
                                  Call_extract_param ''private-key!ecc''])))
        \<and> (ecc_extraction w e = Some (err2, points) \<and> err2 \<noteq> 0 \<longrightarrow>
             unwrap_key w e =
               Some (err2, parsed_exporter w e,
                     [Call_decrypt, Call_sexp_new, Call_extract_param ''private-key!rsa'',
                      Call_extract_param ''private-key!ecc''])
             \<and> ktype (parsed_exporter w e) = ktype e)"
    if x: "rsa_extraction w e = Some (err, vals)" and c: "gpg_err_code err = GPG_ERR_NOT_FOUND"
  proof -
    have e0: "err \<noteq> 0"
    proof
      assume "err = 0"
      with c nf show False by simp
    qed
    have a: "ecc_extraction w e = None \<longrightarrow> unwrap_key w e = None"
      using x c e0 by (simp add: u)
    have b: "ecc_extraction w e = Some (0, points) \<longrightarrow>
             (\<exists>r e'. unwrap_ed25519_key (ecc_loaded w e) = Some (r, e')
                \<and> unwrap_key w e =
                    Some (r, e', [Call_decrypt, Call_sexp_new, Call_extract_param ''private-key!rsa'',
                                  Call_extract_param ''private-key!ecc'']))"
    proof
      assume y: "ecc_extraction w e = Some (0, points)"
      from unwrap_ed25519_key_loaded[OF y] obtain r e' where
        k: "unwrap_ed25519_key (ecc_loaded w e) = Some (r, e')" by blast
      have "unwrap_key w e =
              Some (r, e', [Call_decrypt, Call_sexp_new, Call_extract_param ''private-key!rsa'',
                            Call_extract_param ''private-key!ecc''])"
        using x c e0 y k by (simp add: u)
      with k show "\<exists>r e'. unwrap_ed25519_key (ecc_loaded w e) = Some (r, e')
                \<and> unwrap_key w e =
                    Some (r, e', [Call_decrypt, Call_sexp_new, Call_extract_param ''private-key!rsa'',
                                  Call_extract_param ''private-key!ecc''])"
        by blast
    qed
    have d: "ecc_extraction w e = Some (err2, points) \<and> err2 \<noteq> 0 \<longrightarrow>
             unwrap_key w e =
               Some (err2, parsed_exporter w e,
                     [Call_decrypt, Call_sexp_new, Call_extract_param ''private-key!rsa'',
                      Call_extract_param ''private-key!ecc''])
             \<and> ktype (parsed_exporter w e) = ktype e"
      using x c e0 by (simp add: u parsed_exporter_fields)
    from a b d show ?thesis by blast
  qed
  from 1 2 3 4 show ?thesis by blast
qed

theorem unwrap_key_schema_precedence_witness:
  "exporter_ready (ready_exporter ''wrapped-key-data'')
   \<and> unwrap_key no_schema_world (ready_exporter ''wrapped-key-data'')
       = Some (GPG_ERR_NOT_FOUND, parsed_exporter no_schema_world (ready_exporter ''wrapped-key-data''),
               [Call_decrypt, Call_sexp_new, Call_extract_param ''private-key!rsa'',
                Call_extract_param ''private-key!ecc''])
   \<and> ktype (parsed_exporter no_schema_world (ready_exporter ''wrapped-key-data'')) = kt_unknown
   \<and> (\<exists>e'. unwrap_key sample_world (ready_exporter ''wrapped-key-data'')
              = Some (GPG_ERR_NO_ERROR, e',
                      [Call_decrypt, Call_sexp_new, Call_extract_param ''private-key!rsa''])
         \<and> unwrap_rsa_key (rsa_loaded sample_world (ready_exporter ''wrapped-key-data''))
              = Some (GPG_ERR_NO_ERROR, e'))
   \<and> unwrap_key zero_p_world (ready_exporter ''wrapped-key-data'') = None"
proof -
  let ?e = "ready_exporter ''wrapped-key-data''"
  have nf: "gpg_err_code GPG_ERR_NOT_FOUND = GPG_ERR_NOT_FOUND" "GPG_ERR_NOT_FOUND \<noteq> 0"
    by (simp_all add: gpg_err_code_def gpg_err_defs)
  from unwrap_key_schema_precedence[where e="?e" and w=no_schema_world and err=GPG_ERR_NOT_FOUND
         and vals="(0, 0, 0, 0, 0)" and ?err2.0=GPG_ERR_NOT_FOUND and points="([], [], [], [])"]
  have a: "unwrap_key no_schema_world ?e
       = Some (GPG_ERR_NOT_FOUND, parsed_exporter no_schema_world ?e,
               [Call_decrypt, Call_sexp_new, Call_extract_param ''private-key!rsa'',
                Call_extract_param ''private-key!ecc''])
       \<and> ktype (parsed_exporter no_schema_world ?e) = ktype ?e"
    using sample_ready no_schema_stages nf by simp
  from sample_rsa_loaded obtain e2 where
    k: "unwrap_rsa_key (rsa_loaded sample_world ?e) = Some (GPG_ERR_NO_ERROR, e2)" by blast
  from unwrap_key_schema_precedence[where e="?e" and w=sample_world and vals="(33, 3, 7, 11, 3)"]
  have b: "unwrap_key sample_world ?e
             = Some (GPG_ERR_NO_ERROR, e2,
                     [Call_decrypt, Call_sexp_new, Call_extract_param ''private-key!rsa''])"
    using sample_ready sample_stages k by simp
  have z: "realloc_ok zero_p_world (unat (wrapped_len ?e - 8))" "fst (decrypted zero_p_world ?e) = 0"
    "fst (parsed zero_p_world ?e) = 0" "rsa_extraction zero_p_world ?e = Some (0, (33, 3, 7, 0, 3))"
    "unwrap_rsa_key (rsa_loaded zero_p_world ?e) = None"
    by (simp_all add: zero_p_world_def sample_world_def decrypted_def parsed_def rsa_extraction_def
          rsa_loaded_def parsed_exporter_def ready_exporter_def exporter0_def
          unwrap_rsa_key_def gcry_mpi_invm_def invm_def)
  from unwrap_key_schema_precedence[where vals="(33, 3, 7, 0, 3)", OF sample_ready(1) z(1,2,3)] z(4,5)
  have d: "unwrap_key zero_p_world ?e = None" by simp
  from a b k d sample_ready show ?thesis by simp
qed

section \<open>Properties of send_to_ssh_agent\<close>

lemma length_be32 [simp]: "length (be32 a) = 4"
  by (simp add: be32_def Let_def)

lemma be32_value_be32: "be32_value (be32 a) = a mod 2 ^ 32"
proof -
  define v where "v = a mod 2 ^ 32"
  have b: "v < 2 ^ 32" by (simp add: v_def)
  define v1 where "v1 = v div 256"
  define v2 where "v2 = v1 div 256"
  define v3 where "v3 = v2 div 256"
  have d1: "v div 2 ^ 8 = v1" by (simp add: v1_def)
  have d2: "v div 2 ^ 16 = v2" by (simp add: v2_def v1_def div_mult2_eq)
  have d3: "v div 2 ^ 24 = v3" by (simp add: v3_def v2_def v1_def div_mult2_eq)
  have s3: "v3 < 256" using b unfolding d3[symmetric] by (simp add: less_mult_imp_div_less)
  define x0 where "x0 = v mod 256"
  define x1 where "x1 = v1 mod 256"
  define x2 where "x2 = v2 mod 256"
  have e0: "v = v1 * 256 + x0" by (simp add: v1_def x0_def)
  have e1: "v1 = v2 * 256 + x1" by (simp add: v2_def x1_def)
  have e2: "v2 = v3 * 256 + x2" by (simp add: v3_def x2_def)
  have "be32_value (be32 a) = v3 mod 256 * 2 ^ 24 + x2 * 2 ^ 16 + x1 * 2 ^ 8 + x0"
    unfolding be32_def Let_def v_def[symmetric] d1 d2 d3 x0_def x1_def x2_def
    by (simp add: be32_value_def)
  also have "\<dots> = v3 * 2 ^ 24 + x2 * 2 ^ 16 + x1 * 2 ^ 8 + x0"
    using s3 by simp
  also have "\<dots> = ((v3 * 256 + x2) * 256 + x1) * 256 + x0"
    by (simp add: algebra_simps)
  also have "\<dots> = v"
    using e0 e1 e2 by simp
  finally show ?thesis by (simp add: v_def)
qed

lemma put_ok:
  "off + length bytes \<le> length buf \<Longrightarrow>
   \<exists>buf'. put bytes (buf, off) = Some (buf', off + length bytes) \<and> length buf' = length buf
      \<and> take (off + length bytes) buf' = take off buf @ bytes"
  by (simp add: put_def store_def)

lemma run_writes_ok:
  "off + length (concat blocks) \<le> length buf \<Longrightarrow>
   \<exists>buf'. run_writes blocks (buf, off) = Some (buf', off + length (concat blocks))
      \<and> length buf' = length buf
      \<and> take (off + length (concat blocks)) buf' = take off buf @ concat blocks"
proof (induction blocks arbitrary: buf off)
  case Nil
  then show ?case by simp
next
  case (Cons b blocks)
  have "off + length b \<le> length buf" using Cons.prems by simp
  from put_ok[OF this] obtain buf1 where
    p: "put b (buf, off) = Some (buf1, off + length b)" and l1: "length buf1 = length buf"
    and t1: "take (off + length b) buf1 = take off buf @ b"
    by blast
  have "(off + length b) + length (concat blocks) \<le> length buf1"
    using Cons.prems l1 by simp
  from Cons.IH[OF this] obtain buf' where
    r: "run_writes blocks (buf1, off + length b) = Some (buf', off + length b + length (concat blocks))"
    and l: "length buf' = length buf1"
    and t: "take (off + length b + length (concat blocks)) buf' = take (off + length b) buf1 @ concat blocks"
    by blast
  show ?case
    using p r l l1 t t1 by (simp add: add.assoc)
qed

lemma run_writes_full:
  assumes "length buf = length (concat blocks)"
  shows "run_writes blocks (buf, 0) = Some (concat blocks, length (concat blocks))"
proof -
  have "0 + length (concat blocks) \<le> length buf" using assms by simp
  from run_writes_ok[OF this] obtain buf' where
    r: "run_writes blocks (buf, 0) = Some (buf', 0 + length (concat blocks))"
    and l: "length buf' = length buf"
    and t: "take (0 + length (concat blocks)) buf' = take 0 buf @ concat blocks"
    by blast
  from t l assms have "buf' = concat blocks" by simp
  with r show ?thesis by simp
qed

lemma concat_wstr:
  "concat (wstr a) = be32 (case a of None \<Rightarrow> 0 | Some s \<Rightarrow> strlen s) @ (case a of None \<Rightarrow> [] | Some s \<Rightarrow> cstr s)"
proof (cases a)
  case None
  then show ?thesis by (simp add: wstr_def w32_def)
next
  case (Some s)
  have "take (strlen s) s = cstr s"
    unfolding strlen_def cstr_def by (rule takeWhile_eq_take[symmetric])
  with Some show ?thesis by (simp add: wstr_def w32_def Let_def)
qed

lemma length_concat_wstr:
  "length (concat (wstr a)) = 4 + (case a of None \<Rightarrow> 0 | Some s \<Rightarrow> strlen s)"
  by (cases a) (simp_all add: concat_wstr strlen_def)

lemma concat_w32 [simp]: "concat (w32 a) = be32 a"
  by (simp add: w32_def)

lemma concat_wbyte [simp]: "concat (wbyte x) = [char_of x]"
  by (simp add: wbyte_def)

lemma length_message_blocks:
  "length (concat (message_blocks len key_type key_blocks seconds confirm comment)) =
     4 + (1 + 4 + strlen key_type + length (concat key_blocks)
          + 4 + (case comment of None \<Rightarrow> 0 | Some s \<Rightarrow> strlen s)
          + (if confirm \<noteq> 0 then 1 else 0) + (if seconds \<noteq> 0 then 5 else 0))"
  by (simp add: message_blocks_def length_concat_wstr)

lemma message_blocks_head:
  "\<exists>rest. concat (message_blocks len key_type key_blocks seconds confirm comment)
      = be32 len @ char_of (opcode seconds confirm) # rest"
  by (simp add: message_blocks_def)


lemma ed25519_fields_length:
  "ed25519_fields e = Some (Some key_blocks) \<Longrightarrow> length (concat key_blocks) = 4 + 32 + 4 + 64"
  by (auto simp: ed25519_fields_def gcry_mpi_get_opaque_def
           split: option.splits gcry_mpi.splits if_splits)

lemma ssh_message_fill:
  assumes c: "malloc_contract (libc_malloc w)"
    and kt: "(if ktype e = kt_rsa
               then map_option (\<lambda>bs. (''ssh-rsa'', sum_list (map length bs))) (rsa_fields e)
               else Some (''ssh-ed25519'', 4 + 32 + 4 + 64)) = Some (kt, length (concat bs))"
    and bs: "(if ktype e = kt_rsa then map_option Some (rsa_fields e) else ed25519_fields e) = Some (Some bs)"
    and k: "ktype e = kt_rsa \<or> ktype e = kt_ed25519"
    and n: "n = 1 + 4 + strlen kt + length (concat bs)
                        + 4 + (case comment of None \<Rightarrow> 0 | Some s \<Rightarrow> strlen s)
                        + (if confirm \<noteq> 0 then 1 else 0)
                        + (if seconds \<noteq> 0 then 5 else 0)"
  shows "ssh_message w e seconds confirm comment =
           (case libc_malloc w (4 + n) of
              None \<Rightarrow> Gave_up
            | Some msgbuf \<Rightarrow> Built (concat (message_blocks n kt bs seconds confirm comment), n))"
    and "length (concat (message_blocks n kt bs seconds confirm comment)) = 4 + n"
proof -
  have nk: "\<not> (ktype e \<noteq> kt_rsa \<and> ktype e \<noteq> kt_ed25519)" using k by blast
  show l: "length (concat (message_blocks n kt bs seconds confirm comment)) = 4 + n"
    unfolding length_message_blocks n by simp
  show "ssh_message w e seconds confirm comment =
           (case libc_malloc w (4 + n) of
              None \<Rightarrow> Gave_up
            | Some msgbuf \<Rightarrow> Built (concat (message_blocks n kt bs seconds confirm comment), n))"
  proof (cases "libc_malloc w (4 + n)")
    case None
    show ?thesis
      unfolding ssh_message_def if_not_P[OF nk] kt
      using None by (simp add: Let_def n)
  next
    case (Some msgbuf)
    have "length msgbuf = 4 + n" using c Some by (simp add: malloc_contract_def)
    then have "length msgbuf = length (concat (message_blocks n kt bs seconds confirm comment))"
      using l by simp
    from run_writes_full[OF this]
    have r: "run_writes (message_blocks n kt bs seconds confirm comment) (msgbuf, 0)
          = Some (concat (message_blocks n kt bs seconds confirm comment),
                  length (concat (message_blocks n kt bs seconds confirm comment)))" .
    show ?thesis
      unfolding ssh_message_def if_not_P[OF nk] kt bs
      using Some r n by (simp add: Let_def)
  qed
qed

lemma ssh_message_ed25519:
  assumes "malloc_contract (libc_malloc w)" and "ktype e = kt_ed25519"
    and "key_q e = Some (Mpi_opaque (Some vq))" and "key_d e = Some (Mpi_opaque (Some vd))"
    and "length vq = 33" and "length vd = 32"
    and "n = 124 + (case comment of None \<Rightarrow> 0 | Some s \<Rightarrow> strlen s)
             + (if confirm \<noteq> 0 then 1 else 0) + (if seconds \<noteq> 0 then 5 else 0)"
    and "libc_malloc w (4 + n) \<noteq> None"
  shows "\<exists>msg. ssh_message w e seconds confirm comment = Built (msg, n)"
proof -
  define bs where "bs = w32 32 @ [take 32 (drop 1 vq)] @ w32 64 @ [take 32 vd] @ [take 32 (drop 1 vq)]"
  have f: "ed25519_fields e = Some (Some bs)"
    using assms(3-6) by (simp add: ed25519_fields_def gcry_mpi_get_opaque_def bs_def)
  have lb: "length (concat bs) = 4 + 32 + 4 + 64"
    using ed25519_fields_length[OF f] .
  have nr: "ktype e \<noteq> kt_rsa" using assms(2) by simp
  have kt: "(if ktype e = kt_rsa
               then map_option (\<lambda>bs. (''ssh-rsa'', sum_list (map length bs))) (rsa_fields e)
               else Some (''ssh-ed25519'', 4 + 32 + 4 + 64)) = Some (''ssh-ed25519'', length (concat bs))"
    using nr lb by simp
  have b: "(if ktype e = kt_rsa then map_option Some (rsa_fields e) else ed25519_fields e) = Some (Some bs)"
    using nr f by simp
  have n: "n = 1 + 4 + strlen ''ssh-ed25519'' + length (concat bs)
                        + 4 + (case comment of None \<Rightarrow> 0 | Some s \<Rightarrow> strlen s)
                        + (if confirm \<noteq> 0 then 1 else 0)
                        + (if seconds \<noteq> 0 then 5 else 0)"
    unfolding lb assms(7) by (simp add: strlen_def cstr_def NUL_def)
  from ssh_message_fill(1)[OF assms(1) kt b _ n] assms(2,8)
  show ?thesis by auto
qed

lemma ssh_message_rsa:
  assumes "malloc_contract (libc_malloc w)" and "ktype e = kt_rsa" and "rsa_fields e = Some bs"
    and "n = 12 + length (concat bs) + 4 + (case comment of None \<Rightarrow> 0 | Some s \<Rightarrow> strlen s)
             + (if confirm \<noteq> 0 then 1 else 0) + (if seconds \<noteq> 0 then 5 else 0)"
  shows "ssh_message w e seconds confirm comment =
           (case libc_malloc w (4 + n) of
              None \<Rightarrow> Gave_up
            | Some msgbuf \<Rightarrow> Built (concat (message_blocks n ''ssh-rsa'' bs seconds confirm comment), n))"
proof -
  have kt: "(if ktype e = kt_rsa
             then map_option (\<lambda>bs. (''ssh-rsa'', sum_list (map length bs))) (rsa_fields e)
             else Some (''ssh-ed25519'', 4 + 32 + 4 + 64)) = Some (''ssh-rsa'', length (concat bs))"
    using assms(2,3) by (simp add: length_concat)
  have b: "(if ktype e = kt_rsa then map_option Some (rsa_fields e) else ed25519_fields e) = Some (Some bs)"
    using assms(2,3) by simp
  have n: "n = 1 + 4 + strlen ''ssh-rsa'' + length (concat bs)
                + 4 + (case comment of None \<Rightarrow> 0 | Some s \<Rightarrow> strlen s)
                + (if confirm \<noteq> 0 then 1 else 0) + (if seconds \<noteq> 0 then 5 else 0)"
    unfolding assms(4) by (simp add: strlen_def cstr_def NUL_def)
  from ssh_message_fill(1)[OF assms(1) kt b _ n] assms(2) show ?thesis by simp
qed

text \<open>
  What a message that has been built consists of: the block that \<^verbatim>\<open>malloc\<close> gave, with
  the writes of the macros run over it from offset 0, which end at offset \<open>4 + len\<close>
  and leave no byte of the block unwritten.
\<close>

lemma ssh_message_Built:
  assumes "malloc_contract (libc_malloc w)"
      and "ssh_message w e seconds confirm comment = Built (msg, len)"
  shows "\<exists>key_type key_blocks buf.
           libc_malloc w (4 + len) = Some buf
           \<and> run_writes (message_blocks len key_type key_blocks seconds confirm comment) (buf, 0)
               = Some (msg, 4 + len)
           \<and> msg = concat (message_blocks len key_type key_blocks seconds confirm comment)
           \<and> length msg = 4 + len
           \<and> len = 1 + 4 + strlen key_type + length (concat key_blocks)
                      + 4 + (case comment of None \<Rightarrow> 0 | Some s \<Rightarrow> strlen s)
                      + (if confirm \<noteq> 0 then 1 else 0) + (if seconds \<noteq> 0 then 5 else 0)
           \<and> (ktype e = kt_rsa \<and> key_type = ''ssh-rsa'' \<and> rsa_fields e = Some key_blocks
                \<or> ktype e = kt_ed25519 \<and> key_type = ''ssh-ed25519''
                    \<and> ed25519_fields e = Some (Some key_blocks))"
proof -
  have built: "\<exists>key_type key_blocks buf.
           libc_malloc w (4 + len) = Some buf
           \<and> run_writes (message_blocks len key_type key_blocks seconds confirm comment) (buf, 0)
               = Some (msg, 4 + len)
           \<and> msg = concat (message_blocks len key_type key_blocks seconds confirm comment)
           \<and> length msg = 4 + len
           \<and> len = 1 + 4 + strlen key_type + length (concat key_blocks)
                      + 4 + (case comment of None \<Rightarrow> 0 | Some s \<Rightarrow> strlen s)
                      + (if confirm \<noteq> 0 then 1 else 0) + (if seconds \<noteq> 0 then 5 else 0)
           \<and> (ktype e = kt_rsa \<and> key_type = ''ssh-rsa'' \<and> rsa_fields e = Some key_blocks
                \<or> ktype e = kt_ed25519 \<and> key_type = ''ssh-ed25519''
                    \<and> ed25519_fields e = Some (Some key_blocks))"
    if kt: "(if ktype e = kt_rsa
             then map_option (\<lambda>bs. (''ssh-rsa'', sum_list (map length bs))) (rsa_fields e)
             else Some (''ssh-ed25519'', 4 + 32 + 4 + 64)) = Some (ty, length (concat bs))"
    and b: "(if ktype e = kt_rsa then map_option Some (rsa_fields e) else ed25519_fields e) = Some (Some bs)"
    and k: "ktype e = kt_rsa \<or> ktype e = kt_ed25519"
    and which: "ktype e = kt_rsa \<and> ty = ''ssh-rsa'' \<and> rsa_fields e = Some bs
                \<or> ktype e = kt_ed25519 \<and> ty = ''ssh-ed25519'' \<and> ed25519_fields e = Some (Some bs)"
    for ty bs
  proof -
    define n where "n = 1 + 4 + strlen ty + length (concat bs)
                      + 4 + (case comment of None \<Rightarrow> 0 | Some s \<Rightarrow> strlen s)
                      + (if confirm \<noteq> 0 then 1 else 0)
                      + (if seconds \<noteq> 0 then 5 else 0)"
    note f = ssh_message_fill[OF assms(1) kt b k n_def]
    from f(1) assms(2) obtain buf where
      m: "libc_malloc w (4 + n) = Some buf"
      and e: "msg = concat (message_blocks n ty bs seconds confirm comment)" and l: "len = n"
      by (cases "libc_malloc w (4 + n)") auto
    have lb: "length buf = length (concat (message_blocks n ty bs seconds confirm comment))"
      using assms(1) m f(2) by (simp add: malloc_contract_def)
    from run_writes_full[OF lb] f(2)
    have r: "run_writes (message_blocks n ty bs seconds confirm comment) (buf, 0) = Some (msg, 4 + n)"
      by (simp add: e)
    have lm: "length msg = 4 + n" using f(2) e by simp
    show ?thesis
      apply (rule exI[of _ ty], rule exI[of _ bs], rule exI[of _ buf])
      using m r e lm which unfolding l n_def[symmetric] by simp
  qed
  show ?thesis
  proof (cases "ktype e")
    case kt_unknown
    with assms(2) show ?thesis by (simp add: ssh_message_def)
  next
    case kt_rsa
    show ?thesis
    proof (cases "rsa_fields e")
      case None
      with kt_rsa assms(2) show ?thesis by (simp add: ssh_message_def)
    next
      case (Some bs)
      show ?thesis
        by (rule built[of "''ssh-rsa''" bs]) (use kt_rsa Some in \<open>simp_all add: length_concat\<close>)
    qed
  next
    case kt_ed25519
    show ?thesis
    proof (cases "ed25519_fields e")
      case None
      with kt_ed25519 assms(2) show ?thesis
        by (simp add: ssh_message_def Let_def split: option.splits)
    next
      case (Some obs)
      show ?thesis
      proof (cases obs)
        case None
        with Some kt_ed25519 assms(2) show ?thesis
          by (simp add: ssh_message_def Let_def split: option.splits)
      next
        case bsome: (Some bs)
        have lb: "length (concat bs) = 4 + 32 + 4 + 64"
          using ed25519_fields_length Some bsome by blast
        show ?thesis
          by (rule built[of "''ssh-ed25519''" bs]) (use kt_ed25519 Some bsome lb in simp_all)
      qed
    qed
  qed
qed

text \<open>The length field of a message in general: \<open>len\<close> reduced to 32 bits.\<close>

lemma ssh_message_length_field:
  assumes "malloc_contract (libc_malloc w)"
      and "ssh_message w e seconds confirm comment = Built (msg, len)"
  shows "be32_value (take 4 msg) = len mod 2 ^ 32"
    and "msg ! 4 = char_of (opcode seconds confirm)"
proof -
  from ssh_message_Built[OF assms] obtain kt bs where
    m: "msg = concat (message_blocks len kt bs seconds confirm comment)"
    by blast
  from message_blocks_head[of len kt bs seconds confirm comment] m obtain rest where
    h: "msg = be32 len @ char_of (opcode seconds confirm) # rest" by auto
  have t: "take 4 msg = be32 len" by (simp add: h)
  show "be32_value (take 4 msg) = len mod 2 ^ 32" by (simp only: t be32_value_be32)
  show "msg ! 4 = char_of (opcode seconds confirm)"
    using nth_append_length[of "be32 len" "char_of (opcode seconds confirm)" rest]
    by (simp add: h)
qed

text \<open>The sizes of the blocks of the key, under the bounds of the caller.\<close>

lemma print_ssh_length:
  "gcry_mpi_print_ssh a = Some b \<Longrightarrow> length b \<le> 5 + mpi_nbytes a"
  by (auto simp: gcry_mpi_print_ssh_def mpi_nbytes_def Let_def
           split: option.splits gcry_mpi.splits list.splits if_splits)

lemma rsa_fields_length:
  assumes "rsa_fields e = Some bs"
      and "list_all (\<lambda>a. mpi_nbytes a \<le> 65535) [key_n e, key_e e, key_d e, iqmp e, key_p e, key_q e]"
  shows "length (concat bs) \<le> 393240"
proof -
  from assms(1) obtain bn be bd bi bp bq where
    p: "gcry_mpi_print_ssh (key_n e) = Some bn" "gcry_mpi_print_ssh (key_e e) = Some be"
       "gcry_mpi_print_ssh (key_d e) = Some bd" "gcry_mpi_print_ssh (iqmp e) = Some bi"
       "gcry_mpi_print_ssh (key_p e) = Some bp" "gcry_mpi_print_ssh (key_q e) = Some bq"
    and bs: "bs = [bn, be, bd, bi, bp, bq]"
    by (auto simp: rsa_fields_def split: option.splits)
  have "length bn \<le> 65540" "length be \<le> 65540" "length bd \<le> 65540"
       "length bi \<le> 65540" "length bp \<le> 65540" "length bq \<le> 65540"
    using p[THEN print_ssh_length] assms(2) by simp_all
  then show ?thesis by (simp add: bs)
qed

lemma print_ssh_num: "is_num a \<Longrightarrow> \<exists>b. gcry_mpi_print_ssh a = Some b"
  by (auto simp: is_num_def gcry_mpi_print_ssh_def Let_def split: option.splits gcry_mpi.splits)

lemma ssh_message_complete:
  assumes "malloc_contract (libc_malloc w)" and "key_complete e" and "\<And>n. libc_malloc w n \<noteq> None"
  shows "\<exists>msg len. ssh_message w e seconds confirm comment = Built (msg, len)"
proof -
  from assms(2) consider
    (rsa) "ktype e = kt_rsa" "list_all is_num [key_n e, key_e e, key_d e, iqmp e, key_p e, key_q e]"
    | (ed) "ktype e = kt_ed25519" "is_opaque (key_q e) 33" "is_opaque (key_d e) 32"
    unfolding key_complete_def by blast
  then show ?thesis
  proof cases
    case rsa
    from rsa(2) obtain bn be bd bi bp bq where
      "gcry_mpi_print_ssh (key_n e) = Some bn" "gcry_mpi_print_ssh (key_e e) = Some be"
      "gcry_mpi_print_ssh (key_d e) = Some bd" "gcry_mpi_print_ssh (iqmp e) = Some bi"
      "gcry_mpi_print_ssh (key_p e) = Some bp" "gcry_mpi_print_ssh (key_q e) = Some bq"
      using print_ssh_num[of "key_n e"] print_ssh_num[of "key_e e"] print_ssh_num[of "key_d e"]
        print_ssh_num[of "iqmp e"] print_ssh_num[of "key_p e"] print_ssh_num[of "key_q e"]
      by auto
    then have f: "rsa_fields e = Some [bn, be, bd, bi, bp, bq]"
      by (simp add: rsa_fields_def)
    define n where "n = 12 + length (concat [bn, be, bd, bi, bp, bq]) + 4
             + (case comment of None \<Rightarrow> 0 | Some s \<Rightarrow> strlen s)
             + (if confirm \<noteq> 0 then 1 else 0) + (if seconds \<noteq> 0 then 5 else 0)"
    from assms(3)[of "4 + n"] obtain buf where m: "libc_malloc w (4 + n) = Some buf" by blast
    from ssh_message_rsa[OF assms(1) rsa(1) f n_def] m
    show ?thesis by simp
  next
    case ed
    from ed(2,3) obtain vq vd where
      k: "key_q e = Some (Mpi_opaque (Some vq))" "key_d e = Some (Mpi_opaque (Some vd))"
         "length vq = 33" "length vd = 32"
      by (auto simp: is_opaque_def split: option.splits gcry_mpi.splits)
    from ssh_message_ed25519[where seconds=seconds and confirm=confirm and comment=comment,
           OF assms(1) ed(1) k refl assms(3)]
    show ?thesis by blast
  qed
qed

text \<open>
  The bounds on the key hold for every key that \<open>unwrap_key\<close> has unwrapped from an
  exporter without a key, when the numbers that the library extracts are bounded: the
  number \<open>iqmp\<close> that \<open>unwrap_rsa_key\<close> adds is smaller than \<open>p\<close>.
\<close>

lemma be_bytes_length: "length (be_bytes v) = (if v = 0 then 0 else 1 + length (be_bytes (v div 256)))"
  by (subst be_bytes.simps) simp

lemma be_bytes_length_mono: "a \<le> b \<Longrightarrow> length (be_bytes a) \<le> length (be_bytes b)"
proof (induction b arbitrary: a rule: less_induct)
  case (less b)
  show ?case
  proof (cases "a = 0")
    case True
    then show ?thesis by (simp add: be_bytes_length[of 0])
  next
    case False
    with less.prems have b0: "b \<noteq> 0" by simp
    have d: "a div 256 \<le> b div 256" using less.prems by (rule div_le_mono)
    have "b div 256 < b" using b0 by simp
    from less.IH[OF this d] show ?thesis
      using False b0 by (simp add: be_bytes_length[of a] be_bytes_length[of b])
  qed
qed

lemma data_cb_no_key: "no_key e \<Longrightarrow> data_cb w e k = Some (r, e') \<Longrightarrow> no_key e'"
  by (auto simp: data_cb_def extend_wrapped_key_def no_key_def Let_def split: if_splits)

lemma data_cbs_no_key: "no_key e \<Longrightarrow> data_cbs w e cs = Some (r, e') \<Longrightarrow> no_key e'"
proof (induction cs arbitrary: e)
  case Nil
  then show ?case by simp
next
  case (Cons c cs)
  from Cons.prems(2) obtain r1 e1 where s: "data_cb w e c = Some (r1, e1)"
    by (cases "data_cb w e c") auto
  note n1 = data_cb_no_key[OF Cons.prems(1) s]
  show ?case
  proof (cases "r1 = 0")
    case True
    with Cons.prems(2) s have "data_cbs w e1 cs = Some (r, e')" by simp
    from Cons.IH[OF n1 this] show ?thesis .
  next
    case False
    with Cons.prems(2) s have "e' = e1" by simp
    with n1 show ?thesis by simp
  qed
qed

lemma transact_no_key: "no_key e \<Longrightarrow> transact w e command = Some (r, e') \<Longrightarrow> no_key e'"
proof -
  assume n: "no_key e" and t: "transact w e command = Some (r, e')"
  obtain chunks final where a: "agent_reply w command = (chunks, final)"
    by (cases "agent_reply w command")
  show ?thesis
  proof (cases "ctx e")
    case None
    with t n show ?thesis by (simp add: transact_def)
  next
    case (Some c)
    obtain en where c: "c = Assuan_context en" by (cases c)
    show ?thesis
    proof (cases en)
      case No_engine
      with t Some c show ?thesis by (simp add: transact_def)
    next
      case Engine_closed
      with t n Some c show ?thesis by (simp add: transact_def)
    next
      case Connected
      with t Some c a obtain r1 e1 where d: "data_cbs w e chunks = Some (r1, e1)" and "e' = e1"
        by (cases "data_cbs w e chunks") (auto simp: transact_def split: if_splits)
      with data_cbs_no_key[OF n d] show ?thesis by simp
    qed
  qed
qed

lemma unwrap_key_bounds:
  assumes "unwrap_key w e = Some (0, e', calls)" and "no_key e" and "extraction_bounded w"
  shows "list_all (\<lambda>a. mpi_nbytes a \<le> 65535) [key_n e', key_e e', key_d e', iqmp e', key_p e', key_q e']"
proof -
  have g: "GPG_ERR_GENERAL \<noteq> 0" "GPG_ERR_ENOMEM \<noteq> 0" by (simp_all add: gpg_err_defs)
  have rdy: "exporter_ready e"
    using assms(1) unwrap_key_not_ready[of e w] g by (cases "exporter_ready e") auto
  have al: "realloc_ok w (unat (wrapped_len e - 8))"
    using assms(1) unwrap_key_enomem[OF rdy, of w] g
    by (cases "realloc_ok w (unat (wrapped_len e - 8))") auto
  have dec: "fst (decrypted w e) = 0"
    using assms(1) unwrap_key_decrypt_error[OF rdy al]
    by (cases "fst (decrypted w e) = 0") auto
  have par: "fst (parsed w e) = 0"
    using assms(1) unwrap_key_parse_error[OF rdy al dec]
    by (cases "fst (parsed w e) = 0") auto
  note u = unwrap_key_parsed[OF rdy al dec par]
  from assms(1) obtain ret3 vals where x: "rsa_extraction w e = Some (ret3, vals)"
    unfolding u by (cases "rsa_extraction w e") auto
  obtain vn ve vd vp vq where v: "vals = (vn, ve, vd, vp, vq)" by (cases vals) auto
  have nk: "key_n (parsed_exporter w e) = None" "key_e (parsed_exporter w e) = None"
    "key_d (parsed_exporter w e) = None" "key_p (parsed_exporter w e) = None"
    "iqmp (parsed_exporter w e) = None"
    using assms(2) by (simp_all add: no_key_def parsed_exporter_def)
  show ?thesis
  proof (cases "ret3 = 0")
    case True
    from assms(1) have k: "unwrap_rsa_key (rsa_loaded w e) = Some (0, e')"
      unfolding u using x True by (cases "unwrap_rsa_key (rsa_loaded w e)") auto
    have f: "key_n (rsa_loaded w e) = Some (Mpi_num vn)" "key_e (rsa_loaded w e) = Some (Mpi_num ve)"
      "key_d (rsa_loaded w e) = Some (Mpi_num vd)" "key_p (rsa_loaded w e) = Some (Mpi_num vp)"
      "key_q (rsa_loaded w e) = Some (Mpi_num vq)"
      by (simp_all add: rsa_loaded_def x v)
    from k obtain b i where i: "invm vq vp = Some (b, i)"
      unfolding unwrap_rsa_key_cases[OF f(5,4)] by (cases "invm vq vp") auto
    from k i have b: "b" and e': "e' = (rsa_loaded w e)\<lparr>iqmp := Some (Mpi_num i), ktype := kt_rsa\<rparr>"
      unfolding unwrap_rsa_key_cases[OF f(5,4)] by (auto simp: gpg_err_defs split: if_splits)
    from i b invm_True[of vq vp i] have "i \<le> vp" by simp
    then have li: "length (be_bytes i) \<le> length (be_bytes vp)" by (rule be_bytes_length_mono)
    have "list_all (\<lambda>v. length (be_bytes v) \<le> 65535) [vn, ve, vd, vp, vq]"
      using assms(3) x unfolding extraction_bounded_def rsa_extraction_def v by blast
    with li show ?thesis
      by (simp add: e' f mpi_nbytes_def)
  next
    case False
    from assms(1) False x have nf: "gpg_err_code ret3 = GPG_ERR_NOT_FOUND"
      unfolding u by (auto split: if_splits)
    from assms(1) obtain ret4 points where y: "ecc_extraction w e = Some (ret4, points)"
      unfolding u using x False nf by (cases "ecc_extraction w e") auto
    from assms(1) have r4: "ret4 = 0"
      unfolding u using x False nf y by (auto split: if_splits)
    obtain vc vf vq' vd' where pt: "points = (vc, vf, vq', vd')" by (cases points) auto
    have l: "curve (ecc_loaded w e) = Some (Mpi_opaque (Some vc))"
      "flags (ecc_loaded w e) = Some (Mpi_opaque (Some vf))"
      "key_q (ecc_loaded w e) = Some (Mpi_opaque (Some vq'))"
      "key_d (ecc_loaded w e) = Some (Mpi_opaque (Some vd'))"
      by (simp_all add: ecc_loaded_def y pt)
    have m: "key_n (ecc_loaded w e) = None" "key_e (ecc_loaded w e) = None"
      "key_p (ecc_loaded w e) = None" "iqmp (ecc_loaded w e) = None"
      using nk by (simp_all add: ecc_loaded_def y pt)
    from assms(1) have k: "unwrap_ed25519_key (ecc_loaded w e) = Some (0, e')"
      unfolding u using x False nf y r4 by (cases "unwrap_ed25519_key (ecc_loaded w e)") auto
    then have "length vq' = 33 \<and> length vd' = 32 \<and> e' = (ecc_loaded w e)\<lparr>ktype := kt_ed25519\<rparr>"
      unfolding unwrap_ed25519_key_cases[OF l]
      by (auto simp: gpg_err_defs split: if_splits)
    then show ?thesis
      by (simp add: l m mpi_nbytes_def)
  qed
qed

text \<open>
  Claim C6. Under the bounds that hold for the only caller, a message that
  \<open>send_to_ssh_agent\<close> builds is the block of \<open>4 + len\<close> bytes that \<^verbatim>\<open>malloc\<close> gave,
  filled exactly by the writes of the macros, which end at offset \<open>4 + len\<close>; \<open>len\<close> is
  below \<open>2 ^ 32\<close>, so the first four bytes, the declared total length, hold the number of
  bytes that follow them; the byte after them is the constrained-add opcode if and
  only if a confirmation or a non-zero lifetime is requested, and the plain add-identity
  opcode otherwise; and this message, whole, is what the function hands to \<^verbatim>\<open>write\<close>.
  A message is built for every complete key, comment and constraint combination when
  \<^verbatim>\<open>malloc\<close> does not fail.
\<close>

theorem ssh_message_length_and_opcode:
  assumes "malloc_contract (libc_malloc w)" and "caller_bounds e comment"
  shows "(ssh_message w e seconds confirm comment = Built (msg, len) \<longrightarrow>
            (\<exists>key_type key_blocks buf.
                libc_malloc w (4 + len) = Some buf \<and> length buf = 4 + len
              \<and> run_writes (message_blocks len key_type key_blocks seconds confirm comment) (buf, 0)
                  = Some (msg, 4 + len)
              \<and> msg = concat (message_blocks len key_type key_blocks seconds confirm comment))
          \<and> length msg = 4 + len
          \<and> len < 2 ^ 32
          \<and> be32_value (take 4 msg) = length (drop 4 msg)
          \<and> (msg ! 4 = char_of SSH2_AGENTC_ADD_ID_CONSTRAINED \<longleftrightarrow> confirm \<noteq> 0 \<or> seconds \<noteq> 0)
          \<and> (msg ! 4 = char_of SSH2_AGENTC_ADD_IDENTITY \<longleftrightarrow> confirm = 0 \<and> seconds = 0)
          \<and> (\<exists>status. send_to_ssh_agent w e seconds confirm comment = Some (status, [msg])))
     \<and> (key_complete e \<and> (\<forall>n. libc_malloc w n \<noteq> None) \<longrightarrow>
          (\<exists>m l. ssh_message w e seconds confirm comment = Built (m, l)))"
proof -
  have a: "(\<exists>key_type key_blocks buf.
                libc_malloc w (4 + len) = Some buf \<and> length buf = 4 + len
              \<and> run_writes (message_blocks len key_type key_blocks seconds confirm comment) (buf, 0)
                  = Some (msg, 4 + len)
              \<and> msg = concat (message_blocks len key_type key_blocks seconds confirm comment))
          \<and> length msg = 4 + len
          \<and> len < 2 ^ 32
          \<and> be32_value (take 4 msg) = length (drop 4 msg)
          \<and> (msg ! 4 = char_of SSH2_AGENTC_ADD_ID_CONSTRAINED \<longleftrightarrow> confirm \<noteq> 0 \<or> seconds \<noteq> 0)
          \<and> (msg ! 4 = char_of SSH2_AGENTC_ADD_IDENTITY \<longleftrightarrow> confirm = 0 \<and> seconds = 0)
          \<and> (\<exists>status. send_to_ssh_agent w e seconds confirm comment = Some (status, [msg]))"
    if built: "ssh_message w e seconds confirm comment = Built (msg, len)"
  proof -
    from ssh_message_Built[OF assms(1) built] obtain kt bs buf where
      m: "libc_malloc w (4 + len) = Some buf"
      and r: "run_writes (message_blocks len kt bs seconds confirm comment) (buf, 0) = Some (msg, 4 + len)"
      and c: "msg = concat (message_blocks len kt bs seconds confirm comment)"
      and l: "length msg = 4 + len"
      and n: "len = 1 + 4 + strlen kt + length (concat bs)
                      + 4 + (case comment of None \<Rightarrow> 0 | Some s \<Rightarrow> strlen s)
                      + (if confirm \<noteq> 0 then 1 else 0) + (if seconds \<noteq> 0 then 5 else 0)"
      and which: "ktype e = kt_rsa \<and> kt = ''ssh-rsa'' \<and> rsa_fields e = Some bs
                \<or> ktype e = kt_ed25519 \<and> kt = ''ssh-ed25519'' \<and> ed25519_fields e = Some (Some bs)"
      by blast
    have lbuf: "length buf = 4 + len" using assms(1) m by (simp add: malloc_contract_def)
    have 1: "\<exists>key_type key_blocks buf.
                libc_malloc w (4 + len) = Some buf \<and> length buf = 4 + len
              \<and> run_writes (message_blocks len key_type key_blocks seconds confirm comment) (buf, 0)
                  = Some (msg, 4 + len)
              \<and> msg = concat (message_blocks len key_type key_blocks seconds confirm comment)"
      using m lbuf r c by blast
    have cb: "(case comment of None \<Rightarrow> 0 | Some s \<Rightarrow> strlen s) < 2 ^ 31"
      using assms(2) by (cases comment) (simp_all add: caller_bounds_def)
    have kb: "strlen kt + length (concat bs) \<le> 393247"
    proof -
      from which consider (rsa) "kt = ''ssh-rsa''" "rsa_fields e = Some bs"
        | (ed) "kt = ''ssh-ed25519''" "ed25519_fields e = Some (Some bs)" by blast
      then show ?thesis
      proof cases
        case rsa
        have "length (concat bs) \<le> 393240"
          using rsa_fields_length[OF rsa(2)] assms(2) by (simp add: caller_bounds_def)
        moreover have "strlen kt = 7" by (simp add: rsa(1) strlen_def cstr_def NUL_def)
        ultimately show ?thesis by simp
      next
        case ed
        have "length (concat bs) = 4 + 32 + 4 + 64" using ed25519_fields_length[OF ed(2)] .
        moreover have "strlen kt = 11" by (simp add: ed(1) strlen_def cstr_def NUL_def)
        ultimately show ?thesis by simp
      qed
    qed
    have "len < 393262 + 2 ^ 31" using cb kb unfolding n by (simp split: if_splits)
    then have 2: "len < 2 ^ 32" by simp
    have "be32_value (take 4 msg) = len mod 2 ^ 32"
      using ssh_message_length_field(1)[OF assms(1) built] .
    with 2 l have 3: "be32_value (take 4 msg) = length (drop 4 msg)" by simp
    have b: "msg ! 4 = char_of (opcode seconds confirm)"
      using ssh_message_length_field(2)[OF assms(1) built] .
    have o: "(char_of (opcode seconds confirm) = char_of SSH2_AGENTC_ADD_ID_CONSTRAINED
                \<longleftrightarrow> confirm \<noteq> 0 \<or> seconds \<noteq> 0)"
            "(char_of (opcode seconds confirm) = char_of SSH2_AGENTC_ADD_IDENTITY
                \<longleftrightarrow> confirm = 0 \<and> seconds = 0)"
      by (auto simp: opcode_def SSH2_AGENTC_ADD_ID_CONSTRAINED_def SSH2_AGENTC_ADD_IDENTITY_def)
    have tk: "take (4 + len) msg = msg" using l by simp
    have 4: "\<exists>status. send_to_ssh_agent w e seconds confirm comment = Some (status, [msg])"
      by (simp add: send_to_ssh_agent_def built Let_def tk)
    from 1 l 2 3 b o 4 show ?thesis by simp
  qed
  have b: "key_complete e \<and> (\<forall>n. libc_malloc w n \<noteq> None) \<longrightarrow>
          (\<exists>m l. ssh_message w e seconds confirm comment = Built (m, l))"
    using ssh_message_complete[OF assms(1), of e seconds confirm comment] by blast
  from a b show ?thesis by blast
qed

lemma sample_malloc: "malloc_contract (libc_malloc sample_world)" "libc_malloc sample_world k \<noteq> None"
  by (simp_all add: malloc_contract_def sample_world_def)

lemma sample_ed25519_key_fields:
  "ktype sample_ed25519_key = kt_ed25519"
  "key_q sample_ed25519_key = Some (Mpi_opaque (Some (CHR 0x40 # replicate 32 CHR ''q'')))"
  "key_d sample_ed25519_key = Some (Mpi_opaque (Some (replicate 32 CHR ''d'')))"
  by (simp_all add: sample_ed25519_key_def ed25519_exporter_def)

lemma be_bytes_small: "0 < v \<Longrightarrow> v < 256 \<Longrightarrow> be_bytes v = [char_of v]"
  by (simp add: be_bytes.simps[of v] be_bytes.simps[of 0])

lemma print_ssh_small:
  "0 < v \<Longrightarrow> v < 128 \<Longrightarrow> gcry_mpi_print_ssh (Some (Mpi_num v)) = Some (be32 1 @ [char_of v])"
  by (simp add: gcry_mpi_print_ssh_def be_bytes_small Let_def)

lemma sample_rsa_key_fields:
  "ktype sample_rsa_key = kt_rsa"
  "rsa_fields sample_rsa_key =
     Some [be32 1 @ [char_of (33::nat)], be32 1 @ [char_of (3::nat)], be32 1 @ [char_of (7::nat)],
           be32 1 @ [char_of (4::nat)], be32 1 @ [char_of (11::nat)], be32 1 @ [char_of (3::nat)]]"
  by (simp_all add: sample_rsa_key_def rsa_fields_def print_ssh_small exporter0_def)

lemma sample_bounds:
  "caller_bounds sample_ed25519_key (Some ''test'')"
  "caller_bounds sample_rsa_key (Some ''test'')"
  "key_complete sample_ed25519_key"
  "key_complete sample_rsa_key"
  by (simp_all add: caller_bounds_def key_complete_def mpi_nbytes_def is_num_def is_opaque_def
        be_bytes_small sample_ed25519_key_def ed25519_exporter_def sample_rsa_key_def exporter0_def
        strlen_def cstr_def NUL_def)

theorem ssh_message_length_and_opcode_witness:
  "malloc_contract (libc_malloc sample_world)
   \<and> caller_bounds sample_ed25519_key (Some ''test'') \<and> caller_bounds sample_rsa_key (Some ''test'')
   \<and> (\<exists>msg. ssh_message sample_world sample_ed25519_key 60 1 (Some ''test'') = Built (msg, 134)
         \<and> length msg = 138 \<and> be32_value (take 4 msg) = 134 \<and> length (drop 4 msg) = 134
         \<and> msg ! 4 = char_of SSH2_AGENTC_ADD_ID_CONSTRAINED)
   \<and> (\<exists>msg. ssh_message sample_world sample_rsa_key 0 0 (Some ''test'') = Built (msg, 50)
         \<and> be32_value (take 4 msg) = 50 \<and> length (drop 4 msg) = 50
         \<and> msg ! 4 = char_of SSH2_AGENTC_ADD_IDENTITY)
   \<and> (\<exists>msg len. ssh_message sample_world sample_rsa_key 60 0 None = Built (msg, len))"
proof -
  have s: "strlen ''test'' = 4" by (simp_all add: strlen_def cstr_def NUL_def)
  from ssh_message_ed25519[OF sample_malloc(1) sample_ed25519_key_fields _ _ _ sample_malloc(2),
        of 134 "Some ''test''" 1 60]
  obtain msg where m: "ssh_message sample_world sample_ed25519_key 60 1 (Some ''test'') = Built (msg, 134)"
    by (auto simp: s)
  from ssh_message_length_and_opcode[OF sample_malloc(1) sample_bounds(1), of 60 1 msg 134] m
  have 1: "length msg = 138 \<and> be32_value (take 4 msg) = 134 \<and> length (drop 4 msg) = 134
         \<and> msg ! 4 = char_of SSH2_AGENTC_ADD_ID_CONSTRAINED"
    by simp
  let ?bs = "[be32 1 @ [char_of (33::nat)], be32 1 @ [char_of (3::nat)], be32 1 @ [char_of (7::nat)],
           be32 1 @ [char_of (4::nat)], be32 1 @ [char_of (11::nat)], be32 1 @ [char_of (3::nat)]]"
  have n: "50 = 12 + length (concat ?bs) + 4 + (case Some ''test'' of None \<Rightarrow> 0 | Some s \<Rightarrow> strlen s)
                + (if (0::int) \<noteq> 0 then 1 else 0) + (if (0::nat) \<noteq> 0 then 5 else 0)"
    by (simp add: s)
  from ssh_message_rsa[OF sample_malloc(1) sample_rsa_key_fields n] sample_malloc(2)[of "4 + 50"]
  obtain msg0 where m0: "ssh_message sample_world sample_rsa_key 0 0 (Some ''test'') = Built (msg0, 50)"
    by (auto split: option.splits)
  from ssh_message_length_and_opcode[OF sample_malloc(1) sample_bounds(2), of 0 0 msg0 50] m0
  have 2: "be32_value (take 4 msg0) = 50 \<and> length (drop 4 msg0) = 50
       \<and> msg0 ! 4 = char_of SSH2_AGENTC_ADD_IDENTITY"
    by simp
  have cb: "caller_bounds sample_rsa_key None"
    using sample_bounds(2) by (simp add: caller_bounds_def)
  from ssh_message_length_and_opcode[OF sample_malloc(1) cb, of 60 0] sample_bounds(4) sample_malloc(2)
  have 3: "\<exists>msg len. ssh_message sample_world sample_rsa_key 60 0 None = Built (msg, len)"
    by blast
  from sample_malloc(1) sample_bounds(1,2) m 1 m0 2 3 show ?thesis by blast
qed

section \<open>Properties of parse_args and main\<close>

text \<open>
  The two kinds of a first connection error in \<open>connect_agent\<close>. After a first error other than
  "connect failed" control goes on to line 786 with a context that is not connected.
  After "connect failed" there is one launch and, if that succeeds, one more
  connection attempt, and the failure of either ends the program with status 1.
\<close>

lemma connect_agent_other_error:
  "socket_connect w 0 \<noteq> 0 \<Longrightarrow> gpg_err_code (socket_connect w 0) \<noteq> GPG_ERR_ASS_CONNECT_FAILED \<Longrightarrow>
     connect_agent w e =
       (None,
        if connect_sets_engine w 0 then e\<lparr>ctx := Some (Assuan_context Engine_closed)\<rparr> else e,
        [Assuan_socket_connect])"
  by (simp add: connect_agent_def assuan_socket_connect_def)

lemma connect_agent_connect_failed:
  "socket_connect w 0 \<noteq> 0 \<Longrightarrow> gpg_err_code (socket_connect w 0) = GPG_ERR_ASS_CONNECT_FAILED \<Longrightarrow>
     (launch_status w \<noteq> 0 \<longrightarrow>
        fst (connect_agent w e) = Some 1
        \<and> snd (snd (connect_agent w e)) = [Assuan_socket_connect, Launch_gpg_agent])
     \<and> (launch_status w = 0 \<and> socket_connect w 1 \<noteq> 0 \<longrightarrow>
        fst (connect_agent w e) = Some 1
        \<and> snd (snd (connect_agent w e)) = [Assuan_socket_connect, Launch_gpg_agent, Assuan_socket_connect])
     \<and> (launch_status w = 0 \<and> socket_connect w 1 = 0 \<longrightarrow>
        fst (connect_agent w e) = None
        \<and> ctx (fst (snd (connect_agent w e))) = Some (Assuan_context Connected)
        \<and> snd (snd (connect_agent w e)) = [Assuan_socket_connect, Launch_gpg_agent, Assuan_socket_connect])"
  by (simp add: connect_agent_def assuan_socket_connect_def)

lemma isxdigit_not_dash: "isxdigit c \<Longrightarrow> c \<noteq> CHR ''-''"
  by (auto simp: isxdigit_def isdigit_def)

lemma parse_args_keygrip_accepted:
  assumes "length kg = KEYGRIP_LENGTH" and "list_all isxdigit kg"
  shows "parse_args [prog, kg] args0 = (0, args0\<lparr>arg_keygrip := Some kg\<rparr>)"
proof -
  obtain c r where k: "kg = c # r" using assms(1) by (cases kg) (auto simp: KEYGRIP_LENGTH_def)
  have "isxdigit c" using assms(2) k by simp
  then have d: "take 1 kg \<noteq> ''-''" using isxdigit_not_dash k by auto
  show ?thesis
    using assms d by (simp add: parse_args_def args0_def)
qed

text \<open>
  \<^verbatim>\<open>atoi\<close> on some arguments of \<^verbatim>\<open>-t\<close>, with the values that glibc gives, and
  \<open>parse_args\<close> on a command line with every kind of argument.
\<close>

lemma atoi_examples:
  "atoi ''60'' = 60"
  "atoi '' -7x'' = -7"
  "atoi ''4294967296'' = 0"
  "atoi ''-4294967295'' = 1"
  "atoi ''2147483648'' = -2147483648"
  "atoi ''99999999999999999999'' = -1"
  by (simp_all add: atoi_def strtol_def isspace_def isdigit_def Let_def)

lemma parse_args_examples:
  "parse_args [''agent-transfer'', ''-ct'', ''60'', sample_keygrip, ''my key''] args0
     = (0, \<lparr>arg_seconds = 60, arg_confirm = 1, arg_comment = Some ''my key'',
            arg_keygrip = Some sample_keygrip, arg_help = 0\<rparr>)"
  "fst (parse_args [''agent-transfer'', ''-t'', ''4294967296'', sample_keygrip] args0) = 1"
  "fst (parse_args [''agent-transfer'', ''-t'', ''-4294967295'', sample_keygrip] args0) = 0"
  by (simp_all add: parse_args_def args0_def atoi_def strtol_def isspace_def isdigit_def isxdigit_def
       KEYGRIP_LENGTH_def sample_keygrip_def Let_def)

lemma parse_args_keygrip_rejected:
  assumes "take 1 kg \<noteq> ''-''" and "length kg \<noteq> KEYGRIP_LENGTH \<or> \<not> list_all isxdigit kg"
  shows "fst (parse_args [prog, kg] args0) = 1"
    and "gcry_version_ok w \<Longrightarrow> main w [prog, kg] = (Exit 1, [Usage_stderr])"
proof -
  show 1: "fst (parse_args [prog, kg] args0) = 1"
    using assms by (auto simp: parse_args_def args0_def)
  assume v: "gcry_version_ok w"
  obtain r a where p: "parse_args [prog, kg] args0 = (r, a)"
    by (cases "parse_args [prog, kg] args0")
  with 1 have "r = 1" by simp
  with v p show "main w [prog, kg] = (Exit 1, [Usage_stderr])"
    by (simp add: main_def)
qed

text \<open>
  With no argument at all, and for any behaviour of the agents, \<open>main\<close> passes argument
  parsing and goes on to the two agents with a NULL keygrip, which the two
  \<^verbatim>\<open>asprintf\<close> calls print as \<open>(null)\<close>.
\<close>

lemma agents_without_keygrip:
  assumes "gcry_version_ok w" and "\<And>s. asprintf_ok w s"
  shows "main w [prog] =
           agents w args0
             ''SETKEYDESC Sending+key+from+gpg-agent+to+ssh-agent...%0a(keygrip:+(null))''
             ''EXPORT_KEY (null)''"
  using assms by (simp add: main_def parse_args_def args0_def desc_prompt_text_def)

text \<open>
  A session on a context whose engine is closed: every transaction is started and
  fails, so that the session ends with status 1 after the transaction
  \<open>keywrap_key --export\<close>. A session on a context without an engine does not get
  beyond the first transaction it starts.
\<close>

lemma transact_closed:
  "ctx e = Some (Assuan_context Engine_closed) \<Longrightarrow>
     transact w e command = Some (gpg_err_make GPG_ERR_SOURCE_USER_1 GPG_ERR_EBADF, e)"
  by (simp add: transact_def)

lemma transact_no_engine:
  "ctx e = Some (Assuan_context No_engine) \<Longrightarrow> transact w e command = None"
  by (simp add: transact_def)

lemma sendenv_all_closed:
  "ctx e = Some (Assuan_context Engine_closed) \<Longrightarrow> fst (sendenv_all w e vs) = Some e"
proof (induction vs)
  case Nil
  show ?case by simp
next
  case (Cons v vs)
  obtain env val opt where v: "v = (env, val, opt)" by (cases v)
  obtain r evs where t: "sendenv_all w e vs = (r, evs)" by (cases "sendenv_all w e vs")
  with Cons have r: "r = Some e" by simp
  show ?case
    using Cons.prems
    by (simp add: v t r sendenv_def transact_closed Let_def split: option.splits)
qed

lemma sendenv_all_no_engine:
  "ctx e = Some (Assuan_context No_engine) \<Longrightarrow>
     fst (sendenv_all w e vs) = None \<or> fst (sendenv_all w e vs) = Some e"
proof (induction vs)
  case Nil
  show ?case by simp
next
  case (Cons v vs)
  obtain env val opt where v: "v = (env, val, opt)" by (cases v)
  obtain r evs where t: "sendenv_all w e vs = (r, evs)" by (cases "sendenv_all w e vs")
  with Cons have r: "r = None \<or> r = Some e" by simp
  show ?case
    using Cons.prems r
    by (auto simp: v t sendenv_def transact_no_engine Let_def split: option.splits)
qed

lemma session_closed:
  assumes "ctx e = Some (Assuan_context Engine_closed)"
  shows "\<exists>evs. session w e a desc_prompt get_key = (Exit 1, evs @ [Transact ''keywrap_key --export''])"
proof -
  obtain r evs1 where s1: "sendenv_all w e (vars w) = (r, evs1)"
    by (cases "sendenv_all w e (vars w)")
  with sendenv_all_closed[OF assms, of w "vars w"] have r: "r = Some e" by simp
  have "gpg_err_make GPG_ERR_SOURCE_USER_1 GPG_ERR_EBADF \<noteq> 0"
    by (simp add: gpg_err_make_def gpg_err_defs)
  then have "session w e a desc_prompt get_key = (Exit 1, evs1 @ [Transact ''keywrap_key --export''])"
    by (simp add: session_def s1 r transact_closed[OF assms])
  then show ?thesis by blast
qed

lemma session_no_engine:
  assumes "ctx e = Some (Assuan_context No_engine)"
  shows "fst (session w e a desc_prompt get_key) = Undefined_behaviour"
proof -
  obtain r evs1 where s1: "sendenv_all w e (vars w) = (r, evs1)"
    by (cases "sendenv_all w e (vars w)")
  with sendenv_all_no_engine[OF assms, of w "vars w"] have "r = None \<or> r = Some e" by simp
  then show ?thesis
    by (auto simp: session_def s1 transact_no_engine[OF assms])
qed

text \<open>
  After a first connection error other than "connect failed" \<open>main\<close> still runs the
  session, for every world in which the earlier steps succeed: when the connection
  failed in the handshake the transactions are started on the closed context, and
  when it failed before that the first transaction does not return.
\<close>

lemma agents_after_connect_error:
  assumes "socket_connect w 0 \<noteq> 0"
      and "gpg_err_code (socket_connect w 0) \<noteq> GPG_ERR_ASS_CONNECT_FAILED"
      and "fst (get_ssh_auth_sock_fd w) \<noteq> -1" and "assuan_new w = 0" and "agent_sockname w \<noteq> None"
  shows "connect_sets_engine w 0 \<Longrightarrow>
           fst (agents w a desc_prompt get_key) = Exit 1
           \<and> Transact ''keywrap_key --export'' \<in> set (snd (agents w a desc_prompt get_key))"
    and "\<not> connect_sets_engine w 0 \<Longrightarrow> fst (agents w a desc_prompt get_key) = Undefined_behaviour"
proof -
  obtain fd evs0 where g: "get_ssh_auth_sock_fd w = (fd, evs0)"
    by (cases "get_ssh_auth_sock_fd w")
  obtain name where nm: "agent_sockname w = Some name"
    using assms(5) by blast
  let ?e0 = "exporter0\<lparr>ctx := Some (Assuan_context No_engine)\<rparr>"
  note c = connect_agent_other_error[OF assms(1,2), of ?e0]
  {
    assume en: "connect_sets_engine w 0"
    let ?e1 = "?e0\<lparr>ctx := Some (Assuan_context Engine_closed)\<rparr>"
    have "ctx ?e1 = Some (Assuan_context Engine_closed)" by simp
    from session_closed[OF this, of w a desc_prompt get_key] obtain evs where
      s: "session w ?e1 a desc_prompt get_key = (Exit 1, evs @ [Transact ''keywrap_key --export''])"
      by blast
    show "fst (agents w a desc_prompt get_key) = Exit 1
           \<and> Transact ''keywrap_key --export'' \<in> set (snd (agents w a desc_prompt get_key))"
      using assms(3,4) g nm en s by (simp add: agents_def c)
  }
  {
    assume en: "\<not> connect_sets_engine w 0"
    have "ctx ?e0 = Some (Assuan_context No_engine)" by simp
    from session_no_engine[OF this, of w a desc_prompt get_key]
    obtain evs where s: "session w ?e0 a desc_prompt get_key = (Undefined_behaviour, evs)"
      by (cases "session w ?e0 a desc_prompt get_key") auto
    show "fst (agents w a desc_prompt get_key) = Undefined_behaviour"
      using assms(3,4) g nm en s by (simp add: agents_def c)
  }
qed

text \<open>
  Claim C8. A keygrip argument that is 40 hexadecimal digits is accepted, and one of any
  other length or with another character in it is rejected before any I/O, as the
  two lemmas above show. A missing keygrip is not rejected: with no argument at all
  \<open>parse_args\<close> returns 0 and leaves the keygrip NULL, and \<open>main\<close> goes on to connect to
  both agents and to ask gpg-agent for the key \<open>(null)\<close> (\<open>agents_without_keygrip\<close> for
  every world, the theorem below on a run with both agents present). The usage text of
  the program names the keygrip as a mandatory argument.
\<close>

theorem main_without_keygrip:
  "parse_args [''agent-transfer''] args0 = (0, args0) \<and> arg_keygrip args0 = None
   \<and> main sample_world [''agent-transfer''] =
       (Exit 1, [Ssh_agent_connect, Assuan_new, Gpgconf_list_dirs, Assuan_socket_connect,
                 Transact ''OPTION ttytype=xterm'',
                 Transact ''keywrap_key --export'',
                 Transact ''SETKEYDESC Sending+key+from+gpg-agent+to+ssh-agent...%0a(keygrip:+(null))'',
                 Transact ''EXPORT_KEY (null)''])"
  by (simp add: parse_args_def args0_def main_def desc_prompt_text_def agents_def
        get_ssh_auth_sock_fd_def connect_agent_def assuan_socket_connect_def session_def vars_def
        sendenv_def transact_def
        data_cb_def extend_wrapped_key_def cipher_keylen_def sample_world_def sample_keygrip_def
        exporter0_def strlen_def cstr_def NUL_def gpg_err_defs Let_def)

text \<open>
  Claim C1. A first connection error of the kind "connect failed" leads to exactly one
  launch and one further connection attempt, whose failure ends the program, as
  \<open>connect_agent_connect_failed\<close> shows. Any other connection error does not end the
  program: the branch only prints a message and lacks the \<^verbatim>\<open>return 1\<close> of its
  siblings, so control reaches the context options and the transactions, which are
  attempted on the unconnected context (\<open>agents_after_connect_error\<close> for every such
  world, the theorem below on a run where the handshake with gpg-agent fails).
\<close>

theorem main_after_refused_connect:
  "socket_connect refused_world 0 \<noteq> 0
   \<and> gpg_err_code (socket_connect refused_world 0) \<noteq> GPG_ERR_ASS_CONNECT_FAILED
   \<and> main refused_world [''agent-transfer'', sample_keygrip] =
       (Exit 1, [Ssh_agent_connect, Assuan_new, Gpgconf_list_dirs, Assuan_socket_connect,
                 Transact ''OPTION ttytype=xterm'',
                 Transact ''keywrap_key --export''])"
  by (simp add: parse_args_def args0_def main_def desc_prompt_text_def agents_def
        get_ssh_auth_sock_fd_def connect_agent_def assuan_socket_connect_def session_def vars_def
        sendenv_def transact_def gpg_err_make_def
        data_cb_def extend_wrapped_key_def cipher_keylen_def refused_world_def sample_world_def
        sample_keygrip_def KEYGRIP_LENGTH_def isxdigit_def isdigit_def
        exporter0_def strlen_def cstr_def NUL_def gpg_err_defs gpg_err_code_def Let_def)

text \<open>
  When the first connection fails before the engine of the context is installed, and
  not for want of a listener, \<open>main\<close> goes on all the same, and the first transaction
  that it starts does not return.
\<close>

lemma main_after_early_connect_error:
  "socket_connect long_name_world 0 \<noteq> 0
   \<and> gpg_err_code (socket_connect long_name_world 0) \<noteq> GPG_ERR_ASS_CONNECT_FAILED
   \<and> main long_name_world [''agent-transfer'', sample_keygrip] =
       (Undefined_behaviour,
        [Ssh_agent_connect, Assuan_new, Gpgconf_list_dirs, Assuan_socket_connect,
         Transact ''OPTION ttytype=xterm''])"
  by (simp add: parse_args_def args0_def main_def desc_prompt_text_def agents_def
        get_ssh_auth_sock_fd_def connect_agent_def assuan_socket_connect_def session_def vars_def
        sendenv_def transact_def gpg_err_make_def
        data_cb_def extend_wrapped_key_def cipher_keylen_def long_name_world_def sample_world_def
        sample_keygrip_def KEYGRIP_LENGTH_def isxdigit_def isdigit_def
        exporter0_def strlen_def cstr_def NUL_def gpg_err_defs gpg_err_code_def Let_def)

lemma invm_3_11: "invm 3 11 = Some (True, 4)"
  by (simp add: invm_def is_inverse_def upt_rec)

text \<open>
  The whole pipeline on the launch path: gpg-agent is not running, is launched, and the
  key it exports is unwrapped and sent to ssh-agent in one message.
\<close>

lemma main_launch_path:
  "\<exists>msg. main launching_world [''agent-transfer'', sample_keygrip] =
       (Exit 0, [Ssh_agent_connect, Assuan_new, Gpgconf_list_dirs,
                 Assuan_socket_connect, Launch_gpg_agent, Assuan_socket_connect,
                 Transact ''OPTION ttytype=xterm'',
                 Transact ''keywrap_key --export'',
                 Transact (''SETKEYDESC Sending+key+from+gpg-agent+to+ssh-agent...%0a(keygrip:+'' @ sample_keygrip @ '')''),
                 Transact (''EXPORT_KEY '' @ sample_keygrip),
                 Ssh_agent_write msg])"
  by (simp add: parse_args_def args0_def main_def desc_prompt_text_def agents_def
        get_ssh_auth_sock_fd_def connect_agent_def assuan_socket_connect_def session_def vars_def
        sendenv_def transact_def gpg_err_make_def
        data_cb_def extend_wrapped_key_def cipher_keylen_def launching_world_def sample_world_def
        sample_keygrip_def KEYGRIP_LENGTH_def isxdigit_def isdigit_def
        unwrap_key_def unwrap_rsa_key_def gcry_mpi_invm_def invm_3_11
        send_to_ssh_agent_def ssh_message_def rsa_fields_def print_ssh_small
        message_blocks_def w32_def wbyte_def wstr_def put_def store_def opcode_def
        SSH_AGENT_SUCCESS_def
        exporter0_def strlen_def cstr_def NUL_def gpg_err_defs gpg_err_code_def Let_def)

end
